(* ===== verification/Prelude.thy ===== *)
theory Prelude
  imports Main "HOL-Library.Word" "HOL-Library.List_Lexorder" "HOL-Library.Product_Lexorder"
begin

text \<open>
  Shared ground of the development.

  \<^item> Byte strings (\<open>Vec<u8>\<close>, \<open>&[u8]\<close>) are lists of 8-bit words; they are ordered
    lexicographically, a proper prefix first, which is the order of Rust's slices.
  \<^item> \<open>Result\<close> with panics: the workspace's release profile sets \<open>overflow-checks = true\<close>, so
    an arithmetic overflow, an index out of range and an \<open>unwrap\<close> of nothing abort the
    caller. An \<open>outcome\<close> is therefore a value, an error or a panic.
  \<^item> Stateful code is a function from a state to an outcome and a state. An error keeps the
    state reached so far: a Rust \<open>?\<close> returns early and undoes nothing.
  \<^item> \<open>BTreeMap\<close> is an association list with strictly ascending keys, so that iteration order
    is the order of the list and two maps with the same entries are equal.
\<close>

named_theorems run_simps \<open>how a sequential program runs\<close>
named_theorems bt_simps \<open>lookups in an ordered map after an update\<close>

type_synonym byte = "8 word"
type_synonym bytes = "byte list"

section \<open>Results and sequential programs\<close>

datatype ('a, 'e) outcome = Ok 'a | Err 'e | Panic

type_synonym ('s, 'a, 'e) prog = "'s \<Rightarrow> ('a, 'e) outcome \<times> 's"

definition m_ret :: "'a \<Rightarrow> ('s, 'a, 'e) prog" where
  "m_ret a s = (Ok a, s)"

definition m_err :: "'e \<Rightarrow> ('s, 'a, 'e) prog" where
  "m_err e s = (Err e, s)"

definition m_panic :: "('s, 'a, 'e) prog" where
  "m_panic s = (Panic, s)"

definition m_lift :: "('a, 'e) outcome \<Rightarrow> ('s, 'a, 'e) prog" where
  "m_lift r s = (r, s)"

definition m_bind :: "('s, 'a, 'e) prog \<Rightarrow> ('a \<Rightarrow> ('s, 'b, 'e) prog) \<Rightarrow> ('s, 'b, 'e) prog" where
  "m_bind p f s =
     (case p s of
        (Ok a, s') \<Rightarrow> f a s'
      | (Err e, s') \<Rightarrow> (Err e, s')
      | (Panic, s') \<Rightarrow> (Panic, s'))"

definition m_map_err :: "('e \<Rightarrow> 'f) \<Rightarrow> ('s, 'a, 'e) prog \<Rightarrow> ('s, 'a, 'f) prog" where
  "m_map_err c p s =
     (case p s of
        (Ok a, s') \<Rightarrow> (Ok a, s')
      | (Err e, s') \<Rightarrow> (Err (c e), s')
      | (Panic, s') \<Rightarrow> (Panic, s'))"

definition m_ensure :: "bool \<Rightarrow> 'e \<Rightarrow> ('s, unit, 'e) prog" where
  "m_ensure b e = (if b then m_ret () else m_err e)"

text \<open>The pure counterpart of \<open>m_bind\<close>: the \<open>?\<close> operator in a function without state.\<close>

definition o_bind :: "('a, 'e) outcome \<Rightarrow> ('a \<Rightarrow> ('b, 'e) outcome) \<Rightarrow> ('b, 'e) outcome" where
  "o_bind r f = (case r of Ok a \<Rightarrow> f a | Err e \<Rightarrow> Err e | Panic \<Rightarrow> Panic)"

definition o_ensure :: "bool \<Rightarrow> 'e \<Rightarrow> (unit, 'e) outcome" where
  "o_ensure b e = (if b then Ok () else Err e)"

definition of_option :: "'e \<Rightarrow> 'a option \<Rightarrow> ('a, 'e) outcome" where
  "of_option e x = (case x of None \<Rightarrow> Err e | Some a \<Rightarrow> Ok a)"

text \<open>Running a list of items in order, stopping at the first error.\<close>

fun m_each :: "('x \<Rightarrow> ('s, unit, 'e) prog) \<Rightarrow> 'x list \<Rightarrow> ('s, unit, 'e) prog" where
  "m_each f [] = m_ret ()"
| "m_each f (x # xs) = m_bind (f x) (\<lambda>_. m_each f xs)"

text \<open>\<open>iter.map(f).collect::<Result<Vec<_>, _>>()\<close>.\<close>

fun m_collect :: "('x \<Rightarrow> ('s, 'a, 'e) prog) \<Rightarrow> 'x list \<Rightarrow> ('s, 'a list, 'e) prog" where
  "m_collect f [] = m_ret []"
| "m_collect f (x # xs) = m_bind (f x) (\<lambda>y. m_bind (m_collect f xs) (\<lambda>ys. m_ret (y # ys)))"

lemma m_ret_run [run_simps, simp]: "m_ret a s = (r, t) \<longleftrightarrow> r = Ok a \<and> t = s"
  by (auto simp: m_ret_def)

lemma m_err_run [run_simps, simp]: "m_err e s = (r, t) \<longleftrightarrow> r = Err e \<and> t = s"
  by (auto simp: m_err_def)

lemma m_panic_run [run_simps, simp]: "m_panic s = (r, t) \<longleftrightarrow> r = Panic \<and> t = s"
  by (auto simp: m_panic_def)

lemma m_lift_run [run_simps, simp]: "m_lift q s = (r, t) \<longleftrightarrow> q = r \<and> t = s"
  by (auto simp: m_lift_def)

lemma m_ensure_Ok [run_simps, simp]: "m_ensure b e s = (Ok u, t) \<longleftrightarrow> b \<and> t = s"
  by (auto simp: m_ensure_def)

lemma m_ensure_Err [run_simps, simp]: "m_ensure b e s = (Err x, t) \<longleftrightarrow> \<not> b \<and> x = e \<and> t = s"
  by (auto simp: m_ensure_def)

lemma m_bind_Ok [run_simps]:
  "m_bind p f s = (Ok b, t) \<longleftrightarrow> (\<exists>a s'. p s = (Ok a, s') \<and> f a s' = (Ok b, t))"
  by (auto simp: m_bind_def split: prod.splits outcome.splits)

lemma m_bind_Err [run_simps]:
  "m_bind p f s = (Err e, t) \<longleftrightarrow>
     p s = (Err e, t) \<or> (\<exists>a s'. p s = (Ok a, s') \<and> f a s' = (Err e, t))"
  by (auto simp: m_bind_def split: prod.splits outcome.splits)

lemma m_bind_Panic [run_simps]:
  "m_bind p f s = (Panic, t) \<longleftrightarrow>
     p s = (Panic, t) \<or> (\<exists>a s'. p s = (Ok a, s') \<and> f a s' = (Panic, t))"
  by (auto simp: m_bind_def split: prod.splits outcome.splits)

lemma o_bind_Ok [run_simps, simp]: "o_bind r f = Ok b \<longleftrightarrow> (\<exists>a. r = Ok a \<and> f a = Ok b)"
  by (cases r) (auto simp: o_bind_def)

lemma o_bind_Err [run_simps]: "o_bind r f = Err e \<longleftrightarrow> r = Err e \<or> (\<exists>a. r = Ok a \<and> f a = Err e)"
  by (cases r) (auto simp: o_bind_def)

lemma o_bind_Panic [run_simps]: "o_bind r f = Panic \<longleftrightarrow> r = Panic \<or> (\<exists>a. r = Ok a \<and> f a = Panic)"
  by (cases r) (auto simp: o_bind_def)

lemma o_bind_simps [simp]: "o_bind (Ok a) f = f a" "o_bind (Err e) f = Err e" "o_bind Panic f = Panic"
  by (simp_all add: o_bind_def)

lemma o_ensure_iff [run_simps, simp]:
  "o_ensure b e = Ok u \<longleftrightarrow> b" "o_ensure b e = Err x \<longleftrightarrow> \<not> b \<and> x = e" "o_ensure b e \<noteq> Panic"
  by (auto simp: o_ensure_def)

lemma of_option_iff [run_simps, simp]:
  "of_option e x = Ok a \<longleftrightarrow> x = Some a" "of_option e x = Err y \<longleftrightarrow> x = None \<and> y = e" "of_option e x \<noteq> Panic"
  by (auto simp: of_option_def split: option.splits)

lemma m_bind_step: "p s = (Ok a, s') \<Longrightarrow> m_bind p f s = f a s'"
  by (simp add: m_bind_def)

lemma m_bind_lift_Ok [simp]: "m_bind (m_lift (Ok a)) f = f a"
  by (simp add: m_bind_def m_lift_def fun_eq_iff)

lemma m_bind_ret [simp]: "m_bind (m_ret a) f = f a"
  by (simp add: m_bind_def m_ret_def fun_eq_iff)

lemma m_map_err_Ok [run_simps]: "m_map_err c p s = (Ok a, t) \<longleftrightarrow> p s = (Ok a, t)"
  by (auto simp: m_map_err_def split: prod.splits outcome.splits)

lemma m_map_err_Err [run_simps]:
  "m_map_err c p s = (Err x, t) \<longleftrightarrow> (\<exists>e. p s = (Err e, t) \<and> x = c e)"
  by (auto simp: m_map_err_def split: prod.splits outcome.splits)

lemma m_map_err_Panic [run_simps]: "m_map_err c p s = (Panic, t) \<longleftrightarrow> p s = (Panic, t)"
  by (auto simp: m_map_err_def split: prod.splits outcome.splits)

text \<open>A loop that ran to its end, by induction on the items done so far.\<close>

lemma m_each_Ok_induct [consumes 1, case_names start step]:
  assumes "m_each f xs s = (Ok u, t)" and "R [] s"
    and "\<And>ys x s s'. \<lbrakk>R ys s; f x s = (Ok (), s'); x \<in> set xs\<rbrakk> \<Longrightarrow> R (ys @ [x]) s'"
  shows "R xs t"
proof -
  have "R (ps @ xs) t" if "m_each f xs s = (Ok u, t)" "R ps s"
    "\<And>ys x s s'. \<lbrakk>R ys s; f x s = (Ok (), s'); x \<in> set xs\<rbrakk> \<Longrightarrow> R (ys @ [x]) s'" for ps
    using that
  proof (induction xs arbitrary: ps s)
    case Nil
    then show ?case by simp
  next
    case (Cons x xs)
    then obtain s1 where s1: "f x s = (Ok (), s1)" "m_each f xs s1 = (Ok u, t)"
      by (auto simp: m_bind_Ok)
    from Cons.prems(2,3) s1(1) have "R (ps @ [x]) s1" by auto
    from Cons.IH [OF s1(2) this Cons.prems(3)] show ?case by simp
  qed
  from this [of "[]"] assms show ?thesis by simp
qed

text \<open>
  A property of the state that every step keeps, whatever its outcome, is kept by a whole
  program. This is the rule behind every frame argument below.
\<close>

definition preserves :: "('s \<Rightarrow> bool) \<Rightarrow> ('s, 'a, 'e) prog \<Rightarrow> bool" where
  "preserves I p \<longleftrightarrow> (\<forall>s r t. I s \<longrightarrow> p s = (r, t) \<longrightarrow> I t)"

lemma preservesD: "preserves I p \<Longrightarrow> I s \<Longrightarrow> p s = (r, t) \<Longrightarrow> I t"
  by (simp add: preserves_def)

lemma preservesI: "(\<And>s r t. I s \<Longrightarrow> p s = (r, t) \<Longrightarrow> I t) \<Longrightarrow> preserves I p"
  by (simp add: preserves_def)

lemma preserves_ret [intro, simp]: "preserves I (m_ret a)"
  by (simp add: preserves_def)

lemma preserves_err [intro, simp]: "preserves I (m_err e)"
  by (simp add: preserves_def)

lemma preserves_panic [intro, simp]: "preserves I m_panic"
  by (simp add: preserves_def)

lemma preserves_lift [intro, simp]: "preserves I (m_lift r)"
  by (simp add: preserves_def)

lemma preserves_ensure [intro, simp]: "preserves I (m_ensure b e)"
  by (simp add: m_ensure_def)

lemma preserves_bind [intro]:
  assumes "preserves I p" and "\<And>a. preserves I (f a)"
  shows "preserves I (m_bind p f)"
proof (rule preservesI)
  fix s r t
  assume s: "I s" and run: "m_bind p f s = (r, t)"
  obtain q s' where q: "p s = (q, s')" by (cases "p s")
  with assms(1) s have "I s'" by (auto dest: preservesD)
  with q run assms(2) show "I t"
    by (cases q) (auto simp: m_bind_def dest: preservesD)
qed

lemma preserves_map_err [intro]: "preserves I p \<Longrightarrow> preserves I (m_map_err c p)"
  by (auto simp: preserves_def m_map_err_def split: prod.splits outcome.splits)

lemma preserves_each [intro]: "(\<And>x. preserves I (f x)) \<Longrightarrow> preserves I (m_each f xs)"
  by (induction xs) auto

lemma preserves_collect [intro]: "(\<And>x. preserves I (f x)) \<Longrightarrow> preserves I (m_collect f xs)"
  by (induction xs) auto

text \<open>The equations that run a program on a concrete state.\<close>

lemmas prog_exec = m_bind_def m_ret_def m_err_def m_panic_def m_lift_def m_map_err_def m_ensure_def
  o_bind_def o_ensure_def of_option_def

section \<open>Unsigned integers with overflow checks\<close>

definition u64_max :: nat where
  "u64_max = 2 ^ 64 - 1"

definition u64_add :: "nat \<Rightarrow> nat \<Rightarrow> (nat, 'e) outcome" where
  "u64_add a b = (if a + b \<le> u64_max then Ok (a + b) else Panic)"

definition u64_mul :: "nat \<Rightarrow> nat \<Rightarrow> (nat, 'e) outcome" where
  "u64_mul a b = (if a * b \<le> u64_max then Ok (a * b) else Panic)"

lemma u64_add_Ok [simp]: "u64_add a b = Ok c \<longleftrightarrow> c = a + b \<and> a + b \<le> u64_max"
  by (auto simp: u64_add_def)

lemma u64_add_not_Err [simp]: "u64_add a b \<noteq> Err e"
  by (simp add: u64_add_def)

lemma u64_mul_Ok [simp]: "u64_mul a b = Ok c \<longleftrightarrow> c = a * b \<and> a * b \<le> u64_max"
  by (auto simp: u64_mul_def)

lemma u64_mul_not_Err [simp]: "u64_mul a b \<noteq> Err e"
  by (simp add: u64_mul_def)

section \<open>Bytes\<close>

lemma unat_byte: "unat (c::byte) < 256"
proof -
  have "unat c < 2 ^ LENGTH(8)" by (rule unsigned_less)
  then show ?thesis by simp
qed

lemma byte_le_255 [simp]: "(c::byte) \<le> 255"
  using unat_byte [of c] by (simp add: word_le_nat_alt)

lemma unat_byte_succ: "b \<noteq> (255::byte) \<Longrightarrow> unat (b + 1) = unat b + 1"
proof -
  assume "b \<noteq> 255"
  then have "unat b \<noteq> 255" by (auto simp: word_unat_eq_iff)
  with unat_byte [of b] show ?thesis by (simp add: unat_word_ariths)
qed

lemma byte_succ: "b \<noteq> (255::byte) \<Longrightarrow> b < b + 1 \<and> (c < b + 1 \<longleftrightarrow> c \<le> b)"
  by (auto simp: word_less_nat_alt word_le_nat_alt unat_byte_succ)

section \<open>Ordered maps\<close>

type_synonym ('k, 'v) btree = "('k \<times> 'v) list"

definition bt_inv :: "('k::linorder, 'v) btree \<Rightarrow> bool" where
  "bt_inv m \<longleftrightarrow> sorted_wrt (<) (map fst m)"

abbreviation bt_get :: "('k, 'v) btree \<Rightarrow> 'k \<Rightarrow> 'v option" where
  "bt_get m k \<equiv> map_of m k"

fun bt_insert :: "'k::linorder \<Rightarrow> 'v \<Rightarrow> ('k, 'v) btree \<Rightarrow> ('k, 'v) btree" where
  "bt_insert k v [] = [(k, v)]"
| "bt_insert k v (e # m) =
     (if fst e < k then e # bt_insert k v m
      else if fst e = k then (k, v) # m
      else (k, v) # e # m)"

fun bt_remove :: "'k::linorder \<Rightarrow> ('k, 'v) btree \<Rightarrow> ('k, 'v) btree" where
  "bt_remove k [] = []"
| "bt_remove k (e # m) = (if fst e = k then m else e # bt_remove k m)"

text \<open>The half-open range \<open>[start, end)\<close>, either end possibly unbounded.\<close>

definition in_bounds :: "'k::linorder option \<Rightarrow> 'k option \<Rightarrow> 'k \<Rightarrow> bool" where
  "in_bounds start end k \<longleftrightarrow>
     (case start of None \<Rightarrow> True | Some s \<Rightarrow> s \<le> k) \<and>
     (case end of None \<Rightarrow> True | Some e \<Rightarrow> k < e)"

definition bt_range :: "'k::linorder option \<Rightarrow> 'k option \<Rightarrow> ('k, 'v) btree \<Rightarrow> ('k, 'v) btree" where
  "bt_range start end m = filter (\<lambda>(k, _). in_bounds start end k) m"

lemma bt_inv_Nil [simp]: "bt_inv []"
  by (simp add: bt_inv_def)

lemma bt_inv_Cons [simp]: "bt_inv (e # m) \<longleftrightarrow> (\<forall>x\<in>set m. fst e < fst x) \<and> bt_inv m"
  by (auto simp: bt_inv_def)

lemma bt_inv_distinct: "bt_inv m \<Longrightarrow> distinct (map fst m)"
  by (induction m) auto

lemma set_bt_insert_keys: "fst ` set (bt_insert k v m) = insert k (fst ` set m)"
  by (induction m) auto

lemma bt_inv_insert [simp, intro]:
  assumes "bt_inv m"
  shows "bt_inv (bt_insert k v m)"
  using assms
proof (induction m)
  case Nil
  then show ?case by simp
next
  case (Cons e m)
  show ?case
  proof (cases "fst e < k")
    case True
    have "\<forall>x\<in>set (bt_insert k v m). fst e < fst x"
    proof
      fix x
      assume "x \<in> set (bt_insert k v m)"
      then have "fst x \<in> insert k (fst ` set m)"
        using set_bt_insert_keys [of k v m] by blast
      with Cons.prems True show "fst e < fst x" by auto
    qed
    with Cons True show ?thesis by simp
  next
    case False
    with Cons.prems show ?thesis by fastforce
  qed
qed

lemma set_bt_remove_subset: "set (bt_remove k m) \<subseteq> set m"
  by (induction m) auto

lemma bt_inv_remove [simp, intro]: "bt_inv m \<Longrightarrow> bt_inv (bt_remove k m)"
  by (induction m) (use set_bt_remove_subset in auto)

lemma bt_get_insert [bt_simps, simp]: "map_of (bt_insert k v m) = (map_of m)(k \<mapsto> v)"
  by (induction m) auto

lemma map_of_less_None: "\<forall>x\<in>set m. (k::'k::linorder) < fst x \<Longrightarrow> map_of m k = None"
  by (induction m) auto

lemma bt_get_remove [bt_simps, simp]: "bt_inv m \<Longrightarrow> map_of (bt_remove k m) = (map_of m)(k := None)"
  by (induction m) (auto simp: fun_eq_iff map_of_less_None)

lemma bt_inv_filter [simp, intro]: "bt_inv m \<Longrightarrow> bt_inv (filter P m)"
  by (induction m) auto

lemma bt_inv_range [simp, intro]: "bt_inv m \<Longrightarrow> bt_inv (bt_range a b m)"
  by (simp add: bt_range_def)

lemma map_of_filter_key:
  "map_of (filter (\<lambda>(k, _). P k) m) k = (if P k then map_of m k else None)"
  by (induction m) auto

lemma bt_get_range [simp]:
  "map_of (bt_range a b m) k = (if in_bounds a b k then map_of m k else None)"
  by (simp add: bt_range_def map_of_filter_key)

text \<open>Ordered maps are extensional: the entries determine the list.\<close>

lemma bt_ext:
  assumes "bt_inv m" and "bt_inv n" and "map_of m = map_of n"
  shows "m = n"
  using assms
proof (induction m arbitrary: n)
  case Nil
  then show ?case by (cases n) (auto simp: fun_eq_iff split: if_splits)
next
  case (Cons e m)
  obtain k v where e: "e = (k, v)" by (cases e)
  from Cons.prems(3) e have "map_of n k = Some v" by (metis map_of_Cons_code(2))
  then obtain k' v' n' where n: "n = (k', v') # n'" by (cases n) auto
  have "k = k'"
  proof (rule ccontr)
    assume "k \<noteq> k'"
    then consider "k < k'" | "k' < k" by (meson linorder_neqE)
    then show False
    proof cases
      case 1
      with Cons.prems(2) n have "map_of n k = None"
        by (intro map_of_less_None) (auto intro: less_trans)
      with \<open>map_of n k = Some v\<close> show False by simp
    next
      case 2
      with Cons.prems(1) e have "map_of (e # m) k' = None"
        by (intro map_of_less_None) (auto intro: less_trans)
      moreover have "map_of n k' = Some v'" using n by simp
      ultimately show False using fun_cong [OF Cons.prems(3), of k'] by (metis option.distinct(1))
    qed
  qed
  with \<open>map_of n k = Some v\<close> n have "v = v'" by simp
  have "map_of m = map_of n'"
  proof
    fix x
    show "map_of m x = map_of n' x"
    proof (cases "x = k")
      case True
      with Cons.prems(1,2) e n \<open>k = k'\<close> show ?thesis by (simp add: map_of_less_None)
    next
      case False
      with fun_cong [OF Cons.prems(3), of x] e n \<open>k = k'\<close> show ?thesis by simp
    qed
  qed
  with Cons.IH [of n'] Cons.prems(1,2) n have "m = n'" by simp
  with e n \<open>k = k'\<close> \<open>v = v'\<close> show ?case by simp
qed

lemma map_of_rev_distinct: "distinct (map fst m) \<Longrightarrow> map_of (rev m) = map_of m"
  by (metis distinct_rev rev_map set_rev map_of_inject_set)

end
