(* ===== verification/Gas.thy ===== *)
theory Gas
  imports Prelude
begin

text \<open>
  Gas accounting: \<open>GasMeter\<close> of \<open>packages/std/src/gas.rs\<close> and the price lists of
  \<open>packages/storage/src/prices.rs\<close>. Rust keeps the counter in a \<open>RefCell\<close>, so a charge
  through \<open>&GasMeter\<close> mutates it; here the meter is the state of a program.
\<close>

named_theorems gas_simps \<open>how a charge runs\<close>

section \<open>The meter\<close>

record gas_meter =
  limit :: nat
  used :: nat

datatype gas_error = OutOfGas

definition gas_meter_new :: "nat \<Rightarrow> gas_meter" where
  "gas_meter_new lim = \<lparr>limit = lim, used = 0\<rparr>"

definition gas_meter_infinite :: gas_meter where
  "gas_meter_infinite = gas_meter_new u64_max"

text \<open>\<open>u64::saturating_sub\<close> is subtraction on \<open>nat\<close>.\<close>

definition remaining :: "gas_meter \<Rightarrow> nat" where
  "remaining g = limit g - used g"

text \<open>
  The counter is advanced first and compared afterwards: a refused charge stays on the meter.
\<close>

definition charge :: "nat \<Rightarrow> (gas_meter, unit, gas_error) prog" where
  "charge cost g =
     (if used g + cost > u64_max then (Panic, g)
      else let g' = g\<lparr>used := used g + cost\<rparr>
           in if used g' \<ge> limit g' then (Err OutOfGas, g') else (Ok (), g'))"

section \<open>Prices\<close>

record price_list =
  read_flat :: nat
  read_per_byte_percent :: nat
  write_flat :: nat
  write_per_byte_percent :: nat
  remove_flat :: nat
  remove_per_byte_percent :: nat
  range_flat :: nat

definition DEFAULT_PERSISTED_PRICES :: price_list where
  "DEFAULT_PERSISTED_PRICES =
     \<lparr>read_flat = 1000, read_per_byte_percent = 100, write_flat = 0, write_per_byte_percent = 0,
      remove_flat = 0, remove_per_byte_percent = 0, range_flat = 1000\<rparr>"

definition DEFAULT_COMMIT_PRICES :: price_list where
  "DEFAULT_COMMIT_PRICES =
     \<lparr>read_flat = 100, read_per_byte_percent = 10, write_flat = 2000, write_per_byte_percent = 200,
      remove_flat = 2000, remove_per_byte_percent = 200, range_flat = 100\<rparr>"

definition DEFAULT_CACHE_PRICES :: price_list where
  "DEFAULT_CACHE_PRICES =
     \<lparr>read_flat = 0, read_per_byte_percent = 0, write_flat = 0, write_per_byte_percent = 0,
      remove_flat = 0, remove_per_byte_percent = 0, range_flat = 0\<rparr>"

text \<open>\<open>flat + len as u64 * percent / 100\<close>, each operation checked.\<close>

definition price :: "nat \<Rightarrow> nat \<Rightarrow> nat \<Rightarrow> (nat, gas_error) outcome" where
  "price flat percent len =
     (case u64_mul len percent of
        Ok n \<Rightarrow> u64_add flat (n div 100)
      | Err e \<Rightarrow> Err e
      | Panic \<Rightarrow> Panic)"

definition charge_read :: "price_list \<Rightarrow> bytes \<Rightarrow> bytes option \<Rightarrow> (gas_meter, unit, gas_error) prog" where
  "charge_read p key value =
     (let val_len = (case value of None \<Rightarrow> 0 | Some v \<Rightarrow> length v)
      in m_bind (m_lift (price (read_flat p) (read_per_byte_percent p) (length key + val_len))) charge)"

definition charge_write :: "price_list \<Rightarrow> bytes \<Rightarrow> bytes \<Rightarrow> (gas_meter, unit, gas_error) prog" where
  "charge_write p key value =
     m_bind (m_lift (price (write_flat p) (write_per_byte_percent p) (length key + length value))) charge"

definition charge_remove :: "price_list \<Rightarrow> bytes \<Rightarrow> (gas_meter, unit, gas_error) prog" where
  "charge_remove p key =
     m_bind (m_lift (price (remove_flat p) (remove_per_byte_percent p) (length key))) charge"

definition charge_range :: "price_list \<Rightarrow> (gas_meter, unit, gas_error) prog" where
  "charge_range p = charge (range_flat p)"

section \<open>What a charge does\<close>

lemma charge_Ok [gas_simps]:
  "charge c g = (Ok u, g') \<longleftrightarrow>
     used g + c < limit g \<and> used g + c \<le> u64_max \<and> g' = g\<lparr>used := used g + c\<rparr>"
  by (auto simp: charge_def Let_def)

lemma charge_Err [gas_simps]:
  "charge c g = (Err e, g') \<longleftrightarrow>
     limit g \<le> used g + c \<and> used g + c \<le> u64_max \<and> g' = g\<lparr>used := used g + c\<rparr>"
  by (cases e) (auto simp: charge_def Let_def)

lemma price_Ok [gas_simps]:
  "price f p n = Ok c \<longleftrightarrow> n * p \<le> u64_max \<and> f + n * p div 100 \<le> u64_max \<and> c = f + n * p div 100"
  by (auto simp: price_def u64_mul_def u64_add_def)

lemma price_not_Err [simp]: "price f p n \<noteq> Err e"
  by (simp add: price_def u64_mul_def u64_add_def)

text \<open>
  \<open>meter_le\<close> is the order in which a meter evolves: the limit is fixed and \<open>used\<close> only grows.
\<close>

definition meter_le :: "gas_meter \<Rightarrow> gas_meter \<Rightarrow> bool" where
  "meter_le g g' \<longleftrightarrow> limit g' = limit g \<and> used g \<le> used g'"

lemma meter_le_refl [simp, intro]: "meter_le g g"
  by (simp add: meter_le_def)

lemma meter_le_trans [trans]: "meter_le a b \<Longrightarrow> meter_le b c \<Longrightarrow> meter_le a c"
  by (simp add: meter_le_def)

lemma preserves_charge [intro]: "preserves (meter_le g0) (charge c)"
  by (rule preservesI) (auto simp: charge_def meter_le_def Let_def split: if_splits)

lemma preserves_charge_read [intro]: "preserves (meter_le g0) (charge_read p k v)"
  by (auto simp: charge_read_def Let_def)

lemma preserves_charge_write [intro]: "preserves (meter_le g0) (charge_write p k v)"
  by (auto simp: charge_write_def)

lemma preserves_charge_remove [intro]: "preserves (meter_le g0) (charge_remove p k)"
  by (auto simp: charge_remove_def)

lemma preserves_charge_range [intro]: "preserves (meter_le g0) (charge_range p)"
  by (auto simp: charge_range_def)

text \<open>With the cache prices a charge costs nothing and fails only on a meter that is already spent.\<close>

lemma charge_zero [simp]:
  "used g \<le> u64_max \<Longrightarrow> charge 0 g = (if used g \<ge> limit g then Err OutOfGas else Ok (), g)"
  by (simp add: charge_def Let_def)

lemma cache_price [simp]: "price 0 0 n = Ok 0"
  by (simp add: price_def u64_mul_def u64_add_def u64_max_def)

lemma cache_charges:
  "charge_read DEFAULT_CACHE_PRICES k v = charge 0"
  "charge_write DEFAULT_CACHE_PRICES k w = charge 0"
  "charge_remove DEFAULT_CACHE_PRICES k = charge 0"
  "charge_range DEFAULT_CACHE_PRICES = charge 0"
  by (simp_all add: charge_read_def charge_write_def charge_remove_def charge_range_def
        DEFAULT_CACHE_PRICES_def)

text \<open>A sequence of charges, as a transaction makes them.\<close>

fun charge_all :: "nat list \<Rightarrow> (gas_meter, unit, gas_error) prog" where
  "charge_all [] = m_ret ()"
| "charge_all (c # cs) = m_bind (charge c) (\<lambda>_. charge_all cs)"

lemma charge_all_Ok:
  "charge_all cs g = (Ok u, g') \<Longrightarrow>
     g' = g\<lparr>used := used g + sum_list cs\<rparr> \<and> (cs \<noteq> [] \<longrightarrow> used g' < limit g)"
proof (induction cs arbitrary: g)
  case Nil
  then show ?case by simp
next
  case (Cons c cs)
  then obtain g1 where g1: "charge c g = (Ok (), g1)" and rest: "charge_all cs g1 = (Ok u, g')"
    by (auto simp: m_bind_Ok)
  from Cons.IH [OF rest] g1 show ?case by (cases cs) (auto simp: gas_simps)
qed

lemma charge_all_enough:
  "\<lbrakk>cs \<noteq> []; used g + sum_list cs < limit g; limit g \<le> u64_max\<rbrakk> \<Longrightarrow>
     charge_all cs g = (Ok (), g\<lparr>used := used g + sum_list cs\<rparr>)"
proof (induction cs arbitrary: g)
  case Nil
  then show ?case by simp
next
  case (Cons c cs)
  then have step: "charge c g = (Ok (), g\<lparr>used := used g + c\<rparr>)" by (simp add: gas_simps)
  show ?case
  proof (cases cs)
    case Nil
    with step show ?thesis by (simp add: m_bind_step m_ret_def)
  next
    case (Cons d ds)
    with Cons.IH [of "g\<lparr>used := used g + c\<rparr>"] Cons.prems step show ?thesis
      by (simp add: m_bind_step add.assoc)
  qed
qed

lemmas gas_exec = charge_def price_def charge_read_def charge_write_def charge_remove_def charge_range_def
  gas_meter_new_def gas_meter_infinite_def remaining_def u64_add_def u64_mul_def u64_max_def
  DEFAULT_PERSISTED_PRICES_def DEFAULT_COMMIT_PRICES_def DEFAULT_CACHE_PRICES_def

section \<open>Properties\<close>

text \<open>
  A sequence of charges on a fresh meter goes through exactly when its sum stays strictly
  below the limit, and then the meter reads that sum.
\<close>

lemma charges_succeed_iff:
  assumes "cs \<noteq> []" and "L \<le> u64_max" and "sum_list cs \<le> u64_max"
  shows "(fst (charge_all cs (gas_meter_new L)) = Ok () \<longleftrightarrow> sum_list cs < L) \<and>
    (sum_list cs < L \<longrightarrow> used (snd (charge_all cs (gas_meter_new L))) = sum_list cs)"
proof (intro conjI impI)
  let ?g = "gas_meter_new L"
  have enough: "charge_all cs ?g = (Ok (), ?g\<lparr>used := sum_list cs\<rparr>)" if "sum_list cs < L"
    using charge_all_enough [of cs ?g] that assms by (simp add: gas_meter_new_def)
  show "fst (charge_all cs ?g) = Ok () \<longleftrightarrow> sum_list cs < L"
  proof
    assume "fst (charge_all cs ?g) = Ok ()"
    then have "charge_all cs ?g = (Ok (), snd (charge_all cs ?g))" by (metis prod.collapse)
    from charge_all_Ok [OF this] assms(1) show "sum_list cs < L" by (auto simp: gas_meter_new_def)
  qed (simp add: enough)
  show "sum_list cs < L \<Longrightarrow> used (snd (charge_all cs ?g)) = sum_list cs"
    by (simp add: enough)
qed

end
