(* ===== verification/Storage.thy ===== *)
theory Storage
  imports Gas
begin

text \<open>
  The storage traits of \<open>packages/storage/src/traits.rs\<close> and the in-memory backend
  \<open>BTreeStorage\<close> of \<open>packages/storage/src/memory/store.rs\<close>.

  A trait object is a record of its methods. Methods taking \<open>&self\<close> receive the storage state
  and run on the gas meter alone; methods taking \<open>&mut self\<close> run on the storage state and the
  meter. An iterator is the list of things it will do, in order: \<open>Charge_read\<close> (a charge made
  while advancing), \<open>Yield\<close> (an item) and \<open>Panics\<close> (advancing panics). A consumer that stops early, or at the first error,
  runs a prefix of that list.

  The locales \<open>reader_laws\<close> and \<open>storage_laws\<close> state what every implementation promises; all
  clients are verified against them.
\<close>

section \<open>Iterators\<close>

datatype Order = Ascending | Descending

datatype io_event = Charge_read price_list bytes bytes | Yield bytes bytes | Panics

type_synonym kv = "bytes \<times> bytes"

fun yields :: "io_event list \<Rightarrow> kv list" where
  "yields [] = []"
| "yields (Charge_read p k v # es) = yields es"
| "yields (Yield k v # es) = (k, v) # yields es"
| "yields (Panics # es) = []"

text \<open>\<open>iter.collect::<GasResult<Vec<Record>>>()\<close>.\<close>

fun iter_collect :: "io_event list \<Rightarrow> (gas_meter, kv list, gas_error) prog" where
  "iter_collect [] = m_ret []"
| "iter_collect (Charge_read p k v # es) = m_bind (charge_read p k (Some v)) (\<lambda>_. iter_collect es)"
| "iter_collect (Yield k v # es) = m_bind (iter_collect es) (\<lambda>rs. m_ret ((k, v) # rs))"
| "iter_collect (Panics # es) = m_panic"

text \<open>\<open>iter.take(n).collect()\<close>: nothing runs after the \<open>n\<close>-th item.\<close>

fun iter_take :: "nat \<Rightarrow> io_event list \<Rightarrow> (gas_meter, kv list, gas_error) prog" where
  "iter_take 0 es = m_ret []"
| "iter_take (Suc n) [] = m_ret []"
| "iter_take (Suc n) (Charge_read p k v # es) =
     m_bind (charge_read p k (Some v)) (\<lambda>_. iter_take (Suc n) es)"
| "iter_take (Suc n) (Yield k v # es) = m_bind (iter_take n es) (\<lambda>rs. m_ret ((k, v) # rs))"
| "iter_take (Suc n) (Panics # es) = m_panic"

lemma iter_collect_yields: "iter_collect es g = (Ok rs, g') \<Longrightarrow> rs = yields es"
  by (induction es arbitrary: rs g rule: iter_collect.induct) (auto simp: m_bind_Ok)

lemma iter_take_yields: "iter_take n es g = (Ok rs, g') \<Longrightarrow> rs = take n (yields es)"
  by (induction n es arbitrary: rs g rule: iter_take.induct) (auto simp: m_bind_Ok)

lemma preserves_iter_collect [intro]: "preserves (meter_le g0) (iter_collect es)"
  by (induction es rule: iter_collect.induct) auto

lemma preserves_iter_take [intro]: "preserves (meter_le g0) (iter_take n es)"
  by (induction n es rule: iter_take.induct) auto

text \<open>The order in which a range visits keys.\<close>

definition key_lt :: "Order \<Rightarrow> 'k::linorder \<Rightarrow> 'k \<Rightarrow> bool" where
  "key_lt ord a b = (case ord of Ascending \<Rightarrow> a < b | Descending \<Rightarrow> b < a)"

lemma key_lt_simps [simp]:
  "key_lt Ascending a b \<longleftrightarrow> a < b" "key_lt Descending a b \<longleftrightarrow> b < a"
  by (simp_all add: key_lt_def)

lemma key_lt_funs: "key_lt Ascending = (<)" "key_lt Descending = (\<lambda>a b. b < a)"
  by (auto simp: fun_eq_iff)

lemma key_lt_irrefl [simp]: "\<not> key_lt ord a a"
  by (cases ord) auto

lemma key_lt_trans: "key_lt ord a b \<Longrightarrow> key_lt ord b c \<Longrightarrow> key_lt ord a c"
  by (cases ord) auto

lemma key_lt_linear: "key_lt ord a b \<or> a = b \<or> key_lt ord b a"
  by (cases ord) auto

lemma key_lt_not_sym: "key_lt ord a b \<Longrightarrow> \<not> key_lt ord b a"
  by (cases ord) auto

text \<open>
  \<open>is_range m a b ord ys\<close>: \<open>ys\<close> lists exactly the entries of \<open>m\<close> with \<open>a \<le> key < b\<close>, each once,
  in the requested order.
\<close>

definition is_range ::
  "('k::linorder \<Rightarrow> 'v option) \<Rightarrow> 'k option \<Rightarrow> 'k option \<Rightarrow> Order \<Rightarrow> ('k \<times> 'v) list \<Rightarrow> bool" where
  "is_range m a b ord ys \<longleftrightarrow>
     sorted_wrt (key_lt ord) (map fst ys) \<and>
     (\<forall>k. map_of ys k = (if in_bounds a b k then m k else None))"

lemma key_lt_distinct: "sorted_wrt (key_lt ord) ks \<Longrightarrow> distinct ks"
  by (induction ks) auto

lemma sorted_wrt_rev_key_lt:
  "sorted_wrt (key_lt Descending) (map fst ys) \<longleftrightarrow> bt_inv (rev ys)"
  by (simp add: bt_inv_def rev_map [symmetric] sorted_wrt_rev key_lt_funs)

lemma is_range_unique:
  assumes "is_range m a b ord ys" and "is_range m a b ord zs"
  shows "ys = zs"
proof (cases ord)
  case Ascending
  with assms show ?thesis
    by (intro bt_ext) (auto simp: is_range_def bt_inv_def key_lt_funs fun_eq_iff)
next
  case Descending
  have "distinct (map fst ys)" "distinct (map fst zs)"
    using assms by (auto simp: is_range_def dest: key_lt_distinct)
  then have "map_of (rev ys) = map_of ys" "map_of (rev zs) = map_of zs"
    by (simp_all add: map_of_rev_distinct)
  with assms Descending have "rev ys = rev zs"
    by (intro bt_ext) (auto simp: is_range_def sorted_wrt_rev_key_lt fun_eq_iff)
  then show ?thesis by simp
qed

lemma is_range_bt:
  assumes "bt_inv m"
  shows "is_range (map_of m) a b ord (case ord of Ascending \<Rightarrow> bt_range a b m | Descending \<Rightarrow> rev (bt_range a b m))"
proof (cases ord)
  case Ascending
  have "bt_inv (bt_range a b m)" using assms by simp
  with Ascending show ?thesis by (simp add: is_range_def bt_inv_def key_lt_funs)
next
  case Descending
  have inv: "bt_inv (bt_range a b m)" using assms by simp
  then have "map_of (rev (bt_range a b m)) = map_of (bt_range a b m)"
    by (simp add: bt_inv_distinct map_of_rev_distinct)
  with inv Descending show ?thesis by (simp add: is_range_def sorted_wrt_rev_key_lt)
qed

lemma is_range_empty: "\<not> (\<exists>k. in_bounds a b k \<and> m k \<noteq> None) \<Longrightarrow> is_range m a b ord []"
  by (auto simp: is_range_def)

lemma in_bounds_crossed: "b < a \<Longrightarrow> \<not> in_bounds (Some a) (Some b) k"
  by (auto simp: in_bounds_def)

text \<open>\<open>start > end\<close>, the guard in front of every \<open>BTreeMap::range\<close>.\<close>

definition crossed :: "bytes option \<Rightarrow> bytes option \<Rightarrow> bool" where
  "crossed start end = (case (start, end) of (Some s, Some e) \<Rightarrow> s > e | _ \<Rightarrow> False)"

lemma crossed_not_in_bounds: "crossed a b \<Longrightarrow> \<not> in_bounds a b k"
  by (auto simp: crossed_def in_bounds_crossed split: option.splits)

section \<open>The traits\<close>

record 's reader =
  rd_get :: "'s \<Rightarrow> bytes \<Rightarrow> (gas_meter, bytes option, gas_error) prog"
  rd_range :: "'s \<Rightarrow> bytes option \<Rightarrow> bytes option \<Rightarrow> Order \<Rightarrow> (gas_meter, io_event list, gas_error) prog"

record 's storage = "'s reader" +
  st_set :: "bytes \<Rightarrow> bytes \<Rightarrow> ('s \<times> gas_meter, unit, gas_error) prog"
  st_remove :: "bytes \<Rightarrow> ('s \<times> gas_meter, unit, gas_error) prog"

text \<open>Calling an \<open>&self\<close> method, or charging the meter, from code that holds \<open>&mut self\<close>.\<close>

definition m_read :: "('s \<Rightarrow> (gas_meter, 'a, 'e) prog) \<Rightarrow> ('s \<times> gas_meter, 'a, 'e) prog" where
  "m_read p sg = (case p (fst sg) (snd sg) of (r, g') \<Rightarrow> (r, (fst sg, g')))"

definition m_meter :: "(gas_meter, 'a, 'e) prog \<Rightarrow> ('s \<times> gas_meter, 'a, 'e) prog" where
  "m_meter p sg = (case p (snd sg) of (r, g') \<Rightarrow> (r, (fst sg, g')))"

lemma m_read_run [run_simps, simp]:
  "m_read p (s, g) = (r, (s', g')) \<longleftrightarrow> p s g = (r, g') \<and> s' = s"
  by (auto simp: m_read_def split: prod.splits)

lemma m_meter_run [run_simps, simp]:
  "m_meter p (s, g) = (r, (s', g')) \<longleftrightarrow> p g = (r, g') \<and> s' = s"
  by (auto simp: m_meter_def split: prod.splits)

locale reader_laws =
  fixes rd :: "('s, 'z) reader_scheme"
    and view :: "'s \<Rightarrow> bytes \<Rightarrow> bytes option"
    and inv :: "'s \<Rightarrow> bool"
  assumes get_view: "inv s \<Longrightarrow> rd_get rd s k g = (Ok v, g') \<Longrightarrow> v = view s k"
    and get_meter: "preserves (meter_le g0) (rd_get rd s k)"
    and range_view: "inv s \<Longrightarrow> rd_range rd s a b ord g = (Ok es, g') \<Longrightarrow>
          is_range (view s) a b ord (yields es) \<and> Panics \<notin> set es"
    and range_meter: "preserves (meter_le g0) (rd_range rd s a b ord)"

locale storage_laws = reader_laws rd view inv
  for rd :: "'s storage" and view and inv +
  assumes set_ok: "inv s \<Longrightarrow> st_set rd k v (s, g) = (Ok u, (s', g')) \<Longrightarrow> inv s' \<and> view s' = (view s)(k \<mapsto> v)"
    and set_fail: "st_set rd k v (s, g) = (r, (s', g')) \<Longrightarrow> \<forall>u. r \<noteq> Ok u \<Longrightarrow> s' = s"
    and set_meter: "preserves (\<lambda>(s, g). meter_le g0 g) (st_set rd k v)"
    and remove_ok: "inv s \<Longrightarrow> st_remove rd k (s, g) = (Ok u, (s', g')) \<Longrightarrow> inv s' \<and> view s' = (view s)(k := None)"
    and remove_fail: "st_remove rd k (s, g) = (r, (s', g')) \<Longrightarrow> \<forall>u. r \<noteq> Ok u \<Longrightarrow> s' = s"
    and remove_meter: "preserves (\<lambda>(s, g). meter_le g0 g) (st_remove rd k)"
begin

text \<open>Whatever the outcome, a write keeps the invariant.\<close>

lemma set_inv: "inv s \<Longrightarrow> st_set rd k v (s, g) = (r, (s', g')) \<Longrightarrow> inv s'"
  using set_ok set_fail by (cases r) blast+

lemma remove_inv: "inv s \<Longrightarrow> st_remove rd k (s, g) = (r, (s', g')) \<Longrightarrow> inv s'"
  using remove_ok remove_fail by (cases r) blast+

lemma get_after_set:
  "\<lbrakk>inv s; st_set rd k v (s, g) = (Ok u, (s', g')); rd_get rd s' k' h = (Ok w, h')\<rbrakk> \<Longrightarrow>
     w = (if k' = k then Some v else view s k')"
  using set_ok get_view by (metis fun_upd_apply)

lemma get_after_remove:
  "\<lbrakk>inv s; st_remove rd k (s, g) = (Ok u, (s', g')); rd_get rd s' k' h = (Ok w, h')\<rbrakk> \<Longrightarrow>
     w = (if k' = k then None else view s k')"
  using remove_ok get_view by (metis fun_upd_apply)

end

section \<open>The in-memory backend\<close>

record btree_storage =
  bts_hash :: bytes
  bts_data :: "(bytes, bytes) btree"
  bts_prices :: price_list

definition btree_storage_new :: btree_storage where
  "btree_storage_new =
     \<lparr>bts_hash = replicate 32 0, bts_data = [], bts_prices = DEFAULT_PERSISTED_PRICES\<rparr>"

definition btree_storage_get :: "btree_storage \<Rightarrow> bytes \<Rightarrow> (gas_meter, bytes option, gas_error) prog" where
  "btree_storage_get s key =
     (let value = bt_get (bts_data s) key
      in m_bind (charge_read (bts_prices s) key value) (\<lambda>_. m_ret value))"

definition btree_storage_range ::
  "btree_storage \<Rightarrow> bytes option \<Rightarrow> bytes option \<Rightarrow> Order \<Rightarrow> (gas_meter, io_event list, gas_error) prog" where
  "btree_storage_range s start end ord =
     (if crossed start end then m_ret []
      else m_bind (charge_range (bts_prices s)) (\<lambda>_.
        let entries = bt_range start end (bts_data s);
            visited = (case ord of Ascending \<Rightarrow> entries | Descending \<Rightarrow> rev entries)
        in m_ret (concat (map (\<lambda>(k, v). [Charge_read (bts_prices s) k v, Yield k v]) visited))))"

definition btree_storage_set :: "bytes \<Rightarrow> bytes \<Rightarrow> (btree_storage \<times> gas_meter, unit, gas_error) prog" where
  "btree_storage_set key value sg =
     m_bind (m_meter (charge_write (bts_prices (fst sg)) key value))
       (\<lambda>_ (s, g). (Ok (), (s\<lparr>bts_data := bt_insert key value (bts_data s)\<rparr>, g))) sg"

definition btree_storage_remove :: "bytes \<Rightarrow> (btree_storage \<times> gas_meter, unit, gas_error) prog" where
  "btree_storage_remove key sg =
     m_bind (m_meter (charge_remove (bts_prices (fst sg)) key))
       (\<lambda>_ (s, g). (Ok (), (s\<lparr>bts_data := bt_remove key (bts_data s)\<rparr>, g))) sg"

definition memory_reader :: "btree_storage reader" where
  "memory_reader = \<lparr>rd_get = btree_storage_get, rd_range = btree_storage_range\<rparr>"

definition btree_storage :: "btree_storage storage" where
  "btree_storage =
     \<lparr>rd_get = btree_storage_get, rd_range = btree_storage_range,
      st_set = btree_storage_set, st_remove = btree_storage_remove\<rparr>"

abbreviation bts_view :: "btree_storage \<Rightarrow> bytes \<Rightarrow> bytes option" where
  "bts_view s \<equiv> map_of (bts_data s)"

abbreviation bts_inv :: "btree_storage \<Rightarrow> bool" where
  "bts_inv s \<equiv> bt_inv (bts_data s)"

lemma yields_charged: "yields (concat (map (\<lambda>(k, v). [Charge_read p k v, Yield k v]) xs)) = xs"
  by (induction xs) auto

lemma btree_storage_range_view:
  assumes "bts_inv s" and "btree_storage_range s a b ord g = (Ok es, g')"
  shows "is_range (bts_view s) a b ord (yields es) \<and> Panics \<notin> set es"
proof (cases "crossed a b")
  case True
  with assms show ?thesis
    by (auto simp: btree_storage_range_def intro!: is_range_empty dest: crossed_not_in_bounds)
next
  case False
  with assms have "yields es = (case ord of Ascending \<Rightarrow> bt_range a b (bts_data s)
                                         | Descending \<Rightarrow> rev (bt_range a b (bts_data s)))"
    and "Panics \<notin> set es"
    by (auto simp: btree_storage_range_def m_bind_Ok Let_def yields_charged)
  with is_range_bt [OF assms(1)] show ?thesis by simp
qed

lemma preserves_m_meter:
  "preserves (meter_le g0) p \<Longrightarrow> preserves (\<lambda>(s, g). meter_le g0 g) (m_meter p)"
  by (auto simp: preserves_def m_meter_def split: prod.splits)

lemma preserves_m_read:
  "(\<And>s. preserves (meter_le g0) (p s)) \<Longrightarrow> preserves (\<lambda>(s, g). meter_le g0 g) (m_read p)"
  by (fastforce simp: preserves_def m_read_def split: prod.splits)

lemma btree_storage_set_run:
  "btree_storage_set k v (s, g) = (r, (s', g')) \<longleftrightarrow>
     charge_write (bts_prices s) k v g = (r, g') \<and>
     s' = (if r = Ok () then s\<lparr>bts_data := bt_insert k v (bts_data s)\<rparr> else s)"
  by (auto simp: btree_storage_set_def m_bind_def m_meter_def split: prod.splits outcome.splits)

lemma btree_storage_remove_run:
  "btree_storage_remove k (s, g) = (r, (s', g')) \<longleftrightarrow>
     charge_remove (bts_prices s) k g = (r, g') \<and>
     s' = (if r = Ok () then s\<lparr>bts_data := bt_remove k (bts_data s)\<rparr> else s)"
  by (auto simp: btree_storage_remove_def m_bind_def m_meter_def split: prod.splits outcome.splits)

interpretation memory_reader: reader_laws memory_reader bts_view bts_inv
proof (unfold_locales, goal_cases)
  case (1 s k g v g')
  then show ?case by (auto simp: memory_reader_def btree_storage_get_def m_bind_Ok Let_def)
next
  case (2 g0 s k)
  then show ?case by (auto simp: memory_reader_def btree_storage_get_def Let_def)
next
  case (3 s a b ord g es g')
  then show ?case by (simp add: memory_reader_def btree_storage_range_view)
next
  case (4 g0 s a b ord)
  then show ?case by (auto simp: memory_reader_def btree_storage_range_def Let_def)
qed

interpretation btree: storage_laws btree_storage bts_view bts_inv
proof (unfold_locales, goal_cases)
  case (1 s k g v g')
  then show ?case by (auto simp: btree_storage_def btree_storage_get_def m_bind_Ok Let_def)
next
  case (2 g0 s k)
  then show ?case by (auto simp: btree_storage_def btree_storage_get_def Let_def)
next
  case (3 s a b ord g es g')
  then show ?case by (simp add: btree_storage_def btree_storage_range_view)
next
  case (4 g0 s a b ord)
  then show ?case by (auto simp: btree_storage_def btree_storage_range_def Let_def)
next
  case (5 s k v g u s' g')
  then show ?case by (simp add: btree_storage_def btree_storage_set_run)
next
  case (6 k v s g r s' g')
  then show ?case by (auto simp: btree_storage_def btree_storage_set_run)
next
  case (7 g0 k v)
  then show ?case
    by (auto simp: btree_storage_def btree_storage_set_run preserves_def
             dest: preservesD [OF preserves_charge_write])
next
  case (8 s k g u s' g')
  then show ?case by (simp add: btree_storage_def btree_storage_remove_run)
next
  case (9 k s g r s' g')
  then show ?case by (auto simp: btree_storage_def btree_storage_remove_run)
next
  case (10 g0 k)
  then show ?case
    by (auto simp: btree_storage_def btree_storage_remove_run preserves_def
             dest: preservesD [OF preserves_charge_remove])
qed

text \<open>\<open>BTreeStorage::import\<close> copies another store record by record; \<open>set(...).unwrap()\<close> panics on an error.\<close>

fun btree_import_loop :: "io_event list \<Rightarrow> (btree_storage \<times> gas_meter, unit, gas_error) prog" where
  "btree_import_loop [] = m_ret ()"
| "btree_import_loop (Charge_read p k v # es) =
     m_bind (m_meter (charge_read p k (Some v))) (\<lambda>_. btree_import_loop es)"
| "btree_import_loop (Yield k v # es) =
     (\<lambda>sg. case btree_storage_set k v sg of
        (Ok _, sg') \<Rightarrow> btree_import_loop es sg'
      | (_, sg') \<Rightarrow> (Panic, sg'))"
| "btree_import_loop (Panics # es) = m_panic"

definition btree_import :: "('s, 'z) reader_scheme \<Rightarrow> 's \<Rightarrow> (gas_meter, btree_storage, gas_error) prog" where
  "btree_import source src =
     m_bind (rd_range source src None None Ascending) (\<lambda>keys g.
       case btree_import_loop keys (btree_storage_new, g) of
         (Ok _, (s, g')) \<Rightarrow> (Ok s, g')
       | (Err e, (s, g')) \<Rightarrow> (Err e, g')
       | (Panic, (s, g')) \<Rightarrow> (Panic, g'))"

lemma btree_import_loop_view:
  "btree_import_loop es (s, g) = (Ok u, (s', g')) \<Longrightarrow> bts_inv s \<Longrightarrow> distinct (map fst (yields es)) \<Longrightarrow>
     bts_inv s' \<and> bts_view s' = bts_view s ++ map_of (yields es)"
proof (induction es arbitrary: s g rule: btree_import_loop.induct)
  case 1
  then show ?case by simp
next
  case (2 p k v es)
  then show ?case by (auto simp: m_bind_Ok)
next
  case (3 k v es)
  from "3.prems"(1) obtain s1 g1 where
    step: "btree_storage_set k v (s, g) = (Ok (), (s1, g1))" and
    rest: "btree_import_loop es (s1, g1) = (Ok u, (s', g'))"
    by (auto split: prod.splits outcome.splits)
  from step "3.prems"(2) have s1: "bts_inv s1" "bts_view s1 = (bts_view s)(k \<mapsto> v)"
    by (auto simp: btree_storage_set_run)
  have "map_of (yields es) k = None"
    using "3.prems"(3) by (simp add: map_of_eq_None_iff)
  then have eq: "bts_view s1 ++ map_of (yields es) = bts_view s ++ map_of ((k, v) # yields es)"
    using s1(2) by (auto simp: fun_eq_iff map_add_def split: option.splits)
  have "bts_inv s' \<and> bts_view s' = bts_view s1 ++ map_of (yields es)"
    using "3.IH" [OF step [symmetric] refl, of s1 g1] rest s1(1) "3.prems"(3) by simp
  with eq show ?case by (simp only: yields.simps)
next
  case (4 es)
  then show ?case by simp
qed

end
