(* ===== verification/Merkle.thy ===== *)
theory Merkle
  imports Storage
begin

text \<open>
  The binary Merkle tree of the application state. The tree is built twice in the repository:
  by the node, \<open>packages/app/src/app.rs\<close> (\<open>leaf_hash\<close>, \<open>merkle_root\<close>, \<open>merkle_path\<close>), and by the
  verifier in the light client contract, \<open>contracts/light-client/src/merkle.rs\<close> (\<open>leaf_hash\<close>,
  \<open>compute_root\<close>). This theory holds both and shows that they fit together. The hash function is
  an argument throughout.
\<close>

type_synonym hash_fun = "bytes \<Rightarrow> bytes"

section \<open>The node side\<close>

definition leaf_hash :: "hash_fun \<Rightarrow> bytes \<Rightarrow> bytes \<Rightarrow> bytes" where
  "leaf_hash sha256 key value = sha256 ([0x00] @ key @ value)"

text \<open>One pass of the inner loop of \<open>merkle_root\<close> over a level.\<close>

fun next_level :: "hash_fun \<Rightarrow> bytes list \<Rightarrow> bytes list" where
  "next_level sha256 (l # r # rest) = sha256 ([0x01] @ l @ r) # next_level sha256 rest"
| "next_level sha256 [l] = [l]"
| "next_level sha256 [] = []"

lemma next_level_length [simp]: "length (next_level sha256 ls) = (length ls + 1) div 2"
  by (induction sha256 ls rule: next_level.induct) auto

text \<open>
  The outer loop runs while the level has more than one node and then returns \<open>level[0]\<close>; it
  is only entered on a level with a node.
\<close>

function merkle_loop :: "hash_fun \<Rightarrow> bytes list \<Rightarrow> bytes" where
  "merkle_loop sha256 level =
     (if length level > 1 then merkle_loop sha256 (next_level sha256 level) else level ! 0)"
  by pat_completeness auto
termination by (relation "measure (\<lambda>(h, l). length l)") auto

declare merkle_loop.simps [simp del]

definition merkle_root :: "hash_fun \<Rightarrow> bytes list \<Rightarrow> bytes" where
  "merkle_root sha256 leaves = (if leaves = [] then sha256 [] else merkle_loop sha256 leaves)"

function merkle_path :: "hash_fun \<Rightarrow> bytes list \<Rightarrow> nat \<Rightarrow> bytes option list" where
  "merkle_path sha256 level idx =
     (if length level > 1
      then (let sibling = (if idx mod 2 = 0 then idx + 1 else idx - 1)
            in (if sibling < length level then Some (level ! sibling) else None)
               # merkle_path sha256 (next_level sha256 level) (idx div 2))
      else [])"
  by pat_completeness auto
termination by (relation "measure (\<lambda>(h, l, i). length l)") auto

declare merkle_path.simps [simp del]

section \<open>The verifier side\<close>

definition lc_leaf_hash :: "hash_fun \<Rightarrow> bytes \<Rightarrow> bytes \<Rightarrow> bytes" where
  "lc_leaf_hash sha256 key value = sha256 ([0x00] @ key @ value)"

fun compute_root :: "hash_fun \<Rightarrow> bytes \<Rightarrow> nat \<Rightarrow> bytes option list \<Rightarrow> bytes" where
  "compute_root sha256 cur idx [] = cur"
| "compute_root sha256 cur idx (Some sib # siblings) =
     compute_root sha256
       (if idx mod 2 = 0 then sha256 ([0x01] @ cur @ sib) else sha256 ([0x01] @ sib @ cur)) (idx div 2) siblings"
| "compute_root sha256 cur idx (None # siblings) = compute_root sha256 cur (idx div 2) siblings"

section \<open>Completeness: every path of the node is accepted\<close>

lemma next_level_nth:
  "i < length ls \<Longrightarrow> next_level sha256 ls ! (i div 2) =
     (if i mod 2 = 0 then (if i + 1 < length ls then sha256 ([0x01] @ ls ! i @ ls ! (i + 1)) else ls ! i)
      else sha256 ([0x01] @ ls ! (i - 1) @ ls ! i))"
proof (induction sha256 ls arbitrary: i rule: next_level.induct)
  case (1 sha256 l r rest)
  consider "i = 0" | "i = 1" | j where "i = Suc (Suc j)" by (metis One_nat_def not0_implies_Suc)
  then show ?case
  proof cases
    case 3
    with 1 have "next_level sha256 rest ! (j div 2) =
      (if j mod 2 = 0 then (if j + 1 < length rest then sha256 ([0x01] @ rest ! j @ rest ! (j + 1)) else rest ! j)
       else sha256 ([0x01] @ rest ! (j - 1) @ rest ! j))" by simp
    moreover have "j mod 2 \<noteq> 0 \<Longrightarrow> (l # r # rest) ! Suc j = rest ! (j - 1)" by (cases j) auto
    ultimately show ?thesis using 3 by auto
  qed auto
qed auto

lemma compute_root_path:
  "i < length level \<Longrightarrow> compute_root sha256 (level ! i) i (merkle_path sha256 level i) = merkle_loop sha256 level"
proof (induction sha256 level arbitrary: i rule: merkle_loop.induct)
  case (1 sha256 level)
  show ?case
  proof (cases "length level > 1")
    case False
    with "1.prems" have "i = 0" by simp
    with False show ?thesis by (simp add: merkle_path.simps merkle_loop.simps)
  next
    case True
    let ?n = "next_level sha256 level"
    have "i div 2 < length ?n" using "1.prems" by simp
    from "1.IH" [OF True this] have IH:
      "compute_root sha256 (?n ! (i div 2)) (i div 2) (merkle_path sha256 ?n (i div 2)) = merkle_loop sha256 ?n" .
    have "compute_root sha256 (level ! i) i (merkle_path sha256 level i) =
          compute_root sha256 (?n ! (i div 2)) (i div 2) (merkle_path sha256 ?n (i div 2))"
      using True "1.prems" by (auto simp: merkle_path.simps [of _ level] Let_def next_level_nth mod2_eq_if)
    with IH True show ?thesis by (simp add: merkle_loop.simps [of _ level])
  qed
qed

text \<open>A path is as long as the tree is deep.\<close>

lemma merkle_path_depth: "length level \<le> 2 ^ n \<Longrightarrow> length (merkle_path sha256 level i) \<le> n"
proof (induction n arbitrary: level i)
  case 0
  then show ?case by (simp add: merkle_path.simps)
next
  case (Suc n)
  then have "length (next_level sha256 level) \<le> 2 ^ n" by simp
  with Suc.IH show ?case by (subst merkle_path.simps) (simp add: Let_def)
qed

section \<open>Soundness: an accepted path proves an entry\<close>

text \<open>
  Soundness needs that the hash function does not collide on the inputs that occur: those hashed
  to build the tree, and those hashed to check the path.
\<close>

fun level_inputs :: "bytes list \<Rightarrow> bytes list" where
  "level_inputs (l # r # rest) = ([0x01] @ l @ r) # level_inputs rest"
| "level_inputs [l] = []"
| "level_inputs [] = []"

function node_inputs :: "hash_fun \<Rightarrow> bytes list \<Rightarrow> bytes list" where
  "node_inputs sha256 level =
     (if length level > 1 then level_inputs level @ node_inputs sha256 (next_level sha256 level) else [])"
  by pat_completeness auto
termination by (relation "measure (\<lambda>(h, l). length l)") auto

declare node_inputs.simps [simp del]

definition leaf_inputs :: "kv list \<Rightarrow> bytes list" where
  "leaf_inputs entries = map (\<lambda>(k, v). [0x00] @ k @ v) entries"

definition leaves_of :: "hash_fun \<Rightarrow> kv list \<Rightarrow> bytes list" where
  "leaves_of sha256 entries = map (\<lambda>(k, v). leaf_hash sha256 k v) entries"

definition tree_inputs :: "hash_fun \<Rightarrow> kv list \<Rightarrow> bytes list" where
  "tree_inputs sha256 entries = [] # leaf_inputs entries @ node_inputs sha256 (leaves_of sha256 entries)"

fun path_inputs :: "hash_fun \<Rightarrow> bytes \<Rightarrow> nat \<Rightarrow> bytes option list \<Rightarrow> bytes list" where
  "path_inputs sha256 cur idx [] = []"
| "path_inputs sha256 cur idx (Some sib # siblings) =
     (let i = [0x01] @ (if idx mod 2 = 0 then cur @ sib else sib @ cur)
      in i # path_inputs sha256 (sha256 i) (idx div 2) siblings)"
| "path_inputs sha256 cur idx (None # siblings) = path_inputs sha256 cur (idx div 2) siblings"

text \<open>All the nodes of a tree.\<close>

function tree_nodes :: "hash_fun \<Rightarrow> bytes list \<Rightarrow> bytes set" where
  "tree_nodes sha256 level =
     set level \<union> (if length level > 1 then tree_nodes sha256 (next_level sha256 level) else {})"
  by pat_completeness auto
termination by (relation "measure (\<lambda>(h, l). length l)") auto

declare tree_nodes.simps [simp del]

lemma next_level_elem:
  "n \<in> set (next_level sha256 ls) \<Longrightarrow>
     n \<in> set ls \<or> (\<exists>l r. l \<in> set ls \<and> r \<in> set ls \<and> n = sha256 ([0x01] @ l @ r) \<and> [0x01] @ l @ r \<in> set (level_inputs ls))"
  by (induction sha256 ls rule: next_level.induct) auto

lemma tree_nodes_elem:
  "n \<in> tree_nodes sha256 level \<Longrightarrow>
     n \<in> set level \<or>
     (\<exists>l r. l \<in> tree_nodes sha256 level \<and> r \<in> tree_nodes sha256 level \<and> n = sha256 ([0x01] @ l @ r) \<and>
            [0x01] @ l @ r \<in> set (node_inputs sha256 level))"
proof (induction sha256 level rule: tree_nodes.induct)
  case (1 sha256 level)
  show ?case
  proof (cases "n \<in> set level")
    case False
    with "1.prems" have len: "length level > 1" and n: "n \<in> tree_nodes sha256 (next_level sha256 level)"
      by (auto simp: tree_nodes.simps [of _ level] split: if_splits)
    have sub: "tree_nodes sha256 (next_level sha256 level) \<subseteq> tree_nodes sha256 level"
      "set level \<subseteq> tree_nodes sha256 level"
      "set (node_inputs sha256 (next_level sha256 level)) \<union> set (level_inputs level) \<subseteq> set (node_inputs sha256 level)"
      using len by (auto simp: tree_nodes.simps [of _ level] node_inputs.simps [of _ level])
    from "1.IH" [OF len n] show ?thesis
    proof
      assume "n \<in> set (next_level sha256 level)"
      with next_level_elem [OF this] False sub show ?thesis by blast
    qed (use sub in blast)
  qed simp
qed

lemma merkle_loop_in_nodes: "level \<noteq> [] \<Longrightarrow> merkle_loop sha256 level \<in> tree_nodes sha256 level"
proof (induction sha256 level rule: merkle_loop.induct)
  case (1 sha256 level)
  then show ?case
    by (subst merkle_loop.simps, subst tree_nodes.simps) (auto simp flip: length_greater_0_conv)
qed

lemma tree_nodes_length:
  "\<lbrakk>n \<in> tree_nodes sha256 level; \<And>x. length (sha256 x) = 32; \<forall>l\<in>set level. length l = 32\<rbrakk> \<Longrightarrow> length n = 32"
  using tree_nodes_elem [of n sha256 level] by auto

text \<open>Walking down the path stays inside the tree.\<close>

lemma compute_root_in_nodes:
  assumes "compute_root sha256 cur idx siblings \<in> tree_nodes sha256 level"
    and "\<And>x. length (sha256 x) = 32" and "length cur = 32" and "\<forall>s\<in>set siblings. \<forall>h. s = Some h \<longrightarrow> length h = 32"
    and leaves: "set level \<subseteq> sha256 ` L" "\<forall>x\<in>L. hd x = 0x00 \<and> x \<noteq> []"
    and "inj_on sha256 (L \<union> set (node_inputs sha256 level) \<union> set (path_inputs sha256 cur idx siblings))"
  shows "cur \<in> tree_nodes sha256 level"
  using assms(1,3,4,7)
proof (induction siblings arbitrary: cur idx)
  case (Cons s siblings)
  show ?case
  proof (cases s)
    case None
    with Cons show ?thesis by simp
  next
    case (Some sib)
    let ?a = "if idx mod 2 = 0 then cur else sib" and ?b = "if idx mod 2 = 0 then sib else cur"
    let ?i = "[0x01] @ ?a @ ?b"
    from Cons.prems Some have len: "length ?a = 32" "length ?b = 32" by auto
    have up: "sha256 ?i \<in> tree_nodes sha256 level"
      using Cons.IH [of "sha256 ?i" "idx div 2"] Cons.prems Some assms(2)
      by (auto simp: Let_def split: if_splits elim: inj_on_subset)
    have i: "?i \<in> L \<union> set (node_inputs sha256 level) \<union> set (path_inputs sha256 cur idx (s # siblings))"
      using Some by (auto simp: Let_def)
    have "sha256 ?i \<notin> set level"
    proof
      assume "sha256 ?i \<in> set level"
      with leaves(1) obtain x where "x \<in> L" "sha256 ?i = sha256 x" by blast
      with inj_onD [OF Cons.prems(4) _ i, of x] leaves(2) show False by fastforce
    qed
    with tree_nodes_elem [OF up] obtain l r where lr: "l \<in> tree_nodes sha256 level" "r \<in> tree_nodes sha256 level"
      "sha256 ?i = sha256 ([0x01] @ l @ r)" "[0x01] @ l @ r \<in> set (node_inputs sha256 level)" by blast
    from inj_onD [OF Cons.prems(4) lr(3) i] lr(4) have eq: "?a @ ?b = l @ r" by simp
    have "\<forall>h\<in>set level. length h = 32" using leaves(1) assms(2) by auto
    with tree_nodes_length [OF lr(1) assms(2)] len eq have "?a = l \<and> ?b = r" by simp
    with lr(1,2) show ?thesis by (auto split: if_splits)
  qed
qed simp

lemma leaves_of_inputs: "set (leaves_of sha256 entries) = sha256 ` set (leaf_inputs entries)"
  by (auto simp: leaves_of_def leaf_inputs_def leaf_hash_def)

lemma lc_leaf_hash [simp]: "lc_leaf_hash = leaf_hash"
  by (intro ext) (simp add: lc_leaf_hash_def leaf_hash_def)

lemma compute_root_last:
  "compute_root sha256 cur idx siblings = cur \<or>
   (\<exists>i\<in>set (path_inputs sha256 cur idx siblings). compute_root sha256 cur idx siblings = sha256 i \<and> i \<noteq> [])"
  by (induction sha256 cur idx siblings rule: compute_root.induct) (auto simp: Let_def)

lemma node_inputs_tag: "n \<in> set (node_inputs sha256 ls) \<Longrightarrow> \<exists>y. n = [0x01] @ y"
proof (induction sha256 ls rule: node_inputs.induct)
  case (1 sha256 level)
  have "n \<in> set (level_inputs ls) \<Longrightarrow> \<exists>y. n = [0x01] @ y" for ls
    by (induction ls rule: level_inputs.induct) auto
  with 1 show ?case by (auto simp: node_inputs.simps [of _ level] split: if_splits)
qed

lemma compute_root_sound:
  assumes root: "compute_root sha256 (leaf_hash sha256 k v) idx siblings = merkle_root sha256 (leaves_of sha256 entries)"
    and sha: "\<And>x. length (sha256 x) = 32" and sib: "\<forall>s\<in>set siblings. \<forall>h. s = Some h \<longrightarrow> length h = 32"
    and inj: "inj_on sha256 (insert ([0x00] @ k @ v) (set (tree_inputs sha256 entries) \<union>
                set (path_inputs sha256 (leaf_hash sha256 k v) idx siblings)))" (is "inj_on _ ?I")
  shows "\<exists>(k', v')\<in>set entries. k' @ v' = k @ v"
proof -
  let ?ls = "leaves_of sha256 entries" and ?leaf = "[0x00] @ k @ v"
  have leaf: "?leaf \<in> ?I" "leaf_hash sha256 k v = sha256 ?leaf" by (simp_all add: leaf_hash_def)
  have "entries \<noteq> []"
  proof
    assume "entries = []"
    with root have "compute_root sha256 (leaf_hash sha256 k v) idx siblings = sha256 []"
      by (simp add: merkle_root_def leaves_of_def)
    with compute_root_last [of sha256 "leaf_hash sha256 k v" idx siblings] leaf
    have "\<exists>i\<in>?I. i \<noteq> [] \<and> sha256 i = sha256 []" by (metis UnI2 insertCI list.distinct(1) append_Cons)
    then obtain i where "i \<in> ?I" "i \<noteq> []" "sha256 i = sha256 []" by blast
    with inj_onD [OF inj, of i "[]"] show False by (simp add: tree_inputs_def)
  qed
  then have ne: "?ls \<noteq> []" by (simp add: leaves_of_def)
  have "compute_root sha256 (leaf_hash sha256 k v) idx siblings \<in> tree_nodes sha256 ?ls"
    using root merkle_loop_in_nodes [OF ne] ne by (simp add: merkle_root_def)
  then have "leaf_hash sha256 k v \<in> tree_nodes sha256 ?ls"
  proof (rule compute_root_in_nodes [where L = "set (leaf_inputs entries)"])
    show "set ?ls \<subseteq> sha256 ` set (leaf_inputs entries)" by (simp add: leaves_of_inputs)
    show "\<forall>x\<in>set (leaf_inputs entries). hd x = 0x00 \<and> x \<noteq> []" by (auto simp: leaf_inputs_def)
    show "inj_on sha256 (set (leaf_inputs entries) \<union> set (node_inputs sha256 ?ls) \<union>
            set (path_inputs sha256 (leaf_hash sha256 k v) idx siblings))"
      by (rule inj_on_subset [OF inj]) (auto simp: tree_inputs_def)
  qed (use sha sib in \<open>simp_all add: leaf_hash_def\<close>)
  with tree_nodes_elem [OF this] obtain x where
    x: "x \<in> set (leaf_inputs entries) \<or> x \<in> set (node_inputs sha256 ?ls)" "sha256 x = sha256 ?leaf"
    unfolding leaves_of_inputs leaf(2) by (metis (no_types, lifting) imageE)
  then have "x = ?leaf" using inj_onD [OF inj x(2) _ leaf(1)] by (auto simp: tree_inputs_def)
  with x(1) node_inputs_tag [of x sha256 ?ls] have "?leaf \<in> set (leaf_inputs entries)" by auto
  then show ?thesis by (force simp: leaf_inputs_def)
qed

section \<open>Properties\<close>


end
