(* ===== verification/Overlay.thy ===== *)
theory Overlay
  imports Storage
begin

text \<open>
  Transactional overlays: \<open>packages/storage/src/wrap/\<close>. \<open>ReaderWrapper\<close> keeps local changes in
  a \<open>BTreeMap\<close> of deltas on top of a read-only store, \<open>MergeOverlay\<close> iterates over both at
  once, and \<open>SubTx\<close>, \<open>ScratchTx\<close> and \<open>WeakSubTx\<close> expose the combination as a storage.

  Shown here: an overlay on a lawful store is a lawful store whose view is the overlay applied
  to the view below; committing an overlay makes the view below equal to the overlaid view; an
  aborted transaction leaves the store below untouched.
\<close>

section \<open>Deltas and operations\<close>

datatype delta = Delta_Set bytes | Delta_Delete

datatype op = Op_Set bytes bytes | Op_Delete bytes

type_synonym overlay = "(bytes, delta) btree"

fun op_from_delta :: "bytes \<times> delta \<Rightarrow> op" where
  "op_from_delta (key, Delta_Set value) = Op_Set key value"
| "op_from_delta (key, Delta_Delete) = Op_Delete key"

fun op_apply :: "('s, 'z) storage_scheme \<Rightarrow> op \<Rightarrow> ('s \<times> gas_meter, unit, gas_error) prog" where
  "op_apply st (Op_Set key value) = st_set st key value"
| "op_apply st (Op_Delete key) = st_remove st key"

definition reader_wrapper_prepare :: "overlay \<Rightarrow> op list" where
  "reader_wrapper_prepare local_state = map op_from_delta local_state"

definition reader_wrapper_get ::
  "('s, 'z) reader_scheme \<Rightarrow> 's \<Rightarrow> overlay \<Rightarrow> bytes \<Rightarrow> (gas_meter, bytes option, gas_error) prog" where
  "reader_wrapper_get st s local_state key =
     (case bt_get local_state key of
        Some (Delta_Set value) \<Rightarrow> m_ret (Some value)
      | Some Delta_Delete \<Rightarrow> m_ret None
      | None \<Rightarrow> rd_get st s key)"

text \<open>
  \<open>MergeOverlay::next\<close>. Both sides are peeked first, so the charges of the right side up to
  its next item come before anything else; \<open>pick_match\<close> then compares the keys, and
  \<open>take_left\<close> skips deleted keys.
\<close>

fun take_left :: "bytes \<times> delta \<Rightarrow> io_event list" where
  "take_left (lkey, Delta_Set value) = [Yield lkey value]"
| "take_left (lkey, Delta_Delete) = []"

fun merge_overlay :: "Order \<Rightarrow> (bytes \<times> delta) list \<Rightarrow> io_event list \<Rightarrow> io_event list" where
  "merge_overlay ord left (Charge_read p k v # right) = Charge_read p k v # merge_overlay ord left right"
| "merge_overlay ord (l # left) (Yield rkey rval # right) =
     (if key_lt ord (fst l) rkey then take_left l @ merge_overlay ord left (Yield rkey rval # right)
      else if fst l = rkey then take_left l @ merge_overlay ord left right
      else Yield rkey rval # merge_overlay ord (l # left) right)"
| "merge_overlay ord (l # left) [] = take_left l @ merge_overlay ord left []"
| "merge_overlay ord [] (Yield rkey rval # right) = Yield rkey rval # merge_overlay ord [] right"
| "merge_overlay ord [] [] = []"
| "merge_overlay ord left (Panics # right) = [Panics]"

definition reader_wrapper_range ::
  "('s, 'z) reader_scheme \<Rightarrow> 's \<Rightarrow> overlay \<Rightarrow> bytes option \<Rightarrow> bytes option \<Rightarrow> Order
     \<Rightarrow> (gas_meter, io_event list, gas_error) prog" where
  "reader_wrapper_range st s local_state start end ord =
     (let local_raw = bt_range start end local_state;
          local = (if crossed start end then []
                   else case ord of Ascending \<Rightarrow> local_raw | Descending \<Rightarrow> rev local_raw)
      in m_bind (rd_range st s start end ord) (\<lambda>base. m_ret (merge_overlay ord local base)))"

definition reader_wrapper_set ::
  "bytes \<Rightarrow> bytes \<Rightarrow> (('s \<times> overlay) \<times> gas_meter, unit, gas_error) prog" where
  "reader_wrapper_set key value =
     (\<lambda>((s, local_state), g). (Ok (), ((s, bt_insert key (Delta_Set value) local_state), g)))"

definition reader_wrapper_remove ::
  "bytes \<Rightarrow> (('s \<times> overlay) \<times> gas_meter, unit, gas_error) prog" where
  "reader_wrapper_remove key =
     (\<lambda>((s, local_state), g). (Ok (), ((s, bt_insert key Delta_Delete local_state), g)))"

section \<open>The transaction types\<close>

text \<open>
  The state of a transaction is the store it borrows together with its local changes; its price
  list is always \<open>DEFAULT_CACHE_PRICES\<close>. The three transaction types have the same four
  methods. They differ in what they hold (a \<open>&mut dyn Storage\<close> or a \<open>&dyn ReadonlyStorage\<close>)
  and in how they end.
\<close>

definition sub_tx_get ::
  "('s, 'z) reader_scheme \<Rightarrow> 's \<times> overlay \<Rightarrow> bytes \<Rightarrow> (gas_meter, bytes option, gas_error) prog" where
  "sub_tx_get st so key =
     m_bind (reader_wrapper_get st (fst so) (snd so) key) (\<lambda>value.
     m_bind (charge_read DEFAULT_CACHE_PRICES key value) (\<lambda>_.
     m_ret value))"

definition sub_tx_range ::
  "('s, 'z) reader_scheme \<Rightarrow> 's \<times> overlay \<Rightarrow> bytes option \<Rightarrow> bytes option \<Rightarrow> Order
     \<Rightarrow> (gas_meter, io_event list, gas_error) prog" where
  "sub_tx_range st so start end ord =
     m_bind (charge_range DEFAULT_CACHE_PRICES) (\<lambda>_.
     reader_wrapper_range st (fst so) (snd so) start end ord)"

definition sub_tx_set :: "bytes \<Rightarrow> bytes \<Rightarrow> (('s \<times> overlay) \<times> gas_meter, unit, gas_error) prog" where
  "sub_tx_set key value =
     m_bind (m_meter (charge_range DEFAULT_CACHE_PRICES)) (\<lambda>_. reader_wrapper_set key value)"

definition sub_tx_remove :: "bytes \<Rightarrow> (('s \<times> overlay) \<times> gas_meter, unit, gas_error) prog" where
  "sub_tx_remove key =
     m_bind (m_meter (charge_remove DEFAULT_CACHE_PRICES key)) (\<lambda>_. reader_wrapper_remove key)"

definition sub_tx :: "('s, 'z) storage_scheme \<Rightarrow> ('s \<times> overlay) storage" where
  "sub_tx st =
     \<lparr>rd_get = sub_tx_get st, rd_range = sub_tx_range st,
      st_set = sub_tx_set, st_remove = sub_tx_remove\<rparr>"

definition scratch_tx :: "('s, 'z) reader_scheme \<Rightarrow> ('s \<times> overlay) storage" where
  "scratch_tx st =
     \<lparr>rd_get = sub_tx_get st, rd_range = sub_tx_range st,
      st_set = sub_tx_set, st_remove = sub_tx_remove\<rparr>"

definition weak_sub_tx :: "('s, 'z) reader_scheme \<Rightarrow> ('s \<times> overlay) storage" where
  "weak_sub_tx st =
     \<lparr>rd_get = sub_tx_get st, rd_range = sub_tx_range st,
      st_set = sub_tx_set, st_remove = sub_tx_remove\<rparr>"

text \<open>\<open>SubTx::commit\<close> writes the deltas in key order, stopping at the first failure.\<close>

fun write_delta :: "('s, 'z) storage_scheme \<Rightarrow> bytes \<times> delta \<Rightarrow> ('s \<times> gas_meter, unit, gas_error) prog" where
  "write_delta st (key, Delta_Set value) = st_set st key value"
| "write_delta st (key, Delta_Delete) = st_remove st key"

definition sub_tx_commit :: "('s, 'z) storage_scheme \<Rightarrow> overlay \<Rightarrow> ('s \<times> gas_meter, unit, gas_error) prog" where
  "sub_tx_commit st local_state = m_each (write_delta st) local_state"

text \<open>\<open>ScratchTx::commit\<close> is \<open>unimplemented!()\<close>.\<close>

definition scratch_tx_commit :: "overlay \<Rightarrow> ('s \<times> gas_meter, unit, gas_error) prog" where
  "scratch_tx_commit local_state = m_panic"

definition weak_sub_tx_prepare :: "overlay \<Rightarrow> op list" where
  "weak_sub_tx_prepare local_state = reader_wrapper_prepare local_state"

definition rep_log_commit :: "('s, 'z) storage_scheme \<Rightarrow> op list \<Rightarrow> ('s \<times> gas_meter, unit, gas_error) prog" where
  "rep_log_commit st ops = m_each (op_apply st) ops"

text \<open>
  \<open>atomic\<close> runs \<open>f\<close> in a fresh \<open>SubTx\<close> and commits it when \<open>f\<close> succeeds. \<open>conv\<close> is the
  \<open>From<GasError>\<close> conversion of \<open>f\<close>'s error type.
\<close>

definition atomic ::
  "('s, 'z) storage_scheme \<Rightarrow> (gas_error \<Rightarrow> 'e) \<Rightarrow> (('s \<times> overlay) \<times> gas_meter, 'a, 'e) prog
     \<Rightarrow> ('s \<times> gas_meter, 'a, 'e) prog" where
  "atomic st conv f sg =
     (case f ((fst sg, []), snd sg) of
        (Ok a, ((s, local_state), g)) \<Rightarrow>
          m_bind (m_map_err conv (sub_tx_commit st local_state)) (\<lambda>_. m_ret a) (s, g)
      | (Err e, ((s, _), g)) \<Rightarrow> (Err e, (s, g))
      | (Panic, ((s, _), g)) \<Rightarrow> (Panic, (s, g)))"

section \<open>What an overlay shows\<close>

definition apply_overlay :: "(bytes \<times> delta) list \<Rightarrow> (bytes \<Rightarrow> bytes option) \<Rightarrow> bytes \<Rightarrow> bytes option" where
  "apply_overlay ls m k =
     (case map_of ls k of Some (Delta_Set v) \<Rightarrow> Some v | Some Delta_Delete \<Rightarrow> None | None \<Rightarrow> m k)"

lemma apply_overlay_Nil [simp]: "apply_overlay [] m = m"
  by (simp add: apply_overlay_def fun_eq_iff)

lemma apply_overlay_Cons:
  "apply_overlay (l # ls) m k =
     (if k = fst l then (case snd l of Delta_Set v \<Rightarrow> Some v | Delta_Delete \<Rightarrow> None)
      else apply_overlay ls m k)"
  by (simp add: apply_overlay_def)

lemma apply_overlay_insert [simp]:
  "apply_overlay (bt_insert k (Delta_Set v) ls) m = (apply_overlay ls m)(k \<mapsto> v)"
  "apply_overlay (bt_insert k Delta_Delete ls) m = (apply_overlay ls m)(k := None)"
  by (auto simp: apply_overlay_def fun_eq_iff)

lemma yields_append [simp]: "Panics \<notin> set a \<Longrightarrow> yields (a @ b) = yields a @ yields b"
  by (induction a rule: yields.induct) auto

lemma take_left_no_panic [simp]: "Panics \<notin> set (take_left l)"
  by (cases l rule: take_left.cases) auto

lemma yields_take_left: "x \<in> set (yields (take_left l)) \<Longrightarrow> fst x = fst l"
  by (cases l rule: take_left.cases) auto

lemma map_of_take_left:
  "map_of (yields (take_left l)) k =
     (if k = fst l then (case snd l of Delta_Set v \<Rightarrow> Some v | Delta_Delete \<Rightarrow> None) else None)"
  by (cases l rule: take_left.cases) auto

lemma sorted_take_left [simp]: "sorted_wrt R (map fst (yields (take_left l)))"
  by (cases l rule: take_left.cases) auto

lemma merge_overlay_keys:
  "x \<in> set (yields (merge_overlay ord ls es)) \<Longrightarrow> fst x \<in> fst ` set ls \<union> fst ` set (yields es)"
  by (induction ord ls es rule: merge_overlay.induct) (auto dest!: yields_take_left split: if_splits)

lemma merge_overlay_no_panic: "Panics \<notin> set es \<Longrightarrow> Panics \<notin> set (merge_overlay ord ls es)"
  by (induction ord ls es rule: merge_overlay.induct) auto

lemma merge_overlay_below:
  assumes "\<forall>x\<in>set ls. key_lt ord k (fst x)" and "\<forall>x\<in>set (yields es). key_lt ord k (fst x)"
  shows "\<forall>x\<in>set (yields (merge_overlay ord ls es)). key_lt ord k (fst x)"
  using merge_overlay_keys [of _ ord ls es] assms by fastforce

lemma key_lt_below_Cons:
  "key_lt ord k k' \<Longrightarrow> \<forall>x\<in>set xs. key_lt ord k' (fst x) \<Longrightarrow> \<forall>x\<in>set xs. key_lt ord k (fst x)"
  by (meson key_lt_trans)

abbreviation ord_sorted :: "Order \<Rightarrow> (bytes \<times> 'v) list \<Rightarrow> bool" where
  "ord_sorted ord xs \<equiv> sorted_wrt (key_lt ord) (map fst xs)"

lemma ord_sorted_glue:
  assumes "ord_sorted ord ys" and "\<forall>x\<in>set ys. key_lt ord (fst l) (fst x)"
  shows "sorted_wrt (key_lt ord) (map fst (yields (take_left l)) @ map fst ys)"
  using assms by (cases l rule: take_left.cases) auto

lemma merge_overlay_sorted:
  "\<lbrakk>ord_sorted ord ls; ord_sorted ord (yields es)\<rbrakk> \<Longrightarrow> ord_sorted ord (yields (merge_overlay ord ls es))"
proof (induction ord ls es rule: merge_overlay.induct)
  case (2 ord l left rkey rval right)
  consider "key_lt ord (fst l) rkey" | "fst l = rkey" | "key_lt ord rkey (fst l)"
    using key_lt_linear by blast
  then show ?case
  proof cases
    case 1
    have "\<forall>x\<in>set (yields (merge_overlay ord left (Yield rkey rval # right))). key_lt ord (fst l) (fst x)"
      using "2.prems" 1 by (intro merge_overlay_below) (auto intro: key_lt_trans)
    with 1 2 show ?thesis by (auto intro!: ord_sorted_glue)
  next
    case eq: 2
    have "\<forall>x\<in>set (yields (merge_overlay ord left right)). key_lt ord (fst l) (fst x)"
      using "2.prems" eq by (intro merge_overlay_below) auto
    with eq 2 show ?thesis by (auto intro!: ord_sorted_glue)
  next
    case 3
    then have neq: "\<not> key_lt ord (fst l) rkey" "fst l \<noteq> rkey"
      by (auto dest: key_lt_not_sym)
    have "\<forall>x\<in>set (yields (merge_overlay ord (l # left) right)). key_lt ord rkey (fst x)"
      using "2.prems" 3 by (intro merge_overlay_below) (auto intro: key_lt_trans)
    with neq 2 show ?thesis by simp
  qed
next
  case (3 ord l left)
  have "\<forall>x\<in>set (yields (merge_overlay ord left [])). key_lt ord (fst l) (fst x)"
    using "3.prems" by (intro merge_overlay_below) auto
  with 3 show ?case by (auto intro!: ord_sorted_glue)
next
  case (4 ord rkey rval right)
  have "\<forall>x\<in>set (yields (merge_overlay ord [] right)). key_lt ord rkey (fst x)"
    using "4.prems" by (intro merge_overlay_below) auto
  with 4 show ?case by simp
qed auto

lemma map_of_below_None: "\<forall>x\<in>set xs. key_lt ord k (fst x) \<Longrightarrow> map_of xs k = None"
  by (induction xs) auto

lemma merge_step_lookup:
  assumes "\<forall>x\<in>set ls. key_lt ord (fst l) (fst x)" and "m' (fst l) = None"
    and "\<And>k. k \<noteq> fst l \<Longrightarrow> m k = m' k" and "\<And>k. map_of ys k = apply_overlay ls m' k"
  shows "(map_of ys ++ map_of (yields (take_left l))) k = apply_overlay (l # ls) m k"
proof (cases "k = fst l")
  case True
  have "map_of ls (fst l) = None" using assms(1) by (rule map_of_below_None)
  with assms(2,4) have "map_of ys (fst l) = None" by (simp add: apply_overlay_def)
  with True show ?thesis
    by (auto simp: map_add_def map_of_take_left apply_overlay_Cons split: delta.splits)
next
  case False
  with assms(3,4) show ?thesis
    by (auto simp: map_add_def map_of_take_left apply_overlay_def split: option.splits delta.splits)
qed

lemma merge_overlay_lookup:
  "\<lbrakk>ord_sorted ord ls; ord_sorted ord (yields es); Panics \<notin> set es\<rbrakk> \<Longrightarrow>
     map_of (yields (merge_overlay ord ls es)) k = apply_overlay ls (map_of (yields es)) k"
proof (induction ord ls es arbitrary: k rule: merge_overlay.induct)
  case (2 ord l left rkey rval right)
  consider "key_lt ord (fst l) rkey" | "fst l = rkey" | "key_lt ord rkey (fst l)"
    using key_lt_linear by blast
  then show ?case
  proof cases
    case 1
    have "map_of (yields right) (fst l) = None" "fst l \<noteq> rkey"
      using "2.prems" 1 by (auto intro!: map_of_below_None [of _ ord] intro: key_lt_trans)
    with 1 2 show ?thesis
      by (simp add: fun_upd_def)
        (rule merge_step_lookup [where m' = "\<lambda>a. if a = rkey then Some rval else map_of (yields right) a"], auto)
  next
    case eq: 2
    have "map_of (yields right) rkey = None"
      using "2.prems" by (intro map_of_below_None [of _ ord]) auto
    with eq 2 show ?thesis
      by (simp add: fun_upd_def) (rule merge_step_lookup [where m' = "map_of (yields right)"], auto)
  next
    case 3
    then have neq: "\<not> key_lt ord (fst l) rkey" "fst l \<noteq> rkey"
      by (auto dest: key_lt_not_sym)
    have "map_of left rkey = None"
      using "2.prems" 3 by (intro map_of_below_None [of _ ord]) (auto intro: key_lt_trans)
    with neq 2 show ?thesis
      by (auto simp: apply_overlay_def split: option.splits)
  qed
next
  case (3 ord l left)
  then show ?case by (auto intro!: merge_step_lookup [where m' = Map.empty])
qed (auto simp: apply_overlay_def)

section \<open>Overlays are storages\<close>

definition overlay_view :: "('s \<Rightarrow> bytes \<Rightarrow> bytes option) \<Rightarrow> 's \<times> overlay \<Rightarrow> bytes \<Rightarrow> bytes option" where
  "overlay_view view so = apply_overlay (snd so) (view (fst so))"

definition overlay_inv :: "('s \<Rightarrow> bool) \<Rightarrow> 's \<times> overlay \<Rightarrow> bool" where
  "overlay_inv P so \<longleftrightarrow> P (fst so) \<and> bt_inv (snd so)"

lemma overlay_simps [simp]:
  "overlay_view view (s, ls) = apply_overlay ls (view s)"
  "overlay_inv P (s, ls) \<longleftrightarrow> P s \<and> bt_inv ls"
  by (simp_all add: overlay_view_def overlay_inv_def)

lemma sub_tx_scratch: "sub_tx st = scratch_tx st"
  by (simp add: sub_tx_def scratch_tx_def)

lemma weak_sub_tx_scratch: "weak_sub_tx st = scratch_tx st"
  by (simp add: weak_sub_tx_def scratch_tx_def)

lemma sub_tx_set_run:
  "sub_tx_set k v ((s, ls), g) = (r, (so, g')) \<longleftrightarrow>
     charge 0 g = (r, g') \<and> so = (s, if r = Ok () then bt_insert k (Delta_Set v) ls else ls)"
  by (auto simp: sub_tx_set_def m_bind_def m_meter_def cache_charges reader_wrapper_set_def
           split: prod.splits outcome.splits)

lemma sub_tx_remove_run:
  "sub_tx_remove k ((s, ls), g) = (r, (so, g')) \<longleftrightarrow>
     charge 0 g = (r, g') \<and> so = (s, if r = Ok () then bt_insert k Delta_Delete ls else ls)"
  by (auto simp: sub_tx_remove_def m_bind_def m_meter_def cache_charges reader_wrapper_remove_def
           split: prod.splits outcome.splits)

text \<open>Restricting an overlay to a range and merging it is the same as ranging over the overlaid map.\<close>

lemma is_range_merge:
  assumes m: "is_range m a b ord (yields es)" and np: "Panics \<notin> set es" and o: "is_range (map_of ls) a b ord lr"
  shows "is_range (apply_overlay ls m) a b ord (yields (merge_overlay ord lr es))"
proof -
  have sorted: "ord_sorted ord lr" "ord_sorted ord (yields es)"
    using m o by (auto simp: is_range_def)
  show ?thesis
    using merge_overlay_sorted [OF sorted] merge_overlay_lookup [OF sorted np] m o
    by (auto simp: is_range_def apply_overlay_def split: option.splits)
qed

context reader_laws
begin

lemma reader_wrapper_get_view:
  "\<lbrakk>inv s; reader_wrapper_get rd s ls k g = (Ok v, g')\<rbrakk> \<Longrightarrow> v = apply_overlay ls (view s) k"
  by (auto simp: reader_wrapper_get_def apply_overlay_def get_view split: option.splits delta.splits)

lemma reader_wrapper_get_meter: "preserves (meter_le g0) (reader_wrapper_get rd s ls k)"
  by (auto simp: reader_wrapper_get_def get_meter split: option.splits delta.splits)

lemma reader_wrapper_range_view:
  assumes "inv s" and "bt_inv ls" and run: "reader_wrapper_range rd s ls a b ord g = (Ok es, g')"
  shows "is_range (apply_overlay ls (view s)) a b ord (yields es) \<and> Panics \<notin> set es"
proof -
  let ?lr = "if crossed a b then []
             else case ord of Ascending \<Rightarrow> bt_range a b ls | Descending \<Rightarrow> rev (bt_range a b ls)"
  from run obtain base where base: "rd_range rd s a b ord g = (Ok base, g')"
    and es: "es = merge_overlay ord ?lr base"
    by (auto simp: reader_wrapper_range_def m_bind_Ok Let_def)
  have "is_range (map_of ls) a b ord ?lr"
    using is_range_bt [OF assms(2), of a b ord]
    by (auto intro!: is_range_empty dest: crossed_not_in_bounds)
  with range_view [OF assms(1) base] show ?thesis
    unfolding es by (auto intro: is_range_merge dest: merge_overlay_no_panic)
qed

lemma reader_wrapper_range_meter: "preserves (meter_le g0) (reader_wrapper_range rd s ls a b ord)"
  by (auto simp: reader_wrapper_range_def Let_def range_meter)

theorem scratch_tx_laws: "storage_laws (scratch_tx rd) (overlay_view view) (overlay_inv inv)"
proof (unfold_locales, goal_cases)
  case (1 so k g v g')
  then show ?case
    by (cases so) (auto simp: scratch_tx_def sub_tx_get_def m_bind_Ok dest: reader_wrapper_get_view)
next
  case (2 g0 so k)
  then show ?case
    by (auto simp: scratch_tx_def sub_tx_get_def intro!: preserves_bind reader_wrapper_get_meter)
next
  case (3 so a b ord g es g')
  then show ?case
    by (cases so) (auto simp: scratch_tx_def sub_tx_range_def m_bind_Ok dest: reader_wrapper_range_view)
next
  case (4 g0 so a b ord)
  then show ?case
    by (auto simp: scratch_tx_def sub_tx_range_def intro!: preserves_bind reader_wrapper_range_meter)
next
  case (5 so k v g u so' g')
  then show ?case by (cases so) (auto simp: scratch_tx_def sub_tx_set_run)
next
  case (6 k v so g r so' g')
  then show ?case by (cases so) (auto simp: scratch_tx_def sub_tx_set_run)
next
  case (7 g0 k v)
  then show ?case
    by (auto simp: scratch_tx_def sub_tx_set_run preserves_def dest: preservesD [OF preserves_charge])
next
  case (8 so k g u so' g')
  then show ?case by (cases so) (auto simp: scratch_tx_def sub_tx_remove_run)
next
  case (9 k so g r so' g')
  then show ?case by (cases so) (auto simp: scratch_tx_def sub_tx_remove_run)
next
  case (10 g0 k)
  then show ?case
    by (auto simp: scratch_tx_def sub_tx_remove_run preserves_def dest: preservesD [OF preserves_charge])
qed

end

section \<open>Commit and abort\<close>

lemma op_apply_from_delta: "op_apply st (op_from_delta d) = write_delta st d"
  by (cases d rule: op_from_delta.cases) auto

lemma m_each_map: "m_each f (map h xs) = m_each (\<lambda>x. f (h x)) xs"
  by (induction xs) auto

text \<open>The replay log of a \<open>WeakSubTx\<close> writes exactly what \<open>SubTx::commit\<close> writes.\<close>

lemma rep_log_commit_prepare: "rep_log_commit st (weak_sub_tx_prepare ls) = sub_tx_commit st ls"
  by (simp add: rep_log_commit_def weak_sub_tx_prepare_def reader_wrapper_prepare_def
        sub_tx_commit_def m_each_map op_apply_from_delta)

text \<open>
  Code running inside a \<open>SubTx\<close> sees only the transaction: the borrowed store is a private
  field. \<open>keeps_base\<close> states that for a program; the four methods have it and sequencing keeps it.
\<close>

definition keeps_base :: "(('s \<times> overlay) \<times> gas_meter, 'a, 'e) prog \<Rightarrow> bool" where
  "keeps_base f \<longleftrightarrow> (\<forall>s0. preserves (\<lambda>((s, ls), g). s = s0 \<and> bt_inv ls) f)"

lemma keeps_baseD:
  "keeps_base f \<Longrightarrow> f ((s, ls), g) = (r, ((s', ls'), g')) \<Longrightarrow> bt_inv ls \<Longrightarrow> s' = s \<and> bt_inv ls'"
  unfolding keeps_base_def
  using preservesD [of "\<lambda>((s', ls), g). s' = s \<and> bt_inv ls" f "((s, ls), g)" r "((s', ls'), g')"] by auto

lemma keeps_base_ops [intro]:
  "keeps_base (sub_tx_set k v)" "keeps_base (sub_tx_remove k)" "keeps_base (m_read p)"
  "keeps_base (m_meter q)" "keeps_base (m_ret a)" "keeps_base (m_err e)"
  by (auto simp: keeps_base_def preserves_def sub_tx_set_run sub_tx_remove_run)

lemma keeps_base_bind [intro]: "keeps_base p \<Longrightarrow> (\<And>a. keeps_base (f a)) \<Longrightarrow> keeps_base (m_bind p f)"
  by (auto simp: keeps_base_def intro!: preserves_bind)

context storage_laws
begin

lemma write_delta_ok:
  "\<lbrakk>inv s; write_delta rd d (s, g) = (Ok u, (s', g'))\<rbrakk> \<Longrightarrow> inv s' \<and> view s' = apply_overlay [d] (view s)"
  by (cases d rule: take_left.cases)
    (auto simp: fun_eq_iff apply_overlay_def dest: set_ok remove_ok)

lemma write_delta_fail:
  "\<lbrakk>write_delta rd d (s, g) = (r, (s', g')); \<forall>u. r \<noteq> Ok u\<rbrakk> \<Longrightarrow> s' = s"
  by (cases d rule: take_left.cases) (auto dest: set_fail remove_fail)

lemma apply_overlay_first:
  assumes "distinct (map fst (d # ls))"
  shows "apply_overlay ls (apply_overlay [d] m) = apply_overlay (d # ls) m"
proof
  fix k
  have "map_of ls (fst d) = None" using assms by (simp add: map_of_eq_None_iff)
  then show "apply_overlay ls (apply_overlay [d] m) k = apply_overlay (d # ls) m k"
    by (cases "k = fst d") (auto simp: apply_overlay_def split: option.splits delta.splits)
qed

text \<open>
  Whatever happens, a commit has written some prefix of the deltas; it has written all of them
  when it succeeds.
\<close>

lemma sub_tx_commit_prefix:
  "\<lbrakk>inv s; distinct (map fst ls); sub_tx_commit rd ls (s, g) = (r, (s', g'))\<rbrakk> \<Longrightarrow>
     \<exists>written rest. ls = written @ rest \<and> inv s' \<and> view s' = apply_overlay written (view s) \<and> (r = Ok () \<longrightarrow> rest = [])"
proof (induction ls arbitrary: s g)
  case Nil
  then show ?case by (simp add: sub_tx_commit_def)
next
  case (Cons d ls)
  obtain q s1 g1 where step: "write_delta rd d (s, g) = (q, (s1, g1))" by (metis prod.exhaust)
  show ?case
  proof (cases "q = Ok ()")
    case True
    with Cons.prems(3) step have run: "sub_tx_commit rd ls (s1, g1) = (r, (s', g'))"
      by (simp add: sub_tx_commit_def m_bind_def)
    from True step Cons.prems(1) have s1: "inv s1" "view s1 = apply_overlay [d] (view s)"
      using write_delta_ok by blast+
    from Cons.IH [OF s1(1) _ run] Cons.prems(2) obtain written rest where
      ih: "ls = written @ rest" "inv s'" "view s' = apply_overlay written (view s1)" "r = Ok () \<longrightarrow> rest = []"
      by auto
    with Cons.prems(2) s1(2) have "view s' = apply_overlay (d # written) (view s)"
      by (subst apply_overlay_first [symmetric]) auto
    with ih show ?thesis by (intro exI [of _ "d # written"] exI [of _ rest]) auto
  next
    case False
    with step have "s1 = s" by (auto dest: write_delta_fail)
    moreover from False Cons.prems(3) step have "s' = s1" "r \<noteq> Ok ()"
      by (auto simp: sub_tx_commit_def m_bind_def split: outcome.splits)
    ultimately show ?thesis using Cons.prems(1)
      by (intro exI [of _ "[]"] exI [of _ "d # ls"]) auto
  qed
qed

lemma sub_tx_commit_ok:
  "\<lbrakk>inv s; bt_inv ls; sub_tx_commit rd ls (s, g) = (Ok u, (s', g'))\<rbrakk> \<Longrightarrow>
     inv s' \<and> view s' = apply_overlay ls (view s)"
  using sub_tx_commit_prefix [of s ls g "Ok ()" s' g'] bt_inv_distinct by fastforce

lemma atomic_ok:
  assumes "inv s" and "keeps_base f" and run: "atomic rd conv f (s, g) = (Ok a, (s', g'))"
  shows "\<exists>ls g1. f ((s, []), g) = (Ok a, ((s, ls), g1)) \<and> inv s' \<and> view s' = overlay_view view (s, ls)"
proof -
  obtain q s1 ls g1 where f: "f ((s, []), g) = (q, ((s1, ls), g1))" by (metis prod.exhaust)
  with assms(2) have s1: "s1 = s" "bt_inv ls" by (auto dest: keeps_baseD)
  from run f have q: "q = Ok a" and com: "sub_tx_commit rd ls (s1, g1) = (Ok (), (s', g'))"
    by (auto simp: atomic_def m_bind_Ok m_map_err_Ok split: outcome.splits)
  from com s1 assms(1) have "inv s' \<and> view s' = apply_overlay ls (view s)"
    by (auto dest: sub_tx_commit_ok)
  with f q s1 show ?thesis by auto
qed

lemma atomic_aborted:
  assumes "keeps_base f" and "f ((s, []), g) = (q, (so, g1))" and "\<forall>a. q \<noteq> Ok a"
  shows "\<exists>r. atomic rd conv f (s, g) = (r, (s, g1)) \<and> (\<forall>a. r \<noteq> Ok a)"
  using assms keeps_baseD [of f s "[]" g q "fst so" "snd so" g1]
  by (cases q; cases so) (auto simp: atomic_def)

end

end
