(* ===== verification/Memory_Store.thy ===== *)
theory Memory_Store
  imports Overlay
begin

text \<open>
  The persistent store in memory: \<open>FastHasher\<close> (\<open>packages/storage/src/fast_hash.rs\<close>), the
  writer of \<open>packages/storage/src/memory/store.rs\<close> that commits a block and chains the app
  hash, and the metering wrapper \<open>AppMeter\<close> (\<open>packages/storage/src/app_meter.rs\<close>).

  \<open>sha256\<close> is external (crate \<open>sha2\<close>) and a parameter. Its incremental interface hashes the
  concatenation of what it was fed, so the running hasher is the list of bytes fed so far.
\<close>

section \<open>The chained app hash\<close>

record fast_hasher =
  old_hash :: bytes
  tally :: "bytes option"

definition ascii :: "string \<Rightarrow> bytes" where
  "ascii s = map of_char s"

definition underscore :: byte where
  "underscore = 0x5F"

definition fast_hasher_new :: "bytes \<Rightarrow> fast_hasher" where
  "fast_hasher_new h = \<lparr>old_hash = h, tally = None\<rparr>"

definition ensure_hasher :: "fast_hasher \<Rightarrow> bytes" where
  "ensure_hasher h = (case tally h of Some t \<Rightarrow> t | None \<Rightarrow> old_hash h)"

text \<open>\<open>key[0]\<close> panics on an empty key.\<close>

definition fast_hasher_set :: "fast_hasher \<Rightarrow> bytes \<Rightarrow> bytes \<Rightarrow> (fast_hasher, gas_error) outcome" where
  "fast_hasher_set h key value =
     (case key of
        [] \<Rightarrow> Panic
      | b # _ \<Rightarrow>
          if b \<noteq> underscore
          then Ok (h\<lparr>tally := Some (ensure_hasher h @ ascii ''set'' @ key @ value)\<rparr>)
          else Ok h)"

definition fast_hasher_remove :: "fast_hasher \<Rightarrow> bytes \<Rightarrow> (fast_hasher, gas_error) outcome" where
  "fast_hasher_remove h key =
     (case key of
        [] \<Rightarrow> Panic
      | b # _ \<Rightarrow>
          if b \<noteq> underscore
          then Ok (h\<lparr>tally := Some (ensure_hasher h @ ascii ''remove'' @ key)\<rparr>)
          else Ok h)"

definition fast_hasher_hash :: "(bytes \<Rightarrow> bytes) \<Rightarrow> fast_hasher \<Rightarrow> bytes" where
  "fast_hasher_hash sha256 h = (case tally h of Some t \<Rightarrow> sha256 t | None \<Rightarrow> old_hash h)"

section \<open>The writer\<close>

text \<open>
  \<open>MemoryStorageWriter\<close> is an overlay on the locked data; unlike \<open>SubTx\<close> it adds no charge of
  its own.
\<close>

definition memory_writer :: "(btree_storage \<times> overlay) storage" where
  "memory_writer =
     \<lparr>rd_get = (\<lambda>so key. reader_wrapper_get memory_reader (fst so) (snd so) key),
      rd_range = (\<lambda>so start end ord. reader_wrapper_range memory_reader (fst so) (snd so) start end ord),
      st_set = reader_wrapper_set,
      st_remove = reader_wrapper_remove\<rparr>"

fun memory_commit_loop :: "op list \<Rightarrow> fast_hasher \<Rightarrow> (btree_storage \<times> gas_meter, fast_hasher, gas_error) prog" where
  "memory_commit_loop [] hasher = m_ret hasher"
| "memory_commit_loop (Op_Set key value # ops) hasher =
     m_bind (m_lift (fast_hasher_set hasher key value)) (\<lambda>hasher'.
     m_bind (btree_storage_set key value) (\<lambda>_.
     memory_commit_loop ops hasher'))"
| "memory_commit_loop (Op_Delete key # ops) hasher =
     m_bind (m_lift (fast_hasher_remove hasher key)) (\<lambda>hasher'.
     m_bind (btree_storage_remove key) (\<lambda>_.
     memory_commit_loop ops hasher'))"

definition memory_writer_commit ::
  "(bytes \<Rightarrow> bytes) \<Rightarrow> overlay \<Rightarrow> (btree_storage \<times> gas_meter, unit, gas_error) prog" where
  "memory_writer_commit sha256 local_state sg =
     m_bind (memory_commit_loop (reader_wrapper_prepare local_state) (fast_hasher_new (bts_hash (fst sg))))
       (\<lambda>hasher (s, g). (Ok (), (s\<lparr>bts_hash := fast_hasher_hash sha256 hasher\<rparr>, g))) sg"

text \<open>\<open>current_state\<close> streams every record of the store in key order.\<close>

definition memory_current_state :: "btree_storage \<Rightarrow> kv list" where
  "memory_current_state s = bts_data s"

definition memory_latest_sequence :: "btree_storage \<Rightarrow> nat" where
  "memory_latest_sequence s = 2"

section \<open>The metering wrapper\<close>

definition app_meter_set :: "('s, 'z) storage_scheme \<Rightarrow> bytes \<Rightarrow> bytes \<Rightarrow> ('s \<times> gas_meter, unit, gas_error) prog" where
  "app_meter_set st key value =
     m_bind (m_meter (charge_write DEFAULT_COMMIT_PRICES key value)) (\<lambda>_. st_set st key value)"

definition app_meter_remove :: "('s, 'z) storage_scheme \<Rightarrow> bytes \<Rightarrow> ('s \<times> gas_meter, unit, gas_error) prog" where
  "app_meter_remove st key =
     m_bind (m_meter (charge_remove DEFAULT_COMMIT_PRICES key)) (\<lambda>_. st_remove st key)"

definition app_meter :: "('s, 'z) storage_scheme \<Rightarrow> 's storage" where
  "app_meter st =
     \<lparr>rd_get = rd_get st, rd_range = rd_range st,
      st_set = app_meter_set st, st_remove = app_meter_remove st\<rparr>"

lemma m_meter_bind_run:
  "m_bind (m_meter p) f (s, g) = (r, sg) \<longleftrightarrow>
     (\<exists>a g1. p g = (Ok a, g1) \<and> f a (s, g1) = (r, sg)) \<or>
     (\<exists>e. r = Err e \<and> (\<exists>g1. p g = (Err e, g1) \<and> sg = (s, g1))) \<or>
     (r = Panic \<and> (\<exists>g1. p g = (Panic, g1) \<and> sg = (s, g1)))"
  by (auto simp: m_bind_def m_meter_def split: prod.splits outcome.splits)

context storage_laws
begin

lemma app_meter_set_run:
  "app_meter_set rd k v (s, g) = (r, (s', g')) \<Longrightarrow>
     (\<exists>g1. st_set rd k v (s, g1) = (r, (s', g'))) \<or> (s' = s \<and> r \<noteq> Ok ())"
  by (auto simp: app_meter_set_def m_meter_bind_run)

lemma app_meter_remove_run:
  "app_meter_remove rd k (s, g) = (r, (s', g')) \<Longrightarrow>
     (\<exists>g1. st_remove rd k (s, g1) = (r, (s', g'))) \<or> (s' = s \<and> r \<noteq> Ok ())"
  by (auto simp: app_meter_remove_def m_meter_bind_run)

text \<open>Metering changes what an operation costs, never what it does.\<close>

theorem app_meter_laws: "storage_laws (app_meter rd) view inv"
proof (unfold_locales, goal_cases)
  case (1 s k g v g')
  then show ?case by (simp add: app_meter_def get_view)
next
  case (2 g0 s k)
  then show ?case by (simp add: app_meter_def get_meter)
next
  case (3 s a b ord g es g')
  then show ?case by (simp add: app_meter_def range_view)
next
  case (4 g0 s a b ord)
  then show ?case by (simp add: app_meter_def range_meter)
next
  case (5 s k v g u s' g')
  then show ?case using set_ok by (fastforce simp: app_meter_def dest: app_meter_set_run)
next
  case (6 k v s g r s' g')
  then show ?case by (fastforce simp: app_meter_def dest: app_meter_set_run set_fail)
next
  case (7 g0 k v)
  then show ?case
    by (auto simp: app_meter_def app_meter_set_def intro!: preserves_bind preserves_m_meter set_meter)
next
  case (8 s k g u s' g')
  then show ?case using remove_ok by (fastforce simp: app_meter_def dest: app_meter_remove_run)
next
  case (9 k s g r s' g')
  then show ?case by (fastforce simp: app_meter_def dest: app_meter_remove_run remove_fail)
next
  case (10 g0 k)
  then show ?case
    by (auto simp: app_meter_def app_meter_remove_def intro!: preserves_bind preserves_m_meter remove_meter)
qed

end

section \<open>The writer is a storage\<close>

lemma writer_set_run [simp]:
  "reader_wrapper_set k v ((s, ls), g) = (Ok (), ((s, bt_insert k (Delta_Set v) ls), g))"
  by (simp add: reader_wrapper_set_def)

lemma writer_remove_run [simp]:
  "reader_wrapper_remove k ((s, ls), g) = (Ok (), ((s, bt_insert k Delta_Delete ls), g))"
  by (simp add: reader_wrapper_remove_def)

interpretation writer: storage_laws memory_writer "overlay_view bts_view" "overlay_inv bts_inv"
proof (unfold_locales, goal_cases)
  case (1 so k g v g')
  then show ?case
    by (cases so) (auto simp: memory_writer_def dest: memory_reader.reader_wrapper_get_view)
next
  case (2 g0 so k)
  then show ?case by (simp add: memory_writer_def memory_reader.reader_wrapper_get_meter)
next
  case (3 so a b ord g es g')
  then show ?case
    by (cases so) (auto simp: memory_writer_def dest: memory_reader.reader_wrapper_range_view)
next
  case (4 g0 so a b ord)
  then show ?case by (simp add: memory_writer_def memory_reader.reader_wrapper_range_meter)
next
  case (5 so k v g u so' g')
  then show ?case by (cases so) (auto simp: memory_writer_def)
next
  case (6 k v so g r so' g')
  then show ?case by (cases so) (auto simp: memory_writer_def)
next
  case (7 g0 k v)
  then show ?case by (auto simp: memory_writer_def preserves_def)
next
  case (8 so k g u so' g')
  then show ?case by (cases so) (auto simp: memory_writer_def)
next
  case (9 k so g r so' g')
  then show ?case by (cases so) (auto simp: memory_writer_def)
next
  case (10 g0 k)
  then show ?case by (auto simp: memory_writer_def preserves_def)
qed

text \<open>
  The stack of a transaction: the block writer, a \<open>SubTx\<close> per transaction, metering on top.
\<close>

type_synonym tx_state = "(btree_storage \<times> overlay) \<times> overlay"

abbreviation tx_store :: "tx_state storage" where
  "tx_store \<equiv> app_meter (sub_tx memory_writer)"

abbreviation tx_view :: "tx_state \<Rightarrow> bytes \<Rightarrow> bytes option" where
  "tx_view \<equiv> overlay_view (overlay_view bts_view)"

abbreviation tx_inv :: "tx_state \<Rightarrow> bool" where
  "tx_inv \<equiv> overlay_inv (overlay_inv bts_inv)"

interpretation block_tx: storage_laws "sub_tx memory_writer" tx_view tx_inv
  unfolding sub_tx_scratch by (rule writer.scratch_tx_laws)

interpretation metered_tx: storage_laws tx_store tx_view tx_inv
  by (rule block_tx.app_meter_laws)

text \<open>Writing to the block writer always succeeds, so a \<open>SubTx\<close> on top of it always commits.\<close>

lemma commit_to_writer:
  "\<exists>ls'. sub_tx_commit memory_writer ls ((s, ls0), g) = (Ok (), ((s, ls'), g))"
proof (induction ls arbitrary: ls0)
  case Nil
  then show ?case by (simp add: sub_tx_commit_def)
next
  case (Cons d ls)
  have "\<exists>ls1. write_delta memory_writer d ((s, ls0), g) = (Ok (), ((s, ls1), g))"
    by (cases d rule: take_left.cases) (auto simp: memory_writer_def)
  with Cons.IH show ?case by (fastforce simp: sub_tx_commit_def m_bind_step)
qed

section \<open>Committing a block\<close>

lemma ops_of_overlay: "reader_wrapper_prepare (d # ls) = op_from_delta d # reader_wrapper_prepare ls"
  by (simp add: reader_wrapper_prepare_def)

lemma memory_commit_loop_commit:
  "memory_commit_loop (reader_wrapper_prepare ls) h (s, g) = (Ok h', (s', g')) \<Longrightarrow>
     sub_tx_commit btree_storage ls (s, g) = (Ok (), (s', g'))"
proof (induction ls arbitrary: h s g)
  case Nil
  then show ?case by (simp add: reader_wrapper_prepare_def sub_tx_commit_def)
next
  case (Cons d ls)
  then show ?case
    by (cases d rule: take_left.cases)
      (auto simp: ops_of_overlay m_bind_Ok sub_tx_commit_def btree_storage_def)
qed

text \<open>What the hasher is fed for a list of operations; sidecar keys are skipped.\<close>

definition is_sidecar :: "bytes \<Rightarrow> bool" where
  "is_sidecar key \<longleftrightarrow> key \<noteq> [] \<and> hd key = underscore"

fun op_feed :: "op \<Rightarrow> bytes" where
  "op_feed (Op_Set key value) = (if is_sidecar key then [] else ascii ''set'' @ key @ value)"
| "op_feed (Op_Delete key) = (if is_sidecar key then [] else ascii ''remove'' @ key)"

fun op_key :: "op \<Rightarrow> bytes" where
  "op_key (Op_Set key value) = key"
| "op_key (Op_Delete key) = key"

lemma is_sidecar_Cons [simp]: "is_sidecar (b # ks) \<longleftrightarrow> b = underscore"
  by (simp add: is_sidecar_def)

lemma op_feed_sidecar: "is_sidecar (op_key p) \<Longrightarrow> op_feed p = []"
  by (cases p) auto

lemma memory_commit_loop_hash:
  "memory_commit_loop ops h (s, g) = (Ok h', (s', g')) \<Longrightarrow>
     old_hash h' = old_hash h \<and> bts_hash s' = bts_hash s \<and>
     tally h' = (if \<exists>p\<in>set ops. \<not> is_sidecar (op_key p)
                 then Some (ensure_hasher h @ concat (map op_feed ops)) else tally h)"
proof (induction ops h arbitrary: s g rule: memory_commit_loop.induct)
  case (1 h)
  then show ?case by simp
next
  case (2 k v ops h)
  then obtain b ks where k: "k = b # ks"
    by (cases k) (auto simp: m_bind_Ok fast_hasher_set_def)
  with 2 show ?case
    by (auto simp: m_bind_Ok fast_hasher_set_def btree_storage_set_run ensure_hasher_def op_feed_sidecar
             split: if_splits)
next
  case (3 k ops h)
  then obtain b ks where k: "k = b # ks"
    by (cases k) (auto simp: m_bind_Ok fast_hasher_remove_def)
  with 3 show ?case
    by (auto simp: m_bind_Ok fast_hasher_remove_def btree_storage_remove_run ensure_hasher_def op_feed_sidecar
             split: if_splits)
qed

lemma memory_writer_commit_Ok:
  "memory_writer_commit sha256 ls (s, g) = (Ok u, (s', g')) \<Longrightarrow>
     \<exists>h s1. memory_commit_loop (reader_wrapper_prepare ls) (fast_hasher_new (bts_hash s)) (s, g) = (Ok h, (s1, g')) \<and>
            s' = s1\<lparr>bts_hash := fast_hasher_hash sha256 h\<rparr>"
  by (auto simp: memory_writer_commit_def m_bind_Ok)

lemma memory_writer_commit_view:
  assumes "bts_inv s" and "bt_inv ls" and "memory_writer_commit sha256 ls (s, g) = (Ok u, (s', g'))"
  shows "bts_inv s' \<and> bts_view s' = overlay_view bts_view (s, ls)"
  using memory_writer_commit_Ok [OF assms(3)] assms(1,2)
    btree.sub_tx_commit_ok [OF _ _ memory_commit_loop_commit] by fastforce

lemma op_key_from_delta [simp]: "op_key (op_from_delta d) = fst d"
  by (cases d rule: op_from_delta.cases) auto

lemma memory_writer_commit_hash:
  assumes "memory_writer_commit sha256 ls (s, g) = (Ok u, (s', g'))"
  shows "bts_hash s' =
     (if \<exists>d\<in>set ls. \<not> is_sidecar (fst d)
      then sha256 (bts_hash s @ concat (map op_feed (reader_wrapper_prepare ls))) else bts_hash s)"
proof -
  from memory_writer_commit_Ok [OF assms] obtain h s1 where
    run: "memory_commit_loop (reader_wrapper_prepare ls) (fast_hasher_new (bts_hash s)) (s, g) = (Ok h, (s1, g'))"
    and s': "s' = s1\<lparr>bts_hash := fast_hasher_hash sha256 h\<rparr>" by blast
  have "(\<exists>p\<in>set (reader_wrapper_prepare ls). \<not> is_sidecar (op_key p)) \<longleftrightarrow> (\<exists>d\<in>set ls. \<not> is_sidecar (fst d))"
    by (auto simp: reader_wrapper_prepare_def)
  with memory_commit_loop_hash [OF run] s' show ?thesis
    by (auto simp: fast_hasher_new_def ensure_hasher_def fast_hasher_hash_def)
qed

text \<open>
  With a meter that is not exhausted and no empty key, a block commit succeeds: the persisted
  price list charges nothing for writes.
\<close>

lemma charge_nothing:
  "used g < limit g \<Longrightarrow> limit g \<le> u64_max \<Longrightarrow>
     charge_write DEFAULT_PERSISTED_PRICES k v g = (Ok (), g) \<and> charge_remove DEFAULT_PERSISTED_PRICES k g = (Ok (), g)"
  by (simp add: charge_write_def charge_remove_def DEFAULT_PERSISTED_PRICES_def gas_simps)

lemma fast_hasher_total:
  "k \<noteq> [] \<Longrightarrow> \<exists>h'. fast_hasher_set h k v = Ok h'" "k \<noteq> [] \<Longrightarrow> \<exists>h'. fast_hasher_remove h k = Ok h'"
  by (auto simp: fast_hasher_set_def fast_hasher_remove_def neq_Nil_conv)

lemma memory_commit_loop_total:
  "\<lbrakk>bts_prices s = DEFAULT_PERSISTED_PRICES; used g < limit g; limit g \<le> u64_max; [] \<notin> op_key ` set ops\<rbrakk> \<Longrightarrow>
     \<exists>h' s'. memory_commit_loop ops h (s, g) = (Ok h', (s', g))"
proof (induction ops h arbitrary: s rule: memory_commit_loop.induct)
  case (1 h)
  then show ?case by simp
next
  case (2 k v ops h)
  obtain h1 where h1: "fast_hasher_set h k v = Ok h1"
    using "2.prems"(4) fast_hasher_total by fastforce
  have "btree_storage_set k v (s, g) = (Ok (), (s\<lparr>bts_data := bt_insert k v (bts_data s)\<rparr>, g))"
    using "2.prems" by (simp add: btree_storage_set_run charge_nothing)
  with "2.IH" [where s = "s\<lparr>bts_data := bt_insert k v (bts_data s)\<rparr>"] "2.prems" h1 show ?case
    by (simp add: m_bind_step)
next
  case (3 k ops h)
  obtain h1 where h1: "fast_hasher_remove h k = Ok h1"
    using "3.prems"(4) fast_hasher_total by fastforce
  have "btree_storage_remove k (s, g) = (Ok (), (s\<lparr>bts_data := bt_remove k (bts_data s)\<rparr>, g))"
    using "3.prems" by (simp add: btree_storage_remove_run charge_nothing)
  with "3.IH" [where s = "s\<lparr>bts_data := bt_remove k (bts_data s)\<rparr>"] "3.prems" h1 show ?case
    by (simp add: m_bind_step)
qed

lemma memory_writer_commit_total:
  assumes "bts_prices s = DEFAULT_PERSISTED_PRICES" "used g < limit g" "limit g \<le> u64_max"
    and "[] \<notin> fst ` set ls"
  shows "\<exists>s'. memory_writer_commit sha256 ls (s, g) = (Ok (), (s', g))"
proof -
  have "[] \<notin> op_key ` set (reader_wrapper_prepare ls)"
    using assms(4) by (auto simp: reader_wrapper_prepare_def image_iff)
  from memory_commit_loop_total [OF assms(1-3) this, of "fast_hasher_new (bts_hash s)"] show ?thesis
    by (auto simp: memory_writer_commit_def m_bind_step)
qed

lemmas store_exec = m_read_def m_meter_def btree_storage_new_def btree_storage_get_def btree_storage_range_def
  btree_storage_set_def btree_storage_remove_def memory_reader_def btree_storage_def
  reader_wrapper_get_def reader_wrapper_range_def reader_wrapper_set_def reader_wrapper_remove_def
  sub_tx_get_def sub_tx_range_def sub_tx_set_def sub_tx_remove_def sub_tx_def scratch_tx_def memory_writer_def
  app_meter_def app_meter_set_def app_meter_remove_def sub_tx_commit_def crossed_def in_bounds_def bt_range_def
  ascii_def

section \<open>Properties\<close>

text \<open>The map a sequence of writes describes.\<close>

fun write_map :: "op \<Rightarrow> (bytes \<Rightarrow> bytes option) \<Rightarrow> (bytes \<Rightarrow> bytes option)" where
  "write_map (Op_Set k v) m = m(k \<mapsto> v)"
| "write_map (Op_Delete k) m = m(k := None)"

context storage_laws
begin

lemma op_apply_map:
  assumes "op_apply rd p (s, g) = (Ok u, (s', g'))" and "inv s"
  shows "inv s' \<and> view s' = write_map p (view s)"
  using assms set_ok [OF assms(2)] remove_ok [OF assms(2)] by (cases p) auto

lemma op_each_map:
  assumes run: "m_each (op_apply rd) ops (s, g) = (Ok u, (s', g'))" and "inv s"
  shows "inv s' \<and> view s' = fold write_map ops (view s)"
proof -
  have "inv (fst (s', g')) \<and> view (fst (s', g')) = fold write_map ops (view s)"
    using run
  proof (induction rule: m_each_Ok_induct)
    case start
    then show ?case using assms(2) by simp
  next
    case (step ys p sg sg')
    then show ?case using op_apply_map [of p "fst sg" "snd sg" "()" "fst sg'" "snd sg'"] by simp
  qed
  then show ?thesis by simp
qed

end

text \<open>
  C15. The storage a transaction sees (metering on a \<open>SubTx\<close> on the block writer) implements a
  finite map: after any sequence of successful writes, a successful read returns what the same
  writes on a map give.
\<close>

theorem tx_store_refines_map:
  assumes "tx_inv so" and run: "m_each (op_apply tx_store) ops (so, g) = (Ok u, (so', g'))"
  shows "tx_inv so' \<and> tx_view so' = fold write_map ops (tx_view so) \<and>
    (\<forall>k h v h'. rd_get tx_store so' k h = (Ok v, h') \<longrightarrow> v = fold write_map ops (tx_view so) k)"
  using metered_tx.op_each_map [OF run assms(1)] metered_tx.get_view [of so'] by auto

definition empty_tx :: tx_state where
  "empty_tx = ((btree_storage_new, []), [])"

theorem tx_store_refines_map_witness:
  "tx_view (fst (snd (m_each (op_apply tx_store) [Op_Set [1] [7], Op_Set [2] [8], Op_Delete [1]]
      (empty_tx, gas_meter_new 100000)))) = [[2] \<mapsto> [8]]"
proof -
  let ?ops = "[Op_Set [1] [7], Op_Set [2] [8], Op_Delete [1 :: byte]]"
  let ?r = "m_each (op_apply tx_store) ?ops (empty_tx, gas_meter_new 100000)"
  have "fst ?r = Ok ()" by (simp add: empty_tx_def prog_exec gas_exec store_exec Let_def)
  then have "?r = (Ok (), (fst (snd ?r), snd (snd ?r)))" by (simp add: prod_eq_iff)
  moreover have "tx_inv empty_tx" by (simp add: empty_tx_def btree_storage_new_def)
  ultimately have "tx_view (fst (snd ?r)) = fold write_map ?ops (tx_view empty_tx)"
    using tx_store_refines_map by blast
  also have "\<dots> = [[2] \<mapsto> [8]]"
    by (auto simp: empty_tx_def btree_storage_new_def fun_eq_iff)
  finally show ?thesis .
qed

text \<open>
  C17. A range over the storage of a transaction, in either order, yields exactly the entries of
  its view between the bounds, each once and in order, however they are spread over the
  overlays and the committed data.
\<close>

theorem tx_range_exact:
  assumes "tx_inv so" and "rd_range tx_store so a b ord g = (Ok es, g1)" and "iter_collect es g1 = (Ok rs, g2)"
  shows "is_range (tx_view so) a b ord rs"
  using metered_tx.range_view [OF assms(1,2)] iter_collect_yields [OF assms(3)] by simp

definition layered_tx :: tx_state where
  "layered_tx = ((btree_storage_new\<lparr>bts_data := [([1], [10]), ([2], [20]), ([3], [30])]\<rparr>, [([2], Delta_Delete)]),
                 [([0], Delta_Set [9])])"

theorem tx_range_exact_witness:
  "is_range (tx_view layered_tx) None (Some [3]) Descending [([1], [10]), ([0], [9])]"
proof -
  let ?r = "rd_range tx_store layered_tx None (Some [3]) Descending (gas_meter_new 100000)"
  let ?c = "iter_collect [Charge_read DEFAULT_PERSISTED_PRICES [2] [20], Charge_read DEFAULT_PERSISTED_PRICES [1] [10],
                          Yield [1] [10], Yield [0] [9]] (snd ?r)"
  have r: "?r = (Ok [Charge_read DEFAULT_PERSISTED_PRICES [2] [20], Charge_read DEFAULT_PERSISTED_PRICES [1] [10],
                     Yield [1] [10], Yield [0] [9]], snd ?r)"
    by (simp add: layered_tx_def prog_exec gas_exec store_exec Let_def)
  have c: "?c = (Ok [([1], [10]), ([0], [9])], snd ?c)"
    by (simp add: layered_tx_def prog_exec gas_exec store_exec Let_def)
  have "tx_inv layered_tx" by (simp add: layered_tx_def btree_storage_new_def)
  from tx_range_exact [OF this r c] show ?thesis .
qed

text \<open>
  C16. \<open>atomic\<close> on the block writer is all or nothing: when the body fails or panics the store is
  exactly as before; when it succeeds, the call succeeds and the store shows everything the body
  wrote.
\<close>

theorem atomic_all_or_nothing:
  assumes "keeps_base f" and "overlay_inv bts_inv s"
    and body: "f ((s, []), g) = (q, ((s1, ls), g1))"
  shows "case q of
      Ok a \<Rightarrow> \<exists>s' g'. atomic memory_writer conv f (s, g) = (Ok a, (s', g')) \<and>
                overlay_view bts_view s' = tx_view (s, ls)
    | _ \<Rightarrow> \<exists>r. atomic memory_writer conv f (s, g) = (r, (s, g1)) \<and> (\<forall>a. r \<noteq> Ok a)"
proof (cases "\<exists>a. q = Ok a")
  case False
  with writer.atomic_aborted [OF assms(1) body, of conv] show ?thesis by (cases q) auto
next
  case True
  then obtain a where q: "q = Ok a" by blast
  have base: "s1 = s" using keeps_baseD [OF assms(1) body] by simp
  obtain s' where com: "sub_tx_commit memory_writer ls (s, g1) = (Ok (), (s', g1))"
    using commit_to_writer [of ls "fst s" "snd s" g1] by auto
  then have run: "atomic memory_writer conv f (s, g) = (Ok a, (s', g1))"
    using body q base by (simp add: atomic_def m_bind_def m_map_err_def m_ret_def)
  from writer.atomic_ok [OF assms(2,1) run] body q base run show ?thesis by auto
qed

theorem atomic_all_or_nothing_witness:
  "\<exists>s' g'. atomic memory_writer id (sub_tx_set [1] [2]) (fst empty_tx, gas_meter_new 10) = (Ok (), (s', g')) \<and>
     overlay_view bts_view s' [1] = Some [2]"
proof -
  have "keeps_base (sub_tx_set [1] [2] :: (tx_state \<times> gas_meter, unit, gas_error) prog)" by blast
  moreover have "overlay_inv bts_inv (fst empty_tx)" by (simp add: empty_tx_def btree_storage_new_def)
  moreover have "sub_tx_set [1] [2] ((fst empty_tx, []), gas_meter_new 10) =
    (Ok (), ((fst empty_tx, [([1], Delta_Set [2])]), gas_meter_new 10))"
    by (simp add: empty_tx_def prog_exec gas_exec store_exec Let_def)
  ultimately show ?thesis
    using atomic_all_or_nothing [of "sub_tx_set [1] [2]" "fst empty_tx" "gas_meter_new 10" "Ok ()"
        "fst empty_tx" "[([1], Delta_Set [2])]" "gas_meter_new 10" id]
    by (auto simp: fun_eq_iff apply_overlay_def)
qed

text \<open>
  C18. Committing a block succeeds whenever the meter is not exhausted and no key is empty; the
  data is then the overlay applied to the old data, and the app hash is unchanged when only
  sidecar keys (first byte an underscore) were written and otherwise the hash of the old hash
  followed by the operations in key order.
\<close>

theorem block_commit:
  assumes "bts_inv s" "bt_inv ls" "bts_prices s = DEFAULT_PERSISTED_PRICES"
    and "used g < limit g" "limit g \<le> u64_max" "[] \<notin> fst ` set ls"
  shows "\<exists>s'. memory_writer_commit sha256 ls (s, g) = (Ok (), (s', g)) \<and> bts_inv s' \<and>
     bts_view s' = overlay_view bts_view (s, ls) \<and>
     bts_hash s' = (if \<exists>d\<in>set ls. \<not> is_sidecar (fst d)
                    then sha256 (bts_hash s @ concat (map op_feed (reader_wrapper_prepare ls))) else bts_hash s)"
proof -
  obtain s' where run: "memory_writer_commit sha256 ls (s, g) = (Ok (), (s', g))"
    using memory_writer_commit_total [OF assms(3-6)] by blast
  from run memory_writer_commit_view [OF assms(1,2) run] memory_writer_commit_hash [OF run]
  show ?thesis by blast
qed

theorem block_commit_witness:
  "\<exists>s'. memory_writer_commit id [([1], Delta_Set [5])] (btree_storage_new, gas_meter_new 10) =
          (Ok (), (s', gas_meter_new 10)) \<and>
        bts_view s' [1] = Some [5] \<and> bts_hash s' = replicate 32 0 @ [115, 101, 116, 1, 5]"
proof -
  have feed: "(\<exists>d\<in>set [([1 :: byte], Delta_Set [5])]. \<not> is_sidecar (fst d)) \<and>
    concat (map op_feed (reader_wrapper_prepare [([1], Delta_Set [5])])) = [115, 101, 116, 1, 5]"
    by (simp add: reader_wrapper_prepare_def underscore_def ascii_def)
  show ?thesis
    using block_commit [of btree_storage_new "[([1], Delta_Set [5])]" "gas_meter_new 10" id] feed
    by (auto simp: btree_storage_new_def gas_meter_new_def u64_max_def apply_overlay_def)
qed

text \<open>
  C27. The app hash does not determine the data: an operation is fed to the hash as a tag, the key
  and the value with no lengths, so storing \<open>bar\<close> at \<open>foo\<close> and storing \<open>ar\<close> at \<open>foob\<close> lead to the
  same app hash, for every hash function.
\<close>

theorem app_hash_ambiguous:
  "\<exists>s1 s2. memory_writer_commit sha256 [(ascii ''foo'', Delta_Set (ascii ''bar''))]
             (btree_storage_new, gas_meter_infinite) = (Ok (), (s1, gas_meter_infinite)) \<and>
           memory_writer_commit sha256 [(ascii ''foob'', Delta_Set (ascii ''ar''))]
             (btree_storage_new, gas_meter_infinite) = (Ok (), (s2, gas_meter_infinite)) \<and>
           bts_hash s1 = bts_hash s2 \<and> bts_view s1 \<noteq> bts_view s2"
proof -
  let ?l1 = "[(ascii ''foo'', Delta_Set (ascii ''bar''))]" and ?l2 = "[(ascii ''foob'', Delta_Set (ascii ''ar''))]"
  let ?g = "gas_meter_infinite"
  have tot: "\<exists>s'. memory_writer_commit sha256 ls (btree_storage_new, ?g) = (Ok (), (s', ?g))"
    if "[] \<notin> fst ` set ls" for ls
    using that by (intro memory_writer_commit_total)
      (auto simp: btree_storage_new_def gas_meter_infinite_def gas_meter_new_def u64_max_def)
  have "[] \<notin> fst ` set ?l1" "[] \<notin> fst ` set ?l2" by (simp_all add: ascii_def)
  then obtain s1 s2 where
    r1: "memory_writer_commit sha256 ?l1 (btree_storage_new, ?g) = (Ok (), (s1, ?g))" and
    r2: "memory_writer_commit sha256 ?l2 (btree_storage_new, ?g) = (Ok (), (s2, ?g))"
    using tot by blast
  have "bts_hash s1 = bts_hash s2"
    unfolding memory_writer_commit_hash [OF r1] memory_writer_commit_hash [OF r2]
    by (simp add: reader_wrapper_prepare_def ascii_def underscore_def)
  moreover have "bts_view s1 (ascii ''foo'') \<noteq> bts_view s2 (ascii ''foo'')"
    using memory_writer_commit_view [OF _ _ r1] memory_writer_commit_view [OF _ _ r2]
    by (simp add: btree_storage_new_def apply_overlay_def ascii_def)
  ultimately show ?thesis using r1 r2 by metis
qed

end
