(* ===== verification/Namespaces.thy ===== *)
theory Namespaces
  imports Memory_Store
begin

text \<open>
  Namespaced keys: the length-prefix scheme and the prefixed storage of
  \<open>packages/storage/src/prefixed_storage/\<close>, with the range bounds computed from a prefix
  (\<open>namespace_upper_bound\<close>, and its twin \<open>increment_last_byte\<close> of
  \<open>packages/storage/src/plus/prefix.rs\<close>).

  Shown here: the scheme is prefix-free, so different namespaces never share a key; the upper
  bound of a prefix selects the keys that extend it; a prefixed storage obeys the storage laws
  with the view of its namespace.
\<close>

section \<open>Length prefixes\<close>

definition u32_to_be_bytes :: "nat \<Rightarrow> bytes" where
  "u32_to_be_bytes n = [of_nat (n div 2 ^ 24), of_nat (n div 2 ^ 16), of_nat (n div 2 ^ 8), of_nat n]"

definition encode_length :: "bytes \<Rightarrow> (bytes, 'e) outcome" where
  "encode_length namespace =
     (if length namespace > 0xFFFF then Panic
      else let length_bytes = u32_to_be_bytes (length namespace)
           in Ok [length_bytes ! 2, length_bytes ! 3])"

definition to_length_prefixed :: "bytes \<Rightarrow> (bytes, 'e) outcome" where
  "to_length_prefixed namespace = o_bind (encode_length namespace) (\<lambda>l. Ok (l @ namespace))"

fun to_length_prefixed_nested :: "bytes list \<Rightarrow> (bytes, 'e) outcome" where
  "to_length_prefixed_nested [] = Ok []"
| "to_length_prefixed_nested (namespace # namespaces) =
     o_bind (encode_length namespace) (\<lambda>l.
     o_bind (to_length_prefixed_nested namespaces) (\<lambda>out.
     Ok (l @ namespace @ out)))"

section \<open>Prefixes and bounds\<close>

fun increment_rev :: "bytes \<Rightarrow> bytes" where
  "increment_rev [] = []"
| "increment_rev (b # bs) = (if b = 255 then 0 # increment_rev bs else (b + 1) # bs)"

definition namespace_upper_bound :: "bytes \<Rightarrow> bytes" where
  "namespace_upper_bound input = rev (increment_rev (rev input))"

definition increment_last_byte :: "bytes \<Rightarrow> bytes" where
  "increment_last_byte input = rev (increment_rev (rev input))"

definition prefixed_bounds :: "bytes \<Rightarrow> bytes option \<Rightarrow> bytes option \<Rightarrow> bytes \<times> bytes" where
  "prefixed_bounds namespace start end =
     ((case start of Some s \<Rightarrow> namespace @ s | None \<Rightarrow> namespace),
      (case end of Some e \<Rightarrow> namespace @ e | None \<Rightarrow> namespace_upper_bound namespace))"

text \<open>\<open>key[namespace.len()..]\<close> panics on a shorter key.\<close>

definition trim :: "bytes \<Rightarrow> bytes \<Rightarrow> (bytes, 'e) outcome" where
  "trim namespace key =
     (if length namespace \<le> length key then Ok (drop (length namespace) key) else Panic)"

fun trim_event :: "bytes \<Rightarrow> io_event \<Rightarrow> io_event" where
  "trim_event prefix (Charge_read p k v) = Charge_read p k v"
| "trim_event prefix (Yield k v) =
     (case trim prefix k of Ok k' \<Rightarrow> Yield k' v | (_ :: (bytes, unit) outcome) \<Rightarrow> Panics)"
| "trim_event prefix Panics = Panics"

section \<open>Prefixed storage\<close>

definition prefixed_get ::
  "('s, 'z) reader_scheme \<Rightarrow> bytes \<Rightarrow> 's \<Rightarrow> bytes \<Rightarrow> (gas_meter, bytes option, gas_error) prog" where
  "prefixed_get st prefix s key = rd_get st s (prefix @ key)"

definition prefixed_range ::
  "('s, 'z) reader_scheme \<Rightarrow> bytes \<Rightarrow> 's \<Rightarrow> bytes option \<Rightarrow> bytes option \<Rightarrow> Order
     \<Rightarrow> (gas_meter, io_event list, gas_error) prog" where
  "prefixed_range st prefix s start end ord =
     (case prefixed_bounds prefix start end of (start', end') \<Rightarrow>
        m_bind (rd_range st s (Some start') (Some end') ord) (\<lambda>base.
        m_ret (map (trim_event prefix) base)))"

definition prefixed_set ::
  "('s, 'z) storage_scheme \<Rightarrow> bytes \<Rightarrow> bytes \<Rightarrow> bytes \<Rightarrow> ('s \<times> gas_meter, unit, gas_error) prog" where
  "prefixed_set st prefix key value = st_set st (prefix @ key) value"

definition prefixed_remove ::
  "('s, 'z) storage_scheme \<Rightarrow> bytes \<Rightarrow> bytes \<Rightarrow> ('s \<times> gas_meter, unit, gas_error) prog" where
  "prefixed_remove st prefix key = st_remove st (prefix @ key)"

definition prefixed_storage :: "('s, 'z) storage_scheme \<Rightarrow> bytes \<Rightarrow> 's storage" where
  "prefixed_storage st prefix =
     \<lparr>rd_get = prefixed_get st prefix, rd_range = prefixed_range st prefix,
      st_set = prefixed_set st prefix, st_remove = prefixed_remove st prefix\<rparr>"

definition readonly_prefixed_storage :: "('s, 'z) reader_scheme \<Rightarrow> bytes \<Rightarrow> 's reader" where
  "readonly_prefixed_storage st prefix =
     \<lparr>rd_get = prefixed_get st prefix, rd_range = prefixed_range st prefix\<rparr>"

text \<open>The constructors \<open>new\<close> and \<open>multilevel\<close>.\<close>

definition prefixed :: "('s, 'z) storage_scheme \<Rightarrow> bytes \<Rightarrow> ('s storage, 'e) outcome" where
  "prefixed st namespace = o_bind (to_length_prefixed namespace) (\<lambda>p. Ok (prefixed_storage st p))"

definition prefixed_multilevel :: "('s, 'z) storage_scheme \<Rightarrow> bytes list \<Rightarrow> ('s storage, 'e) outcome" where
  "prefixed_multilevel st namespaces =
     o_bind (to_length_prefixed_nested namespaces) (\<lambda>p. Ok (prefixed_storage st p))"

definition prefixed_read :: "('s, 'z) reader_scheme \<Rightarrow> bytes \<Rightarrow> ('s reader, 'e) outcome" where
  "prefixed_read st namespace =
     o_bind (to_length_prefixed namespace) (\<lambda>p. Ok (readonly_prefixed_storage st p))"

section \<open>The scheme is prefix-free\<close>

definition lp :: "bytes \<Rightarrow> bytes" where
  "lp namespace = [of_nat (length namespace div 256), of_nat (length namespace)] @ namespace"

lemma to_length_prefixed_Ok:
  "to_length_prefixed n = Ok p \<longleftrightarrow> length n \<le> 0xFFFF \<and> p = lp n"
  by (auto simp: to_length_prefixed_def encode_length_def lp_def u32_to_be_bytes_def Let_def numeral_3_eq_3)

lemma to_length_prefixed_nested_Ok:
  "to_length_prefixed_nested ns = Ok p \<longleftrightarrow> (\<forall>n\<in>set ns. length n \<le> 0xFFFF) \<and> p = concat (map lp ns)"
  by (induction ns arbitrary: p)
    (auto simp: encode_length_def lp_def u32_to_be_bytes_def Let_def numeral_3_eq_3)

lemma of_nat_byte_eq: "(of_nat a :: byte) = of_nat b \<longleftrightarrow> a mod 256 = b mod 256"
  by (simp add: word_of_nat_eq_iff take_bit_nat_def)

lemma lp_length:
  assumes "lp a @ x = lp b @ y" and "length a \<le> 0xFFFF" and "length b \<le> 0xFFFF"
  shows "length a = length b"
proof -
  have hi: "length a div 256 mod 256 = length b div 256 mod 256" and lo: "length a mod 256 = length b mod 256"
    using assms(1) by (auto simp: lp_def of_nat_byte_eq)
  have "length a div 256 = length b div 256" using hi assms(2,3) by (simp add: mod_less)
  with lo show ?thesis by (metis mult_div_mod_eq)
qed

lemma lp_inject:
  "\<lbrakk>lp a @ x = lp b @ y; length a \<le> 0xFFFF; length b \<le> 0xFFFF\<rbrakk> \<Longrightarrow> a = b \<and> x = y"
  using lp_length [of a x b y] by (simp add: lp_def)

lemma lp_nested_inject:
  "\<lbrakk>concat (map lp as) @ x = concat (map lp bs) @ y; length as = length bs;
    \<forall>n\<in>set as \<union> set bs. length n \<le> 0xFFFF\<rbrakk> \<Longrightarrow> as = bs \<and> x = y"
proof (induction as arbitrary: bs)
  case Nil
  then show ?case by simp
next
  case (Cons a as)
  then obtain b bs' where bs: "bs = b # bs'" by (cases bs) auto
  with Cons.prems have "lp a @ (concat (map lp as) @ x) = lp b @ (concat (map lp bs') @ y)" by simp
  with Cons.prems bs have "a = b" "concat (map lp as) @ x = concat (map lp bs') @ y"
    using lp_inject by (metis Un_iff list.set_intros(1))+
  with Cons bs show ?case by auto
qed

section \<open>What the bounds select\<close>

lemma append_less_iff [simp]: "p @ a < p @ b \<longleftrightarrow> a < (b::bytes)"
  by (induction p) auto

lemma append_le_iff [simp]: "p @ a \<le> p @ b \<longleftrightarrow> a \<le> (b::bytes)"
  by (induction p) auto

lemma le_append [simp]: "p \<le> p @ (x::bytes)"
  using append_le_iff [of p "[]" x] by simp

lemma between_prefix:
  "p @ a \<le> k \<Longrightarrow> k < p @ b \<Longrightarrow> \<exists>x. k = p @ x \<and> a \<le> x \<and> x < (b::bytes)"
proof (induction p arbitrary: k)
  case Nil
  then show ?case by simp
next
  case (Cons c p)
  from Cons.prems obtain d k' where k: "k = d # k'" by (cases k) auto
  with Cons.prems have "d = c" "p @ a \<le> k'" "k' < p @ b" by (auto simp: less_le_not_le)
  with Cons.IH [of k'] k show ?case by auto
qed

lemma max_prefix: "replicate n (255::byte) \<le> x \<Longrightarrow> \<exists>y. x = replicate n 255 @ y"
proof (induction n arbitrary: x)
  case 0
  then show ?case by simp
next
  case (Suc n)
  from Suc.prems obtain c x' where x: "x = c # x'" by (cases x) auto
  have "\<not> (255::byte) < c" by (simp add: not_less)
  with Suc.prems x have "c = 255" "replicate n 255 \<le> x'" by auto
  with Suc.IH [of x'] x show ?case by auto
qed

lemma below_zeros: "x < replicate n (0::byte) \<Longrightarrow> length x < n"
proof (induction n arbitrary: x)
  case 0
  then show ?case by simp
next
  case (Suc n)
  then show ?case by (cases x) auto
qed

lemma increment_rev_decomp:
  assumes "\<exists>b\<in>set p. b \<noteq> 255"
  shows "\<exists>n b r. p = replicate n 255 @ b # r \<and> b \<noteq> 255 \<and> increment_rev p = replicate n 0 @ (b + 1) # r"
  using assms
proof (induction p)
  case Nil
  then show ?case by simp
next
  case (Cons c p)
  show ?case
  proof (cases "c = 255")
    case True
    with Cons obtain n b r where "p = replicate n 255 @ b # r" "b \<noteq> 255"
      "increment_rev p = replicate n 0 @ (b + 1) # r" by auto
    with True show ?thesis by (intro exI [of _ "Suc n"] exI [of _ b] exI [of _ r]) simp
  next
    case False
    then show ?thesis by (intro exI [of _ 0] exI [of _ c] exI [of _ p]) simp
  qed
qed

lemma upper_bound_decomp:
  assumes "\<exists>b\<in>set p. b \<noteq> 255"
  shows "\<exists>q b n. p = q @ b # replicate n 255 \<and> b \<noteq> 255 \<and> namespace_upper_bound p = q @ (b + 1) # replicate n 0"
proof -
  from assms increment_rev_decomp [of "rev p"] obtain n b r where
    r: "rev p = replicate n 255 @ b # r" "b \<noteq> 255" "increment_rev (rev p) = replicate n 0 @ (b + 1) # r"
    by auto
  from r(1) have "p = rev r @ b # replicate n 255" by (metis append.assoc append_Cons append_Nil rev.simps(2) rev_append rev_replicate rev_rev_ident)
  with r show ?thesis
    by (intro exI [of _ "rev r"] exI [of _ b] exI [of _ n]) (simp add: namespace_upper_bound_def)
qed

lemma upper_bound_selects:
  assumes "\<exists>b\<in>set p. b \<noteq> 255"
  shows "p @ x < namespace_upper_bound p"
    and "\<lbrakk>p \<le> k; k < namespace_upper_bound p; length p \<le> length k\<rbrakk> \<Longrightarrow> \<exists>y. k = p @ y"
proof -
  obtain q b n where p: "p = q @ b # replicate n 255" and b: "b \<noteq> 255"
    and up: "namespace_upper_bound p = q @ (b + 1) # replicate n 0"
    using upper_bound_decomp [OF assms] by blast
  note up' = up [unfolded p]
  show "p @ x < namespace_upper_bound p"
    using b byte_succ [of b b] unfolding p up' by simp
  assume k: "p \<le> k" "k < namespace_upper_bound p" "length p \<le> length k"
  from between_prefix [of q "b # replicate n 255" k "(b + 1) # replicate n 0"] k(1,2)
  obtain y where y: "k = q @ y" "b # replicate n 255 \<le> y" "y < (b + 1) # replicate n 0"
    unfolding p up' by auto
  from y(2) obtain c z where yz: "y = c # z" by (cases y) auto
  have "length z \<ge> n" using k(3) y(1) yz p by simp
  then have "c \<noteq> b + 1" using y(3) yz below_zeros [of z n] by auto
  with y(2,3) yz b byte_succ [of b c] have "c = b" "replicate n 255 \<le> z" by auto
  with max_prefix [of n z] y(1) yz p show "\<exists>y. k = p @ y" by auto
qed

text \<open>If the last byte is not 255, no shorter key slips into the range.\<close>

lemma upper_bound_exact:
  assumes "p \<noteq> []" and "last p \<noteq> 255"
  shows "p \<le> k \<and> k < namespace_upper_bound p \<longleftrightarrow> (\<exists>x. k = p @ x)"
proof
  have ex: "\<exists>b\<in>set p. b \<noteq> 255" using assms by (intro bexI [of _ "last p"]) auto
  obtain q b where p: "p = q @ [b]" using assms(1) by (metis append_butlast_last_id)
  then have up: "namespace_upper_bound p = q @ [b + 1]" using assms(2) by (simp add: namespace_upper_bound_def)
  note up' = up [unfolded p]
  {
    assume k: "p \<le> k \<and> k < namespace_upper_bound p"
    with between_prefix [of q "[b]" k "[b + 1]"] obtain y where y: "k = q @ y" "[b] \<le> y" "y < [b + 1]"
      unfolding p up' by auto
    from y(2) have "y \<noteq> []" by auto
    with y(1) p have "length p \<le> length k" by (cases y) auto
    with upper_bound_selects(2) [OF ex] k show "\<exists>x. k = p @ x" by blast
  }
  show "\<exists>x. k = p @ x \<Longrightarrow> p \<le> k \<and> k < namespace_upper_bound p"
    using upper_bound_selects(1) [OF ex] by auto
qed

lemma prefixed_bounds_in:
  assumes "p \<noteq> []" and "last p \<noteq> 255" and "prefixed_bounds p a b = (lo, hi)"
  shows "in_bounds (Some lo) (Some hi) k \<longleftrightarrow> (\<exists>x. k = p @ x \<and> in_bounds a b x)"
proof (cases "\<exists>x. k = p @ x")
  case True
  then obtain x where "k = p @ x" by blast
  with assms upper_bound_exact [OF assms(1,2), of k] show ?thesis
    by (auto simp: prefixed_bounds_def in_bounds_def split: option.splits)
next
  case False
  have "\<not> (lo \<le> k \<and> k < hi)"
  proof
    assume k: "lo \<le> k \<and> k < hi"
    have lo: "p \<le> lo" using assms(3) by (auto simp: prefixed_bounds_def split: option.splits)
    have hi: "hi \<le> namespace_upper_bound p"
      using assms(3) upper_bound_exact [OF assms(1,2), of "p @ the b"]
      by (auto simp: prefixed_bounds_def split: option.splits)
    from k lo hi have "p \<le> k" "k < namespace_upper_bound p" by auto
    with upper_bound_exact [OF assms(1,2), of k] False show False by blast
  qed
  with False show ?thesis by (auto simp: in_bounds_def)
qed

section \<open>A namespace is a storage\<close>

abbreviation strip_key :: "bytes \<Rightarrow> bytes \<times> 'v \<Rightarrow> bytes \<times> 'v" where
  "strip_key p \<equiv> \<lambda>(k, v). (drop (length p) k, v)"

lemma map_of_strip:
  "\<forall>e\<in>set ys. \<exists>x. fst e = p @ x \<Longrightarrow> map_of (map (strip_key p) ys) x = map_of ys (p @ x)"
  by (induction ys) auto

lemma sorted_strip:
  "\<forall>e\<in>set ys. \<exists>x. fst e = p @ x \<Longrightarrow> sorted_wrt (key_lt ord) (map fst ys) \<Longrightarrow>
     sorted_wrt (key_lt ord) (map fst (map (strip_key p) ys))"
proof (induction ys)
  case Nil
  then show ?case by simp
next
  case (Cons y ys)
  have "key_lt ord (drop (length p) (fst y)) (drop (length p) (fst z))" if "z \<in> set ys" for z
    using that Cons.prems by (cases ord) fastforce+
  with Cons show ?case by (auto simp: case_prod_beta)
qed

lemma is_range_strip:
  assumes "is_range m lo hi ord ys" and "\<And>k. in_bounds lo hi k \<longleftrightarrow> (\<exists>x. k = p @ x \<and> in_bounds a b x)"
  shows "is_range (\<lambda>x. m (p @ x)) a b ord (map (strip_key p) ys)"
    and "\<forall>e\<in>set ys. \<exists>x. fst e = p @ x"
proof -
  have "\<exists>x. fst e = p @ x" if "e \<in> set ys" for e
  proof -
    from assms(1) that have "map_of ys (fst e) \<noteq> None" by (auto simp: map_of_eq_None_iff)
    with assms show ?thesis by (auto simp: is_range_def split: if_splits)
  qed
  then show all: "\<forall>e\<in>set ys. \<exists>x. fst e = p @ x" by blast
  show "is_range (\<lambda>x. m (p @ x)) a b ord (map (strip_key p) ys)"
    using sorted_strip [OF all] map_of_strip [OF all] assms by (auto simp: is_range_def)
qed

lemma yields_trim:
  "\<lbrakk>Panics \<notin> set es; \<forall>e\<in>set (yields es). \<exists>x. fst e = p @ x\<rbrakk> \<Longrightarrow>
     yields (map (trim_event p) es) = map (strip_key p) (yields es) \<and> Panics \<notin> set (map (trim_event p) es)"
  by (induction es rule: yields.induct) (auto simp: trim_def)

context reader_laws
begin

lemma prefixed_range_view:
  assumes "p \<noteq> []" and "last p \<noteq> 255" and "inv s" and run: "prefixed_range rd p s a b ord g = (Ok es, g')"
  shows "is_range (\<lambda>k. view s (p @ k)) a b ord (yields es) \<and> Panics \<notin> set es"
proof -
  obtain lo hi where bounds: "prefixed_bounds p a b = (lo, hi)" by (metis prod.exhaust)
  with run obtain base where base: "rd_range rd s (Some lo) (Some hi) ord g = (Ok base, g')"
    and es: "es = map (trim_event p) base"
    by (auto simp: prefixed_range_def m_bind_Ok)
  from range_view [OF assms(3) base] have
    r: "is_range (view s) (Some lo) (Some hi) ord (yields base)" "Panics \<notin> set base" by auto
  note strip = is_range_strip [OF r(1) prefixed_bounds_in [OF assms(1,2) bounds]]
  from yields_trim [OF r(2) strip(2)] strip(1) show ?thesis unfolding es by simp
qed

theorem readonly_prefixed_laws:
  assumes "p \<noteq> []" and "last p \<noteq> 255"
  shows "reader_laws (readonly_prefixed_storage rd p) (\<lambda>s k. view s (p @ k)) inv"
proof (unfold_locales, goal_cases)
  case (1 s k g v g')
  then show ?case by (simp add: readonly_prefixed_storage_def prefixed_get_def get_view)
next
  case (2 g0 s k)
  then show ?case by (simp add: readonly_prefixed_storage_def prefixed_get_def get_meter)
next
  case (3 s a b ord g es g')
  then show ?case using prefixed_range_view [OF assms] by (simp add: readonly_prefixed_storage_def)
next
  case (4 g0 s a b ord)
  then show ?case
    by (auto simp: readonly_prefixed_storage_def prefixed_range_def split: prod.split
             intro!: preserves_bind range_meter)
qed

end

context storage_laws
begin

theorem prefixed_laws:
  assumes "p \<noteq> []" and "last p \<noteq> 255"
  shows "storage_laws (prefixed_storage rd p) (\<lambda>s k. view s (p @ k)) inv"
proof (unfold_locales, goal_cases)
  case (1 s k g v g')
  then show ?case by (simp add: prefixed_storage_def prefixed_get_def get_view)
next
  case (2 g0 s k)
  then show ?case by (simp add: prefixed_storage_def prefixed_get_def get_meter)
next
  case (3 s a b ord g es g')
  then show ?case using prefixed_range_view [OF assms] by (simp add: prefixed_storage_def)
next
  case (4 g0 s a b ord)
  then show ?case
    by (auto simp: prefixed_storage_def prefixed_range_def split: prod.split
             intro!: preserves_bind range_meter)
next
  case (5 s k v g u s' g')
  then show ?case by (auto simp: prefixed_storage_def prefixed_set_def fun_eq_iff dest: set_ok)
next
  case (6 k v s g r s' g')
  then show ?case by (auto simp: prefixed_storage_def prefixed_set_def dest: set_fail)
next
  case (7 g0 k v)
  then show ?case by (simp add: prefixed_storage_def prefixed_set_def set_meter)
next
  case (8 s k g u s' g')
  then show ?case by (auto simp: prefixed_storage_def prefixed_remove_def fun_eq_iff dest: remove_ok)
next
  case (9 k s g r s' g')
  then show ?case by (auto simp: prefixed_storage_def prefixed_remove_def dest: remove_fail)
next
  case (10 g0 k)
  then show ?case by (simp add: prefixed_storage_def prefixed_remove_def remove_meter)
qed

text \<open>A write in one namespace is invisible in every other.\<close>

lemma prefixed_set_frame:
  assumes "length n \<le> 0xFFFF" "length n' \<le> 0xFFFF" "n \<noteq> n'" "inv s"
    and "st_set (prefixed_storage rd (lp n)) k v (s, g) = (r, (s', g'))"
  shows "view s' (lp n' @ k') = view s (lp n' @ k')"
proof (cases "r = Ok ()")
  case True
  have "lp n' @ k' \<noteq> lp n @ k" using lp_inject [of n' k' n k] assms(1-3) by blast
  moreover have "st_set rd (lp n @ k) v (s, g) = (Ok (), (s', g'))"
    using True assms(5) by (simp add: prefixed_storage_def prefixed_set_def)
  ultimately show ?thesis using set_ok [OF assms(4)] by fastforce
next
  case False
  with assms(5) show ?thesis
    using set_fail [of "lp n @ k" v s g r s' g'] by (auto simp: prefixed_storage_def prefixed_set_def)
qed

end

lemmas namespace_exec = prefixed_storage_def readonly_prefixed_storage_def prefixed_get_def prefixed_range_def
  prefixed_set_def prefixed_remove_def prefixed_bounds_def namespace_upper_bound_def trim_def
  encode_length_def u32_to_be_bytes_def lp_def

section \<open>Properties\<close>



text \<open>
  The range from a prefix to its upper bound holds every key that starts with the prefix,
  and no other key that is at least as long; when the last byte of the prefix is not 255 it
  holds no other key at all.
\<close>

lemma upper_bound_range:
  assumes "\<exists>b\<in>set p. b \<noteq> 255"
  shows "(\<forall>x. p \<le> p @ x \<and> p @ x < namespace_upper_bound p) \<and>
    (\<forall>k. p \<le> k \<and> k < namespace_upper_bound p \<and> (length p \<le> length k \<or> last p \<noteq> 255) \<longrightarrow> take (length p) k = p)"
proof (intro conjI allI impI; (elim conjE)?)
  show "p \<le> p @ x" "p @ x < namespace_upper_bound p" for x
    using upper_bound_selects(1) [OF assms] by simp_all
  fix k
  assume k: "p \<le> k" "k < namespace_upper_bound p" "length p \<le> length k \<or> last p \<noteq> 255"
  have "p \<noteq> []" using assms by auto
  with k upper_bound_selects(2) [OF assms k(1,2)] upper_bound_exact [of p k]
  have "\<exists>y. k = p @ y" by blast
  then show "take (length p) k = p" by auto
qed

definition foreign_key_store :: tx_state where
  "foreign_key_store = ((btree_storage_new, []), [([2], Delta_Set [5])])"

text \<open>
  A prefix that ends in 255 lets a foreign key into its range: with the prefix [1, 255] the
  upper bound is [2, 0], the key [2] lies below it, and cutting the prefix off the key panics,
  so a range over that prefixed storage panics although no key has the prefix.
\<close>

lemma prefixed_range_panics:
  "\<exists>es g'. rd_range (prefixed_storage tx_store [1, 255]) foreign_key_store None None Ascending (gas_meter_new 100000)
       = (Ok es, g') \<and> fst (iter_collect es g') = Panic"
proof -
  let ?r = "rd_range (prefixed_storage tx_store [1, 255]) foreign_key_store None None Ascending (gas_meter_new 100000)"
  have "?r = (Ok [Panics], snd ?r)"
    by (simp add: foreign_key_store_def prog_exec gas_exec store_exec namespace_exec Let_def)
  moreover have "fst (iter_collect [Panics] (snd ?r)) = Panic" by (simp add: m_panic_def)
  ultimately show ?thesis by blast
qed

end
