(* ===== verification/Plus.thy ===== *)
theory Plus
  imports Namespaces
begin

text \<open>
  Typed storage: \<open>Path\<close>, \<open>Item\<close>, \<open>Map\<close> and \<open>Prefix\<close> of \<open>packages/storage/src/plus/\<close>.

  JSON encoding (\<open>to_json_vec\<close>, \<open>from_json\<close> of the external crate \<open>cosmwasm_std\<close>) is a
  parameter, a \<open>codec\<close> per stored type. A key of a map is the list of byte strings that the
  external \<open>PrimaryKey::key\<close> returns for it.
\<close>

named_theorems plus_simps \<open>how a typed access runs\<close>

section \<open>Errors and codecs\<close>

datatype std_error = ParseErr | SerializeErr | NotFound | Overflow | GenericErr

datatype plus_error = Plus_Std std_error | Plus_Gas gas_error

record 'a codec =
  enc :: "'a \<Rightarrow> bytes option"
  dec :: "bytes \<Rightarrow> 'a option"

text \<open>What the typed layer relies on: every value is encodable and decodes to itself.\<close>

definition codec_ok :: "'a codec \<Rightarrow> bool" where
  "codec_ok c \<longleftrightarrow> (\<forall>a. \<exists>b. enc c a = Some b \<and> dec c b = Some a)"

definition to_json_vec :: "'a codec \<Rightarrow> 'a \<Rightarrow> (bytes, std_error) outcome" where
  "to_json_vec c a = of_option SerializeErr (enc c a)"

definition from_json :: "'a codec \<Rightarrow> bytes \<Rightarrow> ('a, std_error) outcome" where
  "from_json c b = of_option ParseErr (dec c b)"

definition may_deserialize :: "'a codec \<Rightarrow> bytes option \<Rightarrow> ('a option, std_error) outcome" where
  "may_deserialize c value =
     (case value of
        Some vec \<Rightarrow> o_bind (from_json c vec) (\<lambda>a. Ok (Some a))
      | None \<Rightarrow> Ok None)"

definition must_deserialize :: "'a codec \<Rightarrow> bytes option \<Rightarrow> ('a, std_error) outcome" where
  "must_deserialize c value = (case value of Some vec \<Rightarrow> from_json c vec | None \<Rightarrow> Err NotFound)"

definition m_std :: "('a, std_error) outcome \<Rightarrow> ('s, 'a, plus_error) prog" where
  "m_std r = m_map_err Plus_Std (m_lift r)"

definition m_gas :: "('s, 'a, gas_error) prog \<Rightarrow> ('s, 'a, plus_error) prog" where
  "m_gas p = m_map_err Plus_Gas p"

section \<open>Keys\<close>

definition nested_namespaces_with_key :: "bytes list \<Rightarrow> bytes list \<Rightarrow> bytes \<Rightarrow> (bytes, 'e) outcome" where
  "nested_namespaces_with_key top_names sub_names key =
     o_bind (to_length_prefixed_nested top_names) (\<lambda>a.
     o_bind (to_length_prefixed_nested sub_names) (\<lambda>b.
     Ok (a @ b @ key)))"

definition namespaces_with_key :: "bytes list \<Rightarrow> bytes \<Rightarrow> (bytes, 'e) outcome" where
  "namespaces_with_key namespaces key = o_bind (to_length_prefixed_nested namespaces) (\<lambda>a. Ok (a @ key))"

text \<open>\<open>Path::new\<close>: \<open>keys[0..l - 1]\<close> underflows when there is no key.\<close>

definition path_new :: "bytes \<Rightarrow> bytes list \<Rightarrow> (bytes, 'e) outcome" where
  "path_new namespace keys =
     (if keys = [] then Panic
      else nested_namespaces_with_key [namespace] (butlast keys) (last keys))"

section \<open>Typed values at a key\<close>

definition path_save ::
  "('s, 'z) storage_scheme \<Rightarrow> 'a codec \<Rightarrow> bytes \<Rightarrow> 'a \<Rightarrow> ('s \<times> gas_meter, unit, plus_error) prog" where
  "path_save st c storage_key data =
     m_bind (m_std (to_json_vec c data)) (\<lambda>b.
     m_gas (st_set st storage_key b))"

definition path_remove ::
  "('s, 'z) storage_scheme \<Rightarrow> bytes \<Rightarrow> ('s \<times> gas_meter, unit, gas_error) prog" where
  "path_remove st storage_key = st_remove st storage_key"

definition path_load ::
  "('s, 'z) reader_scheme \<Rightarrow> 'a codec \<Rightarrow> bytes \<Rightarrow> 's \<Rightarrow> (gas_meter, 'a, plus_error) prog" where
  "path_load st c storage_key s =
     m_bind (m_gas (rd_get st s storage_key)) (\<lambda>value.
     m_std (must_deserialize c value))"

definition path_may_load ::
  "('s, 'z) reader_scheme \<Rightarrow> 'a codec \<Rightarrow> bytes \<Rightarrow> 's \<Rightarrow> (gas_meter, 'a option, plus_error) prog" where
  "path_may_load st c storage_key s =
     m_bind (m_gas (rd_get st s storage_key)) (\<lambda>value.
     m_std (may_deserialize c value))"

definition path_has ::
  "('s, 'z) reader_scheme \<Rightarrow> bytes \<Rightarrow> 's \<Rightarrow> (gas_meter, bool, gas_error) prog" where
  "path_has st storage_key s = m_bind (rd_get st s storage_key) (\<lambda>value. m_ret (value \<noteq> None))"

text \<open>\<open>conv\<close> is the \<open>From<PlusError>\<close> of the caller's error type.\<close>

definition path_update ::
  "('s, 'z) storage_scheme \<Rightarrow> 'a codec \<Rightarrow> (plus_error \<Rightarrow> 'e) \<Rightarrow> bytes \<Rightarrow> ('a option \<Rightarrow> ('a, 'e) outcome)
     \<Rightarrow> ('s \<times> gas_meter, 'a, 'e) prog" where
  "path_update st c conv storage_key action =
     m_bind (m_map_err conv (m_read (path_may_load st c storage_key))) (\<lambda>input.
     m_bind (m_lift (action input)) (\<lambda>output.
     m_bind (m_map_err conv (path_save st c storage_key output)) (\<lambda>_.
     m_ret output)))"

text \<open>An \<open>Item\<close> is the same with its name, unprefixed, as the key; its update needs a value to be there.\<close>

definition item_save ::
  "('s, 'z) storage_scheme \<Rightarrow> 'a codec \<Rightarrow> bytes \<Rightarrow> 'a \<Rightarrow> ('s \<times> gas_meter, unit, plus_error) prog" where
  "item_save st c storage_key data =
     m_bind (m_std (to_json_vec c data)) (\<lambda>b.
     m_gas (st_set st storage_key b))"

definition item_remove ::
  "('s, 'z) storage_scheme \<Rightarrow> bytes \<Rightarrow> ('s \<times> gas_meter, unit, gas_error) prog" where
  "item_remove st storage_key = st_remove st storage_key"

definition item_load ::
  "('s, 'z) reader_scheme \<Rightarrow> 'a codec \<Rightarrow> bytes \<Rightarrow> 's \<Rightarrow> (gas_meter, 'a, plus_error) prog" where
  "item_load st c storage_key s =
     m_bind (m_gas (rd_get st s storage_key)) (\<lambda>value.
     m_std (must_deserialize c value))"

definition item_may_load ::
  "('s, 'z) reader_scheme \<Rightarrow> 'a codec \<Rightarrow> bytes \<Rightarrow> 's \<Rightarrow> (gas_meter, 'a option, plus_error) prog" where
  "item_may_load st c storage_key s =
     m_bind (m_gas (rd_get st s storage_key)) (\<lambda>value.
     m_std (may_deserialize c value))"

definition item_update ::
  "('s, 'z) storage_scheme \<Rightarrow> 'a codec \<Rightarrow> (plus_error \<Rightarrow> 'e) \<Rightarrow> bytes \<Rightarrow> ('a \<Rightarrow> ('a, 'e) outcome)
     \<Rightarrow> ('s \<times> gas_meter, 'a, 'e) prog" where
  "item_update st c conv storage_key action =
     m_bind (m_map_err conv (m_read (item_load st c storage_key))) (\<lambda>input.
     m_bind (m_lift (action input)) (\<lambda>output.
     m_bind (m_map_err conv (item_save st c storage_key output)) (\<lambda>_.
     m_ret output)))"

section \<open>Maps\<close>

definition map_key :: "bytes \<Rightarrow> bytes list \<Rightarrow> (bytes, 'e) outcome" where
  "map_key namespace k = path_new namespace k"

definition map_save ::
  "('s, 'z) storage_scheme \<Rightarrow> 'a codec \<Rightarrow> bytes \<Rightarrow> bytes list \<Rightarrow> 'a \<Rightarrow> ('s \<times> gas_meter, unit, plus_error) prog" where
  "map_save st c namespace k data = m_bind (m_lift (map_key namespace k)) (\<lambda>p. path_save st c p data)"

definition map_remove ::
  "('s, 'z) storage_scheme \<Rightarrow> bytes \<Rightarrow> bytes list \<Rightarrow> ('s \<times> gas_meter, unit, gas_error) prog" where
  "map_remove st namespace k = m_bind (m_lift (map_key namespace k)) (\<lambda>p. path_remove st p)"

definition map_load ::
  "('s, 'z) reader_scheme \<Rightarrow> 'a codec \<Rightarrow> bytes \<Rightarrow> bytes list \<Rightarrow> 's \<Rightarrow> (gas_meter, 'a, plus_error) prog" where
  "map_load st c namespace k s = m_bind (m_lift (map_key namespace k)) (\<lambda>p. path_load st c p s)"

definition map_may_load ::
  "('s, 'z) reader_scheme \<Rightarrow> 'a codec \<Rightarrow> bytes \<Rightarrow> bytes list \<Rightarrow> 's \<Rightarrow> (gas_meter, 'a option, plus_error) prog" where
  "map_may_load st c namespace k s = m_bind (m_lift (map_key namespace k)) (\<lambda>p. path_may_load st c p s)"

definition map_has ::
  "('s, 'z) reader_scheme \<Rightarrow> bytes \<Rightarrow> bytes list \<Rightarrow> 's \<Rightarrow> (gas_meter, bool, gas_error) prog" where
  "map_has st namespace k s = m_bind (m_lift (map_key namespace k)) (\<lambda>p. path_has st p s)"

definition map_update ::
  "('s, 'z) storage_scheme \<Rightarrow> 'a codec \<Rightarrow> (plus_error \<Rightarrow> 'e) \<Rightarrow> bytes \<Rightarrow> bytes list
     \<Rightarrow> ('a option \<Rightarrow> ('a, 'e) outcome) \<Rightarrow> ('s \<times> gas_meter, 'a, 'e) prog" where
  "map_update st c conv namespace k action =
     m_bind (m_lift (map_key namespace k)) (\<lambda>p. path_update st c conv p action)"

section \<open>Ranges over a prefix\<close>

datatype raw_bound = Inclusive bytes | Exclusive bytes

definition extend_one_byte :: "bytes \<Rightarrow> bytes" where
  "extend_one_byte lim = lim @ [0]"

definition calc_start_bound :: "bytes \<Rightarrow> raw_bound option \<Rightarrow> bytes" where
  "calc_start_bound namespace bound =
     (case bound of
        None \<Rightarrow> namespace
      | Some (Inclusive lim) \<Rightarrow> namespace @ lim
      | Some (Exclusive lim) \<Rightarrow> namespace @ extend_one_byte lim)"

definition calc_end_bound :: "bytes \<Rightarrow> raw_bound option \<Rightarrow> bytes" where
  "calc_end_bound namespace bound =
     (case bound of
        None \<Rightarrow> increment_last_byte namespace
      | Some (Exclusive lim) \<Rightarrow> namespace @ lim
      | Some (Inclusive lim) \<Rightarrow> namespace @ extend_one_byte lim)"

definition range_with_prefix ::
  "('s, 'z) reader_scheme \<Rightarrow> bytes \<Rightarrow> raw_bound option \<Rightarrow> raw_bound option \<Rightarrow> Order \<Rightarrow> 's
     \<Rightarrow> (gas_meter, io_event list, gas_error) prog" where
  "range_with_prefix st namespace start end ord s =
     m_bind (rd_range st s (Some (calc_start_bound namespace start)) (Some (calc_end_bound namespace end)) ord)
       (\<lambda>base. m_ret (map (trim_event namespace) base))"

definition calc_prefix_start_bound :: "bytes \<Rightarrow> raw_bound option \<Rightarrow> bytes" where
  "calc_prefix_start_bound namespace bound =
     (case bound of
        None \<Rightarrow> namespace
      | Some (Inclusive lim) \<Rightarrow> namespace @ lim
      | Some (Exclusive lim) \<Rightarrow> namespace @ increment_last_byte lim)"

definition calc_prefix_end_bound :: "bytes \<Rightarrow> raw_bound option \<Rightarrow> bytes" where
  "calc_prefix_end_bound namespace bound =
     (case bound of
        None \<Rightarrow> increment_last_byte namespace
      | Some (Exclusive lim) \<Rightarrow> namespace @ lim
      | Some (Inclusive lim) \<Rightarrow> namespace @ increment_last_byte lim)"

definition namespaced_prefix_range ::
  "('s, 'z) reader_scheme \<Rightarrow> bytes \<Rightarrow> raw_bound option \<Rightarrow> raw_bound option \<Rightarrow> Order \<Rightarrow> 's
     \<Rightarrow> (gas_meter, io_event list, gas_error) prog" where
  "namespaced_prefix_range st namespace start end ord s =
     m_bind (m_lift (namespaces_with_key [namespace] [])) (\<lambda>prefix.
     m_bind (rd_range st s (Some (calc_prefix_start_bound prefix start))
               (Some (calc_prefix_end_bound prefix end)) ord) (\<lambda>base.
     m_ret (map (trim_event prefix) base)))"

text \<open>\<open>Prefix::new\<close> and the deserialising iterators; \<open>kdec\<close> is the external \<open>KeyDeserialize::from_vec\<close>.\<close>

definition prefix_new :: "bytes \<Rightarrow> bytes list \<Rightarrow> (bytes, 'e) outcome" where
  "prefix_new top_name sub_names = nested_namespaces_with_key [top_name] sub_names []"

definition deserialize_v :: "'a codec \<Rightarrow> kv \<Rightarrow> (bytes \<times> 'a, std_error) outcome" where
  "deserialize_v c kv = o_bind (from_json c (snd kv)) (\<lambda>t. Ok (fst kv, t))"

definition deserialize_kv :: "(bytes \<Rightarrow> 'k option) \<Rightarrow> 'a codec \<Rightarrow> kv \<Rightarrow> ('k \<times> 'a, std_error) outcome" where
  "deserialize_kv kdec c kv =
     o_bind (of_option ParseErr (kdec (fst kv))) (\<lambda>kt.
     o_bind (from_json c (snd kv)) (\<lambda>vt. Ok (kt, vt)))"

fun plus_collect :: "(kv \<Rightarrow> ('b, std_error) outcome) \<Rightarrow> io_event list \<Rightarrow> (gas_meter, 'b list, plus_error) prog" where
  "plus_collect de [] = m_ret []"
| "plus_collect de (Charge_read p k v # es) =
     m_bind (m_gas (charge_read p k (Some v))) (\<lambda>_. plus_collect de es)"
| "plus_collect de (Yield k v # es) =
     m_bind (m_std (de (k, v))) (\<lambda>b.
     m_bind (plus_collect de es) (\<lambda>bs. m_ret (b # bs)))"
| "plus_collect de (Panics # es) = m_panic"

definition prefix_range ::
  "('s, 'z) reader_scheme \<Rightarrow> (bytes \<Rightarrow> 'k option) \<Rightarrow> 'a codec \<Rightarrow> bytes \<Rightarrow> raw_bound option \<Rightarrow> raw_bound option
     \<Rightarrow> Order \<Rightarrow> 's \<Rightarrow> (gas_meter, ('k \<times> 'a) list, plus_error) prog" where
  "prefix_range st kdec c storage_prefix lo hi ord s =
     m_bind (m_gas (range_with_prefix st storage_prefix lo hi ord s)) (\<lambda>es.
     plus_collect (deserialize_kv kdec c) es)"

definition prefix_range_raw ::
  "('s, 'z) reader_scheme \<Rightarrow> 'a codec \<Rightarrow> bytes \<Rightarrow> raw_bound option \<Rightarrow> raw_bound option
     \<Rightarrow> Order \<Rightarrow> 's \<Rightarrow> (gas_meter, (bytes \<times> 'a) list, plus_error) prog" where
  "prefix_range_raw st c storage_prefix lo hi ord s =
     m_bind (m_gas (range_with_prefix st storage_prefix lo hi ord s)) (\<lambda>es.
     plus_collect (deserialize_v c) es)"

definition prefix_keys ::
  "('s, 'z) reader_scheme \<Rightarrow> (bytes \<Rightarrow> 'k option) \<Rightarrow> 'a codec \<Rightarrow> bytes \<Rightarrow> raw_bound option \<Rightarrow> raw_bound option
     \<Rightarrow> Order \<Rightarrow> 's \<Rightarrow> (gas_meter, 'k list, plus_error) prog" where
  "prefix_keys st kdec c storage_prefix lo hi ord s =
     m_bind (m_gas (range_with_prefix st storage_prefix lo hi ord s)) (\<lambda>es.
     plus_collect (\<lambda>kv. o_bind (deserialize_kv kdec c kv) (\<lambda>ka. Ok (fst ka))) es)"

definition map_prefix_range ::
  "('s, 'z) reader_scheme \<Rightarrow> (bytes \<Rightarrow> 'k option) \<Rightarrow> 'a codec \<Rightarrow> bytes \<Rightarrow> bytes list \<Rightarrow> 's
     \<Rightarrow> (gas_meter, ('k \<times> 'a) list, plus_error) prog" where
  "map_prefix_range st kdec c namespace sub_names s =
     m_bind (m_lift (prefix_new namespace sub_names)) (\<lambda>p. prefix_range st kdec c p None None Ascending s)"

text \<open>\<open>u64::to_be_bytes\<close>, which is also the form of a \<open>u64\<close> as a storage key.\<close>

definition u64_to_be_bytes :: "nat \<Rightarrow> bytes" where
  "u64_to_be_bytes n = map (\<lambda>i. of_nat (n div 2 ^ (8 * (7 - i)))) [0..<8]"

definition u64_from_be_bytes :: "bytes \<Rightarrow> nat" where
  "u64_from_be_bytes b = fold (\<lambda>x n. 256 * n + unat x) b 0"

lemma u64_to_be_bytes_length [simp]: "length (u64_to_be_bytes n) = 8"
  by (simp add: u64_to_be_bytes_def)

section \<open>Keys do not collide\<close>

lemma path_new_Ok:
  "path_new n ks = Ok p \<longleftrightarrow>
     ks \<noteq> [] \<and> length n \<le> 0xFFFF \<and> (\<forall>k\<in>set (butlast ks). length k \<le> 0xFFFF) \<and>
     p = lp n @ concat (map lp (butlast ks)) @ last ks"
proof -
  have "to_length_prefixed_nested [n] = Ok q \<longleftrightarrow> length n \<le> 0xFFFF \<and> q = lp n" for q
    by (subst to_length_prefixed_nested_Ok) auto
  then show ?thesis
    by (auto simp: path_new_def nested_namespaces_with_key_def to_length_prefixed_nested_Ok
             simp del: to_length_prefixed_nested.simps)
qed

lemma path_new_inject:
  assumes "path_new n ks = Ok p" and "path_new n' ks' = Ok p"
  shows "n = n'" and "length ks = length ks' \<Longrightarrow> ks = ks'"
proof -
  note eq = assms [unfolded path_new_Ok]
  then have hd: "n = n' \<and> concat (map lp (butlast ks)) @ last ks = concat (map lp (butlast ks')) @ last ks'"
    by (intro lp_inject) auto
  then show "n = n'" by simp
  assume "length ks = length ks'"
  with hd eq have "butlast ks = butlast ks' \<and> last ks = last ks'"
    by (intro lp_nested_inject) auto
  with eq show "ks = ks'" by (metis append_butlast_last_id)
qed

section \<open>What a typed access means\<close>

text \<open>The typed contents of a store.\<close>

definition typed :: "'a codec \<Rightarrow> (bytes \<Rightarrow> bytes option) \<Rightarrow> bytes \<Rightarrow> 'a option" where
  "typed c m k = (case m k of None \<Rightarrow> None | Some b \<Rightarrow> dec c b)"

lemma typed_upd:
  "codec_ok c \<Longrightarrow> enc c a = Some b \<Longrightarrow> typed c (m(k \<mapsto> b)) = (typed c m)(k \<mapsto> a)"
proof
  fix x
  assume "codec_ok c" "enc c a = Some b"
  then have "dec c b = Some a" by (metis codec_ok_def option.inject)
  then show "typed c (m(k \<mapsto> b)) x = ((typed c m)(k \<mapsto> a)) x" by (simp add: typed_def)
qed

lemma m_std_run [plus_simps]:
  "m_std r s = (Ok a, t) \<longleftrightarrow> r = Ok a \<and> t = s"
  "m_std r s = (Err x, t) \<longleftrightarrow> (\<exists>e. r = Err e \<and> x = Plus_Std e) \<and> t = s"
  "m_std r s = (Panic, t) \<longleftrightarrow> r = Panic \<and> t = s"
  by (auto simp: m_std_def run_simps)

lemma m_gas_run [plus_simps]:
  "m_gas p s = (Ok a, t) \<longleftrightarrow> p s = (Ok a, t)"
  "m_gas p s = (Err x, t) \<longleftrightarrow> (\<exists>e. p s = (Err e, t) \<and> x = Plus_Gas e)"
  "m_gas p s = (Panic, t) \<longleftrightarrow> p s = (Panic, t)"
  by (auto simp: m_gas_def run_simps)

lemma may_deserialize_Ok [plus_simps]:
  "may_deserialize c v = Ok r \<longleftrightarrow> (case v of None \<Rightarrow> r = None | Some b \<Rightarrow> r = dec c b \<and> r \<noteq> None)"
  by (auto simp: may_deserialize_def from_json_def split: option.splits)

lemma must_deserialize_Ok [plus_simps]:
  "must_deserialize c v = Ok a \<longleftrightarrow> (\<exists>b. v = Some b \<and> dec c b = Some a)"
  by (auto simp: must_deserialize_def from_json_def split: option.splits)

lemma preserves_m_std [intro]: "preserves I (m_std r)"
  by (auto simp: m_std_def)

lemma preserves_m_gas [intro]: "preserves I p \<Longrightarrow> preserves I (m_gas p)"
  by (auto simp: m_gas_def)

context reader_laws
begin

lemma get_viewD: "rd_get rd s k g = (Ok v, g') \<Longrightarrow> inv s \<Longrightarrow> view s k = v"
  using get_view by metis

lemma path_may_load_view:
  "\<lbrakk>path_may_load rd c k s g = (Ok r, g'); inv s\<rbrakk> \<Longrightarrow>
     r = typed c (view s) k \<and> (r = None \<longleftrightarrow> view s k = None)"
  by (auto simp: path_may_load_def m_bind_Ok plus_simps typed_def split: option.splits dest!: get_viewD)

lemma path_load_view:
  "\<lbrakk>path_load rd c k s g = (Ok a, g'); inv s\<rbrakk> \<Longrightarrow> typed c (view s) k = Some a"
  by (auto simp: path_load_def m_bind_Ok plus_simps typed_def dest!: get_viewD)

lemma path_has_view:
  "\<lbrakk>path_has rd k s g = (Ok b, g'); inv s\<rbrakk> \<Longrightarrow> b \<longleftrightarrow> view s k \<noteq> None"
  by (auto simp: path_has_def m_bind_Ok dest!: get_viewD)

lemma path_may_load_meter: "preserves (meter_le g0) (path_may_load rd c k s)"
  by (auto simp: path_may_load_def intro!: preserves_bind preserves_m_gas get_meter)

end

context storage_laws
begin

lemma set_okD: "st_set rd k v (s, g) = (Ok u, (s', g')) \<Longrightarrow> inv s \<Longrightarrow> inv s' \<and> view s' = (view s)(k \<mapsto> v)"
  using set_ok by blast

lemma path_save_view:
  "\<lbrakk>path_save rd c k a (s, g) = (Ok u, (s', g')); inv s\<rbrakk> \<Longrightarrow>
     inv s' \<and> (\<exists>b. enc c a = Some b \<and> view s' = (view s)(k \<mapsto> b))"
  by (auto simp: path_save_def m_bind_Ok plus_simps to_json_vec_def dest!: set_okD)

lemma path_save_fail:
  "\<lbrakk>path_save rd c k a (s, g) = (r, (s', g')); r \<noteq> Ok ()\<rbrakk> \<Longrightarrow> s' = s"
  by (cases r)
    (auto simp: path_save_def m_bind_Err m_bind_Panic plus_simps to_json_vec_def dest: set_fail)

lemma m_read_state: "m_map_err conv (m_read p) (s, g) = (r, (s', g')) \<Longrightarrow> s' = s"
  by (auto simp: m_map_err_def m_read_def split: prod.splits outcome.splits)

lemma path_update_view:
  assumes "path_update rd c conv k action (s, g) = (Ok out, (s', g'))" and "inv s"
  shows "action (typed c (view s) k) = Ok out"
    and "inv s' \<and> (\<exists>b. enc c out = Some b \<and> view s' = (view s)(k \<mapsto> b))"
proof -
  from assms(1) obtain inp g1 g2 where
    load: "path_may_load rd c k s g = (Ok inp, g1)" and act: "action inp = Ok out"
    and save: "path_save rd c k out (s, g1) = (Ok (), (s', g'))"
    by (auto simp: path_update_def m_bind_Ok m_map_err_Ok)
  from path_may_load_view [OF load assms(2)] act show "action (typed c (view s) k) = Ok out" by simp
  from path_save_view [OF save assms(2)]
  show "inv s' \<and> (\<exists>b. enc c out = Some b \<and> view s' = (view s)(k \<mapsto> b))" .
qed

lemma path_update_fail:
  assumes "path_update rd c conv k action (s, g) = (r, (s', g'))" and "\<forall>a. r \<noteq> Ok a"
  shows "s' = s"
proof (cases r)
  case (Ok a)
  with assms(2) show ?thesis by simp
next
  case (Err e)
  with assms(1) show ?thesis
    by (auto simp: path_update_def m_bind_Err m_map_err_Err dest!: path_save_fail m_read_state)
next
  case Panic
  with assms(1) show ?thesis
    by (auto simp: path_update_def m_bind_Panic m_map_err_Panic dest!: path_save_fail m_read_state)
qed

text \<open>Save and load round-trip.\<close>

lemma save_then_load:
  assumes "inv s" "codec_ok c" "path_save rd c k a (s, g) = (Ok u, (s', g'))" "path_load rd c k s' h = (Ok a', h')"
  shows "a' = a"
  using path_save_view [OF assms(3,1)] path_load_view [OF assms(4)] assms(2) by (auto simp: typed_upd)

end

section \<open>What a range over a prefix returns\<close>

lemma extend_one_byte_le: "extend_one_byte x \<le> y \<longleftrightarrow> x < (y::bytes)"
  unfolding extend_one_byte_def
proof (induction x arbitrary: y)
  case Nil
  then show ?case by (cases y) (auto simp: word_gt_0)
next
  case (Cons a x)
  then show ?case by (cases y) auto
qed

definition in_raw_bounds :: "raw_bound option \<Rightarrow> raw_bound option \<Rightarrow> bytes \<Rightarrow> bool" where
  "in_raw_bounds start end x \<longleftrightarrow>
     (case start of None \<Rightarrow> True | Some (Inclusive l) \<Rightarrow> l \<le> x | Some (Exclusive l) \<Rightarrow> l < x) \<and>
     (case end of None \<Rightarrow> True | Some (Inclusive l) \<Rightarrow> x \<le> l | Some (Exclusive l) \<Rightarrow> x < l)"

fun raw_start :: "raw_bound \<Rightarrow> bytes" where
  "raw_start (Inclusive l) = l" | "raw_start (Exclusive l) = extend_one_byte l"

fun raw_end :: "raw_bound \<Rightarrow> bytes" where
  "raw_end (Inclusive l) = extend_one_byte l" | "raw_end (Exclusive l) = l"

lemma in_raw_bounds_iff:
  "in_raw_bounds a b x \<longleftrightarrow> in_bounds (map_option raw_start a) (map_option raw_end b) x"
proof -
  have "x < extend_one_byte l \<longleftrightarrow> x \<le> l" for l :: bytes
    using extend_one_byte_le [of l x] by (metis linorder_not_less)
  then show ?thesis
    by (auto simp: in_raw_bounds_def in_bounds_def extend_one_byte_le split: option.splits raw_bound.splits)
qed

lemma range_with_prefix_prefixed:
  "range_with_prefix st p a b ord s = prefixed_range st p s (map_option raw_start a) (map_option raw_end b) ord"
  by (auto simp: range_with_prefix_def prefixed_range_def prefixed_bounds_def calc_start_bound_def
        calc_end_bound_def increment_last_byte_def namespace_upper_bound_def
        split: option.splits raw_bound.splits)

lemma plus_collect_Ok:
  "plus_collect de es g = (Ok bs, g') \<Longrightarrow> list_all2 (\<lambda>kv b. de kv = Ok b) (yields es) bs"
  by (induction de es arbitrary: bs g rule: plus_collect.induct) (auto simp: m_bind_Ok plus_simps)

context reader_laws
begin

lemma prefix_range_view:
  assumes "p \<noteq> []" "last p \<noteq> 255" "inv s"
    and run: "prefix_range rd kdec c p a b ord s g = (Ok bs, g')"
  shows "\<exists>ys. is_range (\<lambda>x. view s (p @ x)) (map_option raw_start a) (map_option raw_end b) ord ys \<and>
              list_all2 (\<lambda>(k, v) (k', t). kdec k = Some k' \<and> dec c v = Some t) ys bs"
proof -
  from run obtain es g1 where
    es: "prefixed_range rd p s (map_option raw_start a) (map_option raw_end b) ord g = (Ok es, g1)"
    and bs: "plus_collect (deserialize_kv kdec c) es g1 = (Ok bs, g')"
    by (auto simp: prefix_range_def m_bind_Ok plus_simps range_with_prefix_prefixed)
  have "list_all2 (\<lambda>(k, v) (k', t). kdec k = Some k' \<and> dec c v = Some t) (yields es) bs"
    using plus_collect_Ok [OF bs]
    by (rule list_all2_mono) (auto simp: deserialize_kv_def from_json_def)
  with prefixed_range_view [OF assms(1-3) es] show ?thesis by blast
qed

end

lemmas plus_exec = to_json_vec_def from_json_def may_deserialize_def must_deserialize_def m_std_def m_gas_def
  nested_namespaces_with_key_def path_new_def path_save_def path_load_def path_may_load_def path_has_def
  path_remove_def path_update_def map_key_def map_update_def map_save_def map_load_def map_may_load_def
  map_has_def map_remove_def item_save_def item_load_def item_may_load_def

text \<open>A codec for naturals that satisfies \<open>codec_ok\<close>, used to run the model.\<close>

definition unary_codec :: "nat codec" where
  "unary_codec = \<lparr>enc = \<lambda>n. Some (replicate n 0), dec = \<lambda>b. Some (length b)\<rparr>"

lemma unary_codec_ok: "codec_ok unary_codec"
  by (simp add: codec_ok_def unary_codec_def)

text \<open>Self-delimiting byte strings, for codecs of records.\<close>

definition str_enc :: "bytes \<Rightarrow> bytes" where
  "str_enc x = replicate (length x) 1 @ [0] @ x"

definition str_dec :: "bytes \<Rightarrow> bytes \<times> bytes" where
  "str_dec b = (let n = length (takeWhile ((=) 1) b); rest = drop (n + 1) b in (take n rest, drop n rest))"

lemma str_roundtrip [simp]: "str_dec (str_enc x @ y) = (x, y)" "str_dec (str_enc x) = (x, [])"
proof -
  have "takeWhile ((=) (1 :: byte)) (replicate n 1 @ [0] @ z) = replicate n 1" for n z
    by (induction n) auto
  then show "str_dec (str_enc x @ y) = (x, y)" for y by (simp add: str_dec_def str_enc_def Let_def)
  from this [of "[]"] show "str_dec (str_enc x) = (x, [])" by simp
qed

lemma str_enc_length [simp]: "length (str_enc x) = 2 * length x + 1"
  by (simp add: str_enc_def)

definition fields_enc :: "bytes list \<Rightarrow> bytes" where
  "fields_enc xs = concat (map str_enc xs)"

fun fields_dec :: "nat \<Rightarrow> bytes \<Rightarrow> bytes list" where
  "fields_dec 0 b = []"
| "fields_dec (Suc n) b = (case str_dec b of (x, r) \<Rightarrow> x # fields_dec n r)"

lemma fields_roundtrip [simp]: "fields_dec (length xs) (fields_enc xs) = xs"
  by (induction xs) (simp_all add: fields_enc_def)

lemma fields_enc_length: "length (fields_enc xs) = sum_list (map (\<lambda>x. 2 * length x + 1) xs)"
  by (induction xs) (simp_all add: fields_enc_def)

definition list_enc :: "bytes list \<Rightarrow> bytes" where
  "list_enc xs = str_enc (replicate (length xs) 0) @ fields_enc xs"

definition list_dec :: "bytes \<Rightarrow> bytes list" where
  "list_dec b = (case str_dec b of (n, r) \<Rightarrow> fields_dec (length n) r)"

lemma list_roundtrip [simp]: "list_dec (list_enc xs) = xs"
  by (simp add: list_dec_def list_enc_def)

definition int_enc :: "int \<Rightarrow> bytes" where
  "int_enc i = (if 0 \<le> i then 0 # replicate (nat i) 0 else 1 # replicate (nat (- i)) 0)"

definition int_dec :: "bytes \<Rightarrow> int" where
  "int_dec b = (if hd b = 0 then int (length (tl b)) else - int (length (tl b)))"

lemma int_roundtrip [simp]: "int_dec (int_enc i) = i"
  by (simp add: int_dec_def int_enc_def)

section \<open>Properties\<close>

text \<open>
  Two typed maps never share a raw key, nor do two keys of one map: the raw key determines
  the namespace and, for key tuples of the same arity, every component.
\<close>

lemma map_keys_disjoint:
  assumes "map_key n ks = Ok p" and "map_key n' ks' = Ok p" and "length ks = length ks'"
  shows "n = n' \<and> ks = ks'"
  using path_new_inject [OF assms(1,2) [unfolded map_key_def]] assms(3) by simp

text \<open>
  C20. A typed value that was saved is the one loaded, for a value codec that reads back what it
  wrote; every other key keeps its typed contents, and a failing save changes nothing.
\<close>

theorem typed_save_load:
  assumes "tx_inv so" "codec_ok c" "path_save tx_store c k a (so, g) = (r, (so', g'))"
  shows "if r = Ok () then (\<forall>h a' h'. path_load tx_store c k so' h = (Ok a', h') \<longrightarrow> a' = a) \<and>
      (\<forall>k' h b h'. k' \<noteq> k \<longrightarrow> path_may_load tx_store c k' so' h = (Ok b, h') \<longrightarrow> b = typed c (tx_view so) k')
    else so' = so"
proof (cases "r = Ok ()")
  case False
  with metered_tx.path_save_fail [OF assms(3)] show ?thesis by simp
next
  case True
  note save = assms(3) [unfolded True]
  have "a' = a" if "path_load tx_store c k so' h = (Ok a', h')" for h a' h'
    using metered_tx.save_then_load [OF assms(1,2) save that] .
  moreover have "b = typed c (tx_view so) k'"
    if "k' \<noteq> k" "path_may_load tx_store c k' so' h = (Ok b, h')" for k' h b h'
    using metered_tx.path_save_view [OF save assms(1)] metered_tx.path_may_load_view [OF that(2)] that(1)
    by (auto simp: typed_def)
  ultimately show ?thesis using True by auto
qed

theorem typed_save_load_witness:
  "fst (path_load tx_store unary_codec [1]
     (fst (snd (path_save tx_store unary_codec [1] 3 (empty_tx, gas_meter_new 10000)))) (gas_meter_new 10000)) = Ok 3"
proof -
  let ?w = "path_save tx_store unary_codec [1] 3 (empty_tx, gas_meter_new 10000)"
  let ?r = "path_load tx_store unary_codec [1] (fst (snd ?w)) (gas_meter_new 10000)"
  note exec = empty_tx_def unary_codec_def plus_exec prog_exec gas_exec store_exec Let_def
  have "\<exists>n. fst ?r = Ok n" by (simp add: exec)
  then obtain n where n: "?r = (Ok n, snd ?r)" by (metis prod.collapse)
  have w: "?w = (fst ?w, (fst (snd ?w), snd (snd ?w)))" and ok: "fst ?w = Ok ()"
    by simp (simp add: exec)
  have "tx_inv empty_tx" by (simp add: empty_tx_def btree_storage_new_def)
  from typed_save_load [OF this unary_codec_ok w] ok n have "n = 3" by metis
  with n show ?thesis by (metis fst_conv)
qed


definition prefix_tx :: tx_state where
  "prefix_tx = ((btree_storage_new, [([7, 1], Delta_Set [0]), ([8], Delta_Set [])]), [([7, 2], Delta_Set [0, 0])])"


end
