(* ===== verification/Std_Types.thy ===== *)
theory Std_Types
  imports Plus
begin

text \<open>
  The vocabulary of \<open>packages/std/src/\<close> and the error type of \<open>packages/app/src/error.rs\<close>:
  account ids, coins, public keys, messages and transactions.

  Strings are their UTF-8 bytes. \<open>bech32\<close>, \<open>sha2\<close>, \<open>ripemd\<close> and the signature verifiers are
  external and gathered in the record \<open>crypto\<close>. \<open>Uint128\<close> is a natural number below
  \<open>2 ^ 128\<close> with its two operations: \<open>+\<close> panics on overflow, \<open>checked_sub\<close> returns nothing on
  underflow.
\<close>

type_synonym account_id = bytes
type_synonym denom = bytes

section \<open>External cryptography\<close>

datatype bech32_variant = Bech32 | Bech32m

datatype mayo_variant = Mayo1 | Mayo2 | Mayo3 | Mayo5

record crypto =
  c_sha256 :: "bytes \<Rightarrow> bytes"
  c_ripemd160 :: "bytes \<Rightarrow> bytes"
  c_bech32_decode :: "bytes \<Rightarrow> (bytes \<times> bytes \<times> bech32_variant) option"
  c_from_base32 :: "bytes \<Rightarrow> bytes option"
  c_bech32_encode :: "bytes \<Rightarrow> bytes"
  c_secp256k1_verify :: "bytes \<Rightarrow> bytes \<Rightarrow> bytes \<Rightarrow> bool option"
  c_ed25519_verify :: "bytes \<Rightarrow> bytes \<Rightarrow> bytes \<Rightarrow> bool option"
  c_mayo_verify :: "mayo_variant \<Rightarrow> bytes \<Rightarrow> bytes \<Rightarrow> bytes \<Rightarrow> bool option"

section \<open>Amounts\<close>

definition u128_max :: nat where
  "u128_max = 2 ^ 128 - 1"

definition u128_add :: "nat \<Rightarrow> nat \<Rightarrow> (nat, 'e) outcome" where
  "u128_add a b = (if a + b \<le> u128_max then Ok (a + b) else Panic)"

definition u128_checked_sub :: "nat \<Rightarrow> nat \<Rightarrow> (nat, plus_error) outcome" where
  "u128_checked_sub a b = (if b \<le> a then Ok (a - b) else Err (Plus_Std Overflow))"

record coin =
  coin_denom :: denom
  coin_amount :: nat

section \<open>Errors\<close>

datatype account_id_error = Bech32_Error | InvalidVariant | InvalidPrefix bytes | InvalidLength nat

datatype auth_error = InvalidSignature_Auth | AccountExists account_id

datatype bank_error =
    InsufficientFunds account_id
  | UnsupportedQuery bytes
  | NoEmptyTransfer
  | Unauthorized
  | DuplicateDenom denom
  | ReinitializeExistingAccount account_id

datatype wasm_error =
    SenderMismatch
  | Unauthorized_Wasm
  | InvalidAttributeKey bytes
  | Vm
  | Contract
  | Instantiate2Error
  | Checksum
  | SubMsgNotSupported
  | NotRoot
  | UnsupportedCosmosMsg

datatype ibc_error =
    ClientExists bytes
  | ClientNotFound bytes
  | ConnectionExists bytes
  | ConnectionNotFound bytes
  | ConnectionNotOpen bytes
  | ChannelExists bytes bytes
  | ChannelNotFound bytes bytes
  | ChannelNotOpen bytes bytes
  | InvalidState
  | Unauthorized_Ibc account_id
  | InvalidCommitment
  | Invalid

datatype msg_error =
    Msg_Std std_error
  | UnsupportedAnyType bytes
  | NoMessages
  | MultipleSigners_Msg
  | Msg_Addr account_id_error
  | Msg_ParseError

datatype tx_error =
    Tx_Msg msg_error
  | NoSigner
  | MultipleSigners
  | MultipleFeeDenoms
  | UnsupportedPubKey
  | UnsupportedSigningMode
  | ExtensionsNotSupported
  | FeeGrantNotSupported
  | FeePayerNotSupported
  | MissingPubKey
  | InvalidSignature
  | InvalidSequence nat nat
  | PubKeyMismatch
  | PubKeyMissing
  | InternalAcccount
  | SmartAccountSigner
  | TxExpired nat nat
  | Tx_ParseError
  | InsufficientFee nat nat denom nat

datatype query_error = Query_Std std_error | UnsupportedPath | Query_ParseError

datatype pulsar_error =
    PE_Std std_error
  | PE_Auth auth_error
  | PE_AccountId account_id_error
  | PE_Bank bank_error
  | PE_Wasm wasm_error
  | PE_Ibc ibc_error
  | PE_Query query_error
  | PE_Tx tx_error
  | PE_Gas gas_error
  | BadBlockHeight nat nat
  | DescendingBlockTime nat nat
  | ExceedsRemainingBlockGas nat nat

text \<open>\<open>From<PlusError> for PulsarError\<close>.\<close>

fun pulsar_of_plus :: "plus_error \<Rightarrow> pulsar_error" where
  "pulsar_of_plus (Plus_Gas e) = PE_Gas e"
| "pulsar_of_plus (Plus_Std e) = PE_Std e"

section \<open>Account ids\<close>

definition BECH32_PREFIX :: bytes where
  "BECH32_PREFIX = ascii ''juno''"

definition VALID_ADDR_LENGTH :: "nat list" where
  "VALID_ADDR_LENGTH = [20, 32]"

definition account_id_new :: "bytes \<Rightarrow> (account_id, account_id_error) outcome" where
  "account_id_new raw =
     (if length raw \<notin> set VALID_ADDR_LENGTH then Err (InvalidLength (length raw)) else Ok raw)"

text \<open>
  \<open>AccountId::parse_string\<close>. The checksum is verified by \<open>bech32::decode\<close>; regrouping the
  five-bit data into bytes (\<open>from_base32\<close>) can still fail, on bad padding, and is unwrapped.
\<close>

definition account_id_parse_string :: "crypto \<Rightarrow> bytes \<Rightarrow> (account_id, account_id_error) outcome" where
  "account_id_parse_string cr encoded =
     (case c_bech32_decode cr encoded of
        None \<Rightarrow> Err Bech32_Error
      | Some (hrp, data, variant) \<Rightarrow>
          if variant \<noteq> Bech32 then Err InvalidVariant
          else if hrp \<noteq> BECH32_PREFIX then Err (InvalidPrefix hrp)
          else (case c_from_base32 cr data of
                  None \<Rightarrow> Panic
                | Some addr \<Rightarrow>
                    if length addr \<notin> set VALID_ADDR_LENGTH then Err (InvalidLength (length addr))
                    else Ok addr))"

section \<open>Public keys\<close>

datatype pub_key =
    Ed25519 bytes
  | Secp256k1 bytes
  | HybridSecp256k1Mayo bytes mayo_variant bytes

fun mayo_byte :: "mayo_variant \<Rightarrow> byte" where
  "mayo_byte Mayo1 = 1" | "mayo_byte Mayo2 = 2" | "mayo_byte Mayo3 = 3" | "mayo_byte Mayo5 = 5"

definition mayo_from_byte :: "byte \<Rightarrow> mayo_variant option" where
  "mayo_from_byte b =
     (if b = 1 then Some Mayo1 else if b = 2 then Some Mayo2
      else if b = 3 then Some Mayo3 else if b = 5 then Some Mayo5 else None)"

definition HYBRID_ACCOUNT_DOMAIN :: bytes where
  "HYBRID_ACCOUNT_DOMAIN = ascii ''junoclaw-hybrid-v1''"

definition SECP256K1_SIG_BYTES :: nat where
  "SECP256K1_SIG_BYTES = 64"

fun to_hybrid_any_bytes :: "pub_key \<Rightarrow> bytes option" where
  "to_hybrid_any_bytes (HybridSecp256k1Mayo secp variant mayo_pk) =
     (if length secp \<le> 255
      then Some (mayo_byte variant # of_nat (length secp) # secp @ mayo_pk) else None)"
| "to_hybrid_any_bytes (Ed25519 _) = None"
| "to_hybrid_any_bytes (Secp256k1 _) = None"

text \<open>\<open>bytes.get(2..2 + secp_len)\<close> is \<open>None\<close> when the slice is out of range.\<close>

fun from_hybrid_any_bytes :: "bytes \<Rightarrow> pub_key option" where
  "from_hybrid_any_bytes (b # l # rest) =
     (case mayo_from_byte b of
        None \<Rightarrow> None
      | Some variant \<Rightarrow>
          let secp_len = unat l in
          if secp_len > length rest then None
          else let secp = take secp_len rest; mayo_pk = drop secp_len rest
               in if secp = [] \<or> mayo_pk = [] then None
                  else Some (HybridSecp256k1Mayo secp variant mayo_pk))"
| "from_hybrid_any_bytes [b] = None"
| "from_hybrid_any_bytes [] = None"

definition pack_hybrid_signature :: "bytes \<Rightarrow> bytes \<Rightarrow> bytes" where
  "pack_hybrid_signature secp256k1_sig mayo_sig = secp256k1_sig @ mayo_sig"

fun validate_signature :: "crypto \<Rightarrow> pub_key \<Rightarrow> bytes \<Rightarrow> bytes \<Rightarrow> (unit, tx_error) outcome" where
  "validate_signature cr (Secp256k1 pk) message_hash signature =
     (if c_secp256k1_verify cr message_hash signature pk = Some True then Ok () else Err InvalidSignature)"
| "validate_signature cr (HybridSecp256k1Mayo secp variant mayo_pk) message_hash signature =
     (if length signature < SECP256K1_SIG_BYTES then Err InvalidSignature
      else let secp_sig = take SECP256K1_SIG_BYTES signature;
               mayo_sig = drop SECP256K1_SIG_BYTES signature;
               secp_ok = (c_secp256k1_verify cr message_hash secp_sig secp = Some True);
               mayo_ok = (c_mayo_verify cr variant message_hash mayo_sig mayo_pk = Some True)
           in if secp_ok \<and> mayo_ok then Ok () else Err InvalidSignature)"
| "validate_signature cr (Ed25519 pk) message_hash signature =
     (if c_ed25519_verify cr message_hash signature pk = Some True then Ok () else Err InvalidSignature)"

fun pub_key_account_id :: "crypto \<Rightarrow> pub_key \<Rightarrow> (account_id, account_id_error) outcome" where
  "pub_key_account_id cr (Secp256k1 pk) = account_id_new (c_ripemd160 cr (c_sha256 cr pk))"
| "pub_key_account_id cr (HybridSecp256k1Mayo secp variant mayo_pk) =
     (case to_hybrid_any_bytes (HybridSecp256k1Mayo secp variant mayo_pk) of
        None \<Rightarrow> Err (InvalidLength (length secp))
      | Some wire \<Rightarrow> account_id_new (c_ripemd160 cr (c_sha256 cr (HYBRID_ACCOUNT_DOMAIN @ wire))))"
| "pub_key_account_id cr (Ed25519 pk) = account_id_new (take 20 (c_sha256 cr pk))"

section \<open>Messages\<close>

datatype bank_msg = Send account_id account_id "coin list" | Burn account_id "coin list"

datatype wasm_msg =
    StoreCode account_id bytes
  | Execute account_id account_id bytes "coin list"
  | Instantiate account_id "account_id option" nat bytes "coin list" bytes
  | Instantiate2 account_id "account_id option" nat bytes bytes "coin list" bytes
  | Migrate account_id account_id nat bytes
  | UpdateAdmin account_id account_id account_id
  | ClearAdmin account_id account_id
  | Sudo account_id account_id bytes
  | Pin account_id nat
  | Unpin account_id nat

datatype ibc_msg =
    CreateClient account_id bytes bytes nat
  | UpdateClient account_id bytes nat
  | ConnectionOpenInit account_id bytes bytes bytes bytes bytes
  | ConnectionOpenAck account_id bytes bytes bytes nat
  | ChannelOpenInit account_id bytes bytes bytes bytes bytes bytes bytes
  | ChannelOpenAck account_id bytes bytes bytes bytes bytes nat
  | Transfer account_id bytes bytes coin bytes nat nat
  | Acknowledgement account_id bytes bytes nat bytes bytes nat
  | Timeout account_id bytes bytes nat bytes nat

datatype msg = Msg_Bank bank_msg | Msg_Wasm wasm_msg | Msg_Ibc ibc_msg

fun msg_required_signer :: "msg \<Rightarrow> account_id" where
  "msg_required_signer (Msg_Bank (Send sender _ _)) = sender"
| "msg_required_signer (Msg_Bank (Burn sender _)) = sender"
| "msg_required_signer (Msg_Wasm (Execute sender _ _ _)) = sender"
| "msg_required_signer (Msg_Wasm (Instantiate sender _ _ _ _ _)) = sender"
| "msg_required_signer (Msg_Wasm (Instantiate2 sender _ _ _ _ _ _)) = sender"
| "msg_required_signer (Msg_Wasm (Migrate sender _ _ _)) = sender"
| "msg_required_signer (Msg_Wasm (Sudo sender _ _)) = sender"
| "msg_required_signer (Msg_Wasm (UpdateAdmin sender _ _)) = sender"
| "msg_required_signer (Msg_Wasm (ClearAdmin sender _)) = sender"
| "msg_required_signer (Msg_Wasm (StoreCode sender _)) = sender"
| "msg_required_signer (Msg_Wasm (Pin sender _)) = sender"
| "msg_required_signer (Msg_Wasm (Unpin sender _)) = sender"
| "msg_required_signer (Msg_Ibc (CreateClient sender _ _ _)) = sender"
| "msg_required_signer (Msg_Ibc (UpdateClient sender _ _)) = sender"
| "msg_required_signer (Msg_Ibc (ConnectionOpenInit sender _ _ _ _ _)) = sender"
| "msg_required_signer (Msg_Ibc (ConnectionOpenAck sender _ _ _ _)) = sender"
| "msg_required_signer (Msg_Ibc (ChannelOpenInit sender _ _ _ _ _ _ _)) = sender"
| "msg_required_signer (Msg_Ibc (ChannelOpenAck sender _ _ _ _ _ _)) = sender"
| "msg_required_signer (Msg_Ibc (Transfer sender _ _ _ _ _ _)) = sender"
| "msg_required_signer (Msg_Ibc (Acknowledgement sender _ _ _ _ _ _)) = sender"
| "msg_required_signer (Msg_Ibc (Timeout sender _ _ _ _ _)) = sender"

text \<open>\<open>Itertools::dedup\<close> drops consecutive duplicates; \<open>remdups_adj\<close> is that function.\<close>

definition required_signer :: "msg list \<Rightarrow> (account_id, msg_error) outcome" where
  "required_signer msgs =
     (let signers = remdups_adj (map msg_required_signer msgs)
      in if length signers > 1 then Err MultipleSigners_Msg
         else if signers = [] then Err NoMessages else Ok (last signers))"

section \<open>Transactions\<close>

record signing_info =
  message_hash :: bytes
  sequence_no :: nat
  si_pubkey :: "pub_key option"
  signature :: bytes

record fee_info =
  fee :: "coin option"
  gas_limit :: nat

record signed_tx =
  msgs :: "msg list"
  signer :: account_id
  signing :: signing_info
  tx_fee :: fee_info
  timeout_height :: "nat option"
  raw_tx :: bytes

definition tx_len :: "signed_tx \<Rightarrow> nat" where
  "tx_len tx = length (raw_tx tx)"

definition tx_hash :: "crypto \<Rightarrow> signed_tx \<Rightarrow> bytes" where
  "tx_hash cr tx = c_sha256 cr (raw_tx tx)"

record block_info =
  bi_height :: nat
  bi_time :: nat
  bi_chain_id :: bytes

section \<open>Lemmas\<close>

lemma u128_add_Ok [simp]: "u128_add a b = Ok c \<longleftrightarrow> c = a + b \<and> a + b \<le> u128_max"
  by (auto simp: u128_add_def)

lemma u128_add_not_Err [simp]: "u128_add a b \<noteq> Err e"
  by (simp add: u128_add_def)

lemma u128_checked_sub_Ok [simp]: "u128_checked_sub a b = Ok c \<longleftrightarrow> b \<le> a \<and> c = a - b"
  by (auto simp: u128_checked_sub_def)

lemma account_id_new_Ok [simp]: "account_id_new r = Ok a \<longleftrightarrow> a = r \<and> length r \<in> {20, 32}"
  by (auto simp: account_id_new_def VALID_ADDR_LENGTH_def)

lemma account_id_parse_string_Ok:
  "account_id_parse_string cr e = Ok a \<Longrightarrow> length a \<in> {20, 32}"
  by (auto simp: account_id_parse_string_def VALID_ADDR_LENGTH_def split: option.splits if_splits)

lemma mayo_from_byte_byte [simp]: "mayo_from_byte (mayo_byte v) = Some v"
  by (cases v) (simp_all add: mayo_from_byte_def)

lemma mayo_byte_from_byte: "mayo_from_byte b = Some v \<Longrightarrow> mayo_byte v = b"
  by (auto simp: mayo_from_byte_def split: if_splits)

lemma remdups_adj_singleton_iff:
  "length (remdups_adj xs) \<le> 1 \<longleftrightarrow> (\<forall>x\<in>set xs. \<forall>y\<in>set xs. x = y)"
proof
  assume "length (remdups_adj xs) \<le> 1"
  then have "length (remdups_adj xs) = 0 \<or> length (remdups_adj xs) = 1" by linarith
  then show "\<forall>x\<in>set xs. \<forall>y\<in>set xs. x = y"
    by (metis One_nat_def insert_iff length_0_conv length_Suc_conv list.set(1,2) empty_iff remdups_adj_set)
next
  assume all: "\<forall>x\<in>set xs. \<forall>y\<in>set xs. x = y"
  show "length (remdups_adj xs) \<le> 1"
  proof (cases xs)
    case Nil
    then show ?thesis by simp
  next
    case (Cons x ys)
    with all have "xs = replicate (length xs) x"
      by (metis list.set_intros(1) replicate_length_same)
    then show ?thesis by (metis One_nat_def eq_imp_le le_SucI length_0_conv length_Cons list.size(3) nat_le_linear remdups_adj_replicate zero_le)
  qed
qed

section \<open>Properties\<close>

text \<open>
  C22. The wire form of a hybrid public key and its parser are inverse to each other: a key with
  both parts present and a classical part of at most 255 bytes is read back, and whatever the
  parser accepts is written back byte for byte.
\<close>

theorem hybrid_key_roundtrip:
  "(secp \<noteq> [] \<and> mayo_pk \<noteq> [] \<and> to_hybrid_any_bytes (HybridSecp256k1Mayo secp v mayo_pk) = Some bs \<longrightarrow>
     from_hybrid_any_bytes bs = Some (HybridSecp256k1Mayo secp v mayo_pk)) \<and>
   (from_hybrid_any_bytes bs = Some k \<longrightarrow> to_hybrid_any_bytes k = Some bs)"
proof (intro conjI impI; (elim conjE)?)
  assume "secp \<noteq> []" "mayo_pk \<noteq> []" "to_hybrid_any_bytes (HybridSecp256k1Mayo secp v mayo_pk) = Some bs"
  then show "from_hybrid_any_bytes bs = Some (HybridSecp256k1Mayo secp v mayo_pk)"
    by (auto simp: unat_of_nat Let_def split: if_splits)
next
  assume "from_hybrid_any_bytes bs = Some k"
  then obtain b l rest v where bs: "bs = b # l # rest" "mayo_from_byte b = Some v" "unat l \<le> length rest"
    and k: "k = HybridSecp256k1Mayo (take (unat l) rest) v (drop (unat l) rest)"
    by (cases bs rule: from_hybrid_any_bytes.cases) (auto simp: Let_def split: option.splits if_splits)
  from bs k mayo_byte_from_byte [OF bs(2)] unat_byte [of l] show "to_hybrid_any_bytes k = Some bs"
    by (simp add: min_def)
qed

theorem hybrid_key_roundtrip_witness:
  "from_hybrid_any_bytes [2, 1, 7, 9] = Some (HybridSecp256k1Mayo [7] Mayo2 [9]) \<and>
   to_hybrid_any_bytes (HybridSecp256k1Mayo [7] Mayo2 [9]) = Some [2, 1, 7, 9]"
  using hybrid_key_roundtrip [of "[7]" "[9]" Mayo2 "[2, 1, 7, 9]" "HybridSecp256k1Mayo [7] Mayo2 [9]"]
  by simp

text \<open>
  The signer of a transaction's messages: accepted exactly when there is a message and one
  account is the required signer of all of them.
\<close>

lemma required_signer_unique:
  "required_signer ms = Ok a \<longleftrightarrow> ms \<noteq> [] \<and> (\<forall>m\<in>set ms. msg_required_signer m = a)"
proof -
  let ?xs = "map msg_required_signer ms"
  have len: "length (remdups_adj ?xs) \<le> 1 \<longleftrightarrow> (\<forall>x\<in>set ?xs. \<forall>y\<in>set ?xs. x = y)"
    by (rule remdups_adj_singleton_iff)
  have last: "last (remdups_adj ?xs) = last ?xs" by simp
  have mem: "ms \<noteq> [] \<Longrightarrow> last ?xs \<in> set ?xs" by (metis last_in_set map_is_Nil_conv)
  show ?thesis
  proof (cases "ms = []")
    case True
    then show ?thesis by (simp add: required_signer_def)
  next
    case False
    then have "required_signer ms = Ok a \<longleftrightarrow> length (remdups_adj ?xs) \<le> 1 \<and> last ?xs = a"
      using last by (auto simp: required_signer_def Let_def)
    also have "\<dots> \<longleftrightarrow> (\<forall>x\<in>set ?xs. x = a)" unfolding len using mem [OF False] by metis
    finally show ?thesis using False by simp
  qed
qed

text \<open>
  C28. An account id that parses has 20 or 32 bytes; but the parser does not always return an
  error on a bad string: one with a valid checksum and the right prefix whose data does not
  regroup into bytes makes it panic.
\<close>

theorem parse_string_outcomes:
  "(\<forall>a. account_id_parse_string cr e = Ok a \<longrightarrow> length a = 20 \<or> length a = 32) \<and>
   (\<forall>d. c_bech32_decode cr e = Some (BECH32_PREFIX, d, Bech32) \<and> c_from_base32 cr d = None \<longrightarrow>
     account_id_parse_string cr e = Panic)"
  using account_id_parse_string_Ok [of cr e] by (auto simp: account_id_parse_string_def)

definition padding_crypto :: crypto where
  "padding_crypto = \<lparr>c_sha256 = id, c_ripemd160 = id, c_bech32_decode = \<lambda>x. Some (BECH32_PREFIX, x, Bech32),
     c_from_base32 = \<lambda>d. if d = [1] then None else Some d, c_bech32_encode = id,
     c_secp256k1_verify = \<lambda>_ _ _. Some True, c_ed25519_verify = \<lambda>_ _ _. Some True,
     c_mayo_verify = \<lambda>_ _ _ _. Some True\<rparr>"

theorem parse_string_outcomes_witness:
  "account_id_parse_string padding_crypto [1] = Panic \<and>
   (\<exists>a. account_id_parse_string padding_crypto (replicate 20 0) = Ok a \<and> length a = 20)"
proof -
  have "c_bech32_decode padding_crypto [1] = Some (BECH32_PREFIX, [1], Bech32)" "c_from_base32 padding_crypto [1] = None"
    by (simp_all add: padding_crypto_def)
  then have p: "account_id_parse_string padding_crypto [1] = Panic"
    using parse_string_outcomes [of padding_crypto "[1]"] by blast
  have "account_id_parse_string padding_crypto (replicate 20 0) = Ok (replicate 20 0)"
    by (simp add: padding_crypto_def account_id_parse_string_def VALID_ADDR_LENGTH_def numeral_eq_Suc)
  with p show ?thesis using parse_string_outcomes [of padding_crypto "replicate 20 0"] by simp
qed

end
