(* ===== verification/State_Root.thy ===== *)
theory State_Root
  imports Merkle Std_Types
begin

text \<open>
  The state root of \<open>packages/app/src/app.rs\<close>: the scan over the committed entries
  (\<open>consensus_entries\<close>, \<open>state_root_over\<close>), the incremental root over a leaf index and the writes
  of a block (\<open>root_with_pending\<close>), and the writer that records those writes
  (\<open>TrackingWriter\<close>). The main result is that the two ways to a root agree.
\<close>

section \<open>The scan\<close>

definition SIDECAR_PREFIX :: bytes where
  "SIDECAR_PREFIX = [0x5F]"

definition SIDECAR_PREFIX_END :: bytes where
  "SIDECAR_PREFIX_END = [0x60]"

definition consensus_entries ::
  "('s, 'z) reader_scheme \<Rightarrow> 's \<Rightarrow> (gas_meter, io_event list, gas_error) prog" where
  "consensus_entries store s =
     m_bind (rd_range store s None (Some SIDECAR_PREFIX) Ascending) (\<lambda>below.
     m_bind (rd_range store s (Some SIDECAR_PREFIX_END) None Ascending) (\<lambda>above.
     m_ret (below @ above)))"

text \<open>
  \<open>key.first() == Some(&b'_')\<close> is \<open>is_sidecar\<close>; the loop skips such keys, although the two
  ranges do not yield any. The meter is the function's own.
\<close>

definition state_root_over :: "hash_fun \<Rightarrow> ('s, 'z) reader_scheme \<Rightarrow> 's \<Rightarrow> (bytes, pulsar_error) outcome" where
  "state_root_over sha256 store s =
     fst (m_map_err PE_Gas
       (m_bind (consensus_entries store s) (\<lambda>iter.
        m_bind (iter_collect iter) (\<lambda>entries.
        m_ret (merkle_root sha256
          (map (\<lambda>(key, value). leaf_hash sha256 key value) (filter (\<lambda>(key, _). \<not> is_sidecar key) entries))))))
       gas_meter_infinite)"

section \<open>The incremental root\<close>

type_synonym root_index = "(bytes, bytes) btree"
type_synonym pending = "(bytes, bytes option) btree"

text \<open>The leaf that a pending write contributes: none for a deletion.\<close>

fun pending_leaf :: "hash_fun \<Rightarrow> bytes \<times> bytes option \<Rightarrow> bytes list" where
  "pending_leaf sha256 (pk, Some v) = [leaf_hash sha256 pk v]"
| "pending_leaf sha256 (pk, None) = []"

text \<open>The inner \<open>while let\<close> loop: the pending writes below the key of the index.\<close>

fun drain_below :: "hash_fun \<Rightarrow> bytes \<Rightarrow> pending \<Rightarrow> bytes list \<times> pending" where
  "drain_below sha256 key [] = ([], [])"
| "drain_below sha256 key (p # ps) =
     (if fst p < key
      then (case drain_below sha256 key ps of (leaves, rest) \<Rightarrow> (pending_leaf sha256 p @ leaves, rest))
      else ([], p # ps))"

fun merge_pending :: "hash_fun \<Rightarrow> root_index \<Rightarrow> pending \<Rightarrow> bytes list" where
  "merge_pending sha256 [] pending = concat (map (pending_leaf sha256) pending)"
| "merge_pending sha256 ((key, leaf) # index) pending =
     (case drain_below sha256 key pending of (leaves, rest) \<Rightarrow>
        leaves @
        (case rest of
           p # rest' \<Rightarrow>
             if fst p = key then pending_leaf sha256 p @ merge_pending sha256 index rest'
             else leaf # merge_pending sha256 index rest
         | [] \<Rightarrow> leaf # merge_pending sha256 index rest))"

definition root_with_pending :: "hash_fun \<Rightarrow> root_index \<Rightarrow> pending \<Rightarrow> bytes" where
  "root_with_pending sha256 index pending = merkle_root sha256 (merge_pending sha256 index pending)"

section \<open>The tracking writer\<close>

text \<open>Run an operation of the inner writer next to the record of dirty keys.\<close>

definition m_inner :: "('s \<times> gas_meter, 'a, 'e) prog \<Rightarrow> (('s \<times> pending) \<times> gas_meter, 'a, 'e) prog" where
  "m_inner p sdg = (case p (fst (fst sdg), snd sdg) of (r, (s', g')) \<Rightarrow> (r, ((s', snd (fst sdg)), g')))"

definition m_dirty :: "bytes \<Rightarrow> bytes option \<Rightarrow> (('s \<times> pending) \<times> gas_meter, unit, 'e) prog" where
  "m_dirty key op = (\<lambda>((s, d), g).
     (Ok (), ((s, if is_sidecar key then d else bt_insert key op d), g)))"

definition tracking_set ::
  "('s, 'z) storage_scheme \<Rightarrow> bytes \<Rightarrow> bytes \<Rightarrow> (('s \<times> pending) \<times> gas_meter, unit, gas_error) prog" where
  "tracking_set inner key value =
     m_bind (m_inner (st_set inner key value)) (\<lambda>_. m_dirty key (Some value))"

definition tracking_remove ::
  "('s, 'z) storage_scheme \<Rightarrow> bytes \<Rightarrow> (('s \<times> pending) \<times> gas_meter, unit, gas_error) prog" where
  "tracking_remove inner key =
     m_bind (m_inner (st_remove inner key)) (\<lambda>_. m_dirty key None)"

definition tracking_writer :: "('s, 'z) storage_scheme \<Rightarrow> ('s \<times> pending) storage" where
  "tracking_writer inner =
     \<lparr>rd_get = (\<lambda>sd. rd_get inner (fst sd)), rd_range = (\<lambda>sd. rd_range inner (fst sd)),
      st_set = tracking_set inner, st_remove = tracking_remove inner\<rparr>"

section \<open>What the scan computes\<close>

text \<open>The part of the state that the root commits to.\<close>

definition consensus_map :: "(bytes \<Rightarrow> bytes option) \<Rightarrow> (bytes \<Rightarrow> bytes option)" where
  "consensus_map m k = (if is_sidecar k then None else m k)"

lemma sidecar_byte:
  "(b :: byte) < 0x60 \<longleftrightarrow> b < 0x5F \<or> b = 0x5F" "(0x60 :: byte) \<le> b \<longleftrightarrow> \<not> b < 0x5F \<and> b \<noteq> 0x5F"
  using byte_succ [of "0x5F" b] by (auto simp: not_less [symmetric] le_less)

lemma sidecar_bounds_Cons:
  "in_bounds None (Some SIDECAR_PREFIX) (b # k) \<longleftrightarrow> b < 0x5F"
  "in_bounds (Some SIDECAR_PREFIX_END) None (b # k) \<longleftrightarrow> \<not> b < 0x5F \<and> b \<noteq> 0x5F"
  "in_bounds None (Some SIDECAR_PREFIX) []" "\<not> in_bounds (Some SIDECAR_PREFIX_END) None []"
proof -
  have "(0x60 :: byte) < b \<or> b = 0x60 \<longleftrightarrow> 0x60 \<le> b" by auto
  then show "in_bounds (Some SIDECAR_PREFIX_END) None (b # k) \<longleftrightarrow> \<not> b < 0x5F \<and> b \<noteq> 0x5F"
    using sidecar_byte(2) [of b] by (simp add: in_bounds_def SIDECAR_PREFIX_END_def)
qed (simp_all add: in_bounds_def SIDECAR_PREFIX_def SIDECAR_PREFIX_END_def)

lemma sidecar_bounds:
  "in_bounds None (Some SIDECAR_PREFIX) k \<or> in_bounds (Some SIDECAR_PREFIX_END) None k \<longleftrightarrow> \<not> is_sidecar k"
  "\<not> (in_bounds None (Some SIDECAR_PREFIX) k \<and> in_bounds (Some SIDECAR_PREFIX_END) None k)"
  by (cases k; auto simp: sidecar_bounds_Cons underscore_def is_sidecar_def)+

lemma is_range_consensus:
  assumes "is_range m None (Some SIDECAR_PREFIX) Ascending lo"
    and "is_range m (Some SIDECAR_PREFIX_END) None Ascending hi"
  shows "is_range (consensus_map m) None None Ascending (lo @ hi)"
proof -
  have lt: "x < y" if "x \<in> fst ` set lo" "y \<in> fst ` set hi" for x y
  proof -
    have "map_of lo x \<noteq> None" "map_of hi y \<noteq> None" using that by (simp_all add: map_of_eq_None_iff)
    with assms have "x < SIDECAR_PREFIX" "SIDECAR_PREFIX_END \<le> y"
      by (auto simp: is_range_def in_bounds_def split: if_splits)
    moreover have "SIDECAR_PREFIX \<le> SIDECAR_PREFIX_END" by (simp add: SIDECAR_PREFIX_def SIDECAR_PREFIX_END_def)
    ultimately show ?thesis by (meson less_le_trans)
  qed
  have "map_of (lo @ hi) k = consensus_map m k" for k
    using assms sidecar_bounds [of k] by (auto simp: is_range_def map_add_def consensus_map_def split: option.splits)
  moreover have "sorted_wrt (<) (map fst (lo @ hi))"
    using assms lt by (auto simp: is_range_def sorted_wrt_append key_lt_funs)
  ultimately show ?thesis by (simp add: is_range_def key_lt_funs in_bounds_def)
qed

context reader_laws
begin

lemma consensus_entries_view:
  assumes run: "consensus_entries rd s g = (Ok es, g')" and "inv s"
  shows "is_range (consensus_map (view s)) None None Ascending (yields es) \<and> Panics \<notin> set es"
proof -
  from run obtain lo g1 hi where
    b: "rd_range rd s None (Some SIDECAR_PREFIX) Ascending g = (Ok lo, g1)" and
    a: "rd_range rd s (Some SIDECAR_PREFIX_END) None Ascending g1 = (Ok hi, g')" and
    es: "es = lo @ hi"
    by (auto simp: consensus_entries_def m_bind_Ok)
  from range_view [OF assms(2) b] range_view [OF assms(2) a] es show ?thesis
    by (auto intro: is_range_consensus)
qed

lemma state_root_over_view:
  assumes root: "state_root_over sha256 rd s = Ok r" and "inv s"
    and es: "is_range (consensus_map (view s)) None None Ascending es"
  shows "r = merkle_root sha256 (leaves_of sha256 es)"
proof -
  from root obtain iter g1 entries g2 where
    it: "consensus_entries rd s gas_meter_infinite = (Ok iter, g1)"
    and en: "iter_collect iter g1 = (Ok entries, g2)"
    and r: "r = merkle_root sha256 (map (\<lambda>(key, value). leaf_hash sha256 key value)
                                       (filter (\<lambda>(key, _). \<not> is_sidecar key) entries))"
    by (auto simp: state_root_over_def m_map_err_def m_bind_def split: prod.splits outcome.splits)
  from consensus_entries_view [OF it assms(2)] iter_collect_yields [OF en]
  have range: "is_range (consensus_map (view s)) None None Ascending entries" by simp
  have "\<not> is_sidecar k" if "(k, v) \<in> set entries" for k v
  proof -
    have "map_of entries k \<noteq> None" using weak_map_of_SomeI [OF that] by auto
    with range show ?thesis by (auto simp: is_range_def consensus_map_def split: if_splits)
  qed
  then have "filter (\<lambda>(key, _). \<not> is_sidecar key) entries = entries" by (auto intro!: filter_True)
  with r is_range_unique [OF es range] show ?thesis by (simp add: leaves_of_def)
qed

end

section \<open>What the incremental root computes\<close>

text \<open>The merge with the keys kept, which is an ordered map again.\<close>

fun keyed_leaf :: "hash_fun \<Rightarrow> bytes \<times> bytes option \<Rightarrow> root_index" where
  "keyed_leaf sha256 (pk, Some v) = [(pk, leaf_hash sha256 pk v)]"
| "keyed_leaf sha256 (pk, None) = []"

fun merge_keyed :: "hash_fun \<Rightarrow> root_index \<Rightarrow> pending \<Rightarrow> root_index" where
  "merge_keyed sha256 [] ps = concat (map (keyed_leaf sha256) ps)"
| "merge_keyed sha256 index [] = index"
| "merge_keyed sha256 (e # index) (p # ps) =
     (if fst p < fst e then keyed_leaf sha256 p @ merge_keyed sha256 (e # index) ps
      else if fst p = fst e then keyed_leaf sha256 p @ merge_keyed sha256 index ps
      else e # merge_keyed sha256 index (p # ps))"

lemma keyed_leaf_snd [simp]: "map snd (keyed_leaf sha256 p) = pending_leaf sha256 p"
  by (cases "(sha256, p)" rule: keyed_leaf.cases) auto

lemma merge_pending_Nil: "merge_pending sha256 index [] = map snd index"
  by (induction index) auto

lemma merge_pending_below:
  "fst p < fst e \<Longrightarrow> merge_pending sha256 (e # index) (p # ps) = pending_leaf sha256 p @ merge_pending sha256 (e # index) ps"
  by (cases e) (auto split: prod.splits)

lemma merge_pending_keyed: "merge_pending sha256 index ps = map snd (merge_keyed sha256 index ps)"
proof (induction sha256 index ps rule: merge_keyed.induct)
  case (1 sha256 ps)
  then show ?case by (simp add: map_concat comp_def)
next
  case (2 sha256 e index)
  then show ?case by (simp add: merge_pending_Nil del: merge_pending.simps)
next
  case (3 sha256 e index p ps)
  show ?case
  proof (cases "fst p < fst e")
    case True
    with 3 show ?thesis by (simp add: merge_pending_below del: merge_pending.simps)
  next
    case False
    with 3 show ?thesis by (cases e) auto
  qed
qed

lemma keyed_leaf_keys: "x \<in> set (keyed_leaf sha256 p) \<Longrightarrow> fst x = fst p"
  by (cases "(sha256, p)" rule: keyed_leaf.cases) auto

lemma keyed_leaf_lookup:
  "map_of (keyed_leaf sha256 p) k = (if k = fst p then map_option (leaf_hash sha256 k) (snd p) else None)"
  by (cases "(sha256, p)" rule: keyed_leaf.cases) auto

lemma keyed_leaf_inv [simp]: "bt_inv (keyed_leaf sha256 p)"
  by (cases "(sha256, p)" rule: keyed_leaf.cases) auto

lemma merge_keyed_keys:
  "x \<in> set (merge_keyed sha256 index ps) \<Longrightarrow> fst x \<in> fst ` set index \<or> fst x \<in> fst ` set ps"
  by (induction sha256 index ps rule: merge_keyed.induct) (auto dest!: keyed_leaf_keys split: if_splits)

lemma bt_inv_append:
  "bt_inv (xs @ ys) \<longleftrightarrow> bt_inv xs \<and> bt_inv ys \<and> (\<forall>x\<in>set xs. \<forall>y\<in>set ys. fst x < fst y)"
  by (auto simp: bt_inv_def sorted_wrt_append)

lemma keyed_leaf_glue:
  assumes "bt_inv ys" "\<forall>y\<in>set ys. fst p < fst y"
  shows "bt_inv (keyed_leaf sha256 p @ ys)"
  using assms by (auto simp: bt_inv_append dest!: keyed_leaf_keys)

lemma merge_keyed_inv: "bt_inv index \<Longrightarrow> bt_inv ps \<Longrightarrow> bt_inv (merge_keyed sha256 index ps)"
proof (induction sha256 index ps rule: merge_keyed.induct)
  case (1 sha256 ps)
  then show ?case
  proof (induction ps)
    case (Cons p ps)
    then show ?case by (fastforce intro!: keyed_leaf_glue dest!: keyed_leaf_keys)
  qed simp
next
  case (3 sha256 e index p ps)
  have lt: "\<forall>y\<in>set (merge_keyed sha256 i q). x < fst y"
    if "\<forall>y\<in>set i. x < fst y" "\<forall>y\<in>set q. x < fst y" for x i q
    using that by (auto dest!: merge_keyed_keys)
  consider "fst p < fst e" | "fst p = fst e" | "fst e < fst p" by force
  then show ?case
  proof cases
    case 1
    moreover from 1 "3.prems" have "\<forall>y\<in>set (merge_keyed sha256 (e # index) ps). fst p < fst y"
      by (intro lt) (auto intro: less_trans)
    ultimately show ?thesis using 3 by (auto intro!: keyed_leaf_glue)
  next
    case 2
    moreover from 2 "3.prems" have "\<forall>y\<in>set (merge_keyed sha256 index ps). fst p < fst y"
      by (intro lt) auto
    ultimately show ?thesis using 3 by (auto intro!: keyed_leaf_glue)
  next
    case 3
    moreover from 3 "3.prems" have "\<forall>y\<in>set (merge_keyed sha256 index (p # ps)). fst e < fst y"
      by (intro lt) (auto intro: less_trans)
    ultimately show ?thesis using "3.IH"(3) "3.prems" by auto
  qed
qed simp

lemma bt_get_above: "bt_inv ((x, y) # m) \<Longrightarrow> k \<le> x \<Longrightarrow> map_of m k = None"
  by (auto simp: map_of_eq_None_iff)

lemma merge_keyed_lookup:
  "bt_inv index \<Longrightarrow> bt_inv ps \<Longrightarrow> map_of (merge_keyed sha256 index ps) k =
     (case map_of ps k of None \<Rightarrow> map_of index k | Some op \<Rightarrow> map_option (leaf_hash sha256 k) op)"
proof (induction sha256 index ps rule: merge_keyed.induct)
  case (1 sha256 ps)
  then show ?case
  proof (induction ps)
    case (Cons p ps)
    then show ?case using bt_get_above [of "fst p" "snd p" ps k]
      by (cases p) (auto simp: map_add_def keyed_leaf_lookup split: option.splits)
  qed simp
next
  case (3 sha256 e index p ps)
  have none: "k = fst p \<Longrightarrow> map_of ps k = None" "k = fst e \<Longrightarrow> map_of index k = None"
    "k = fst p \<Longrightarrow> fst p < fst e \<Longrightarrow> map_of index k = None"
    "k = fst e \<Longrightarrow> fst e < fst p \<Longrightarrow> map_of ps k = None"
    using "3.prems" bt_get_above [of "fst p" "snd p" ps k] bt_get_above [of "fst e" "snd e" index k] by auto
  consider "fst p < fst e" | "fst p = fst e" | "fst e < fst p" by force
  then show ?case
  proof cases
    case 1
    then show ?thesis using 3 none
      by (cases p; cases e) (auto simp: map_add_def keyed_leaf_lookup split: option.splits)
  next
    case 2
    then show ?thesis using 3 none
      by (cases p; cases e) (auto simp: map_add_def keyed_leaf_lookup split: option.splits)
  next
    case 3
    then show ?thesis using "3.IH"(3) "3.prems" none by (cases p; cases e) (auto split: option.splits)
  qed
qed (simp split: option.splits)

text \<open>A leaf index for a state, and the state after the pending writes.\<close>

definition index_of :: "hash_fun \<Rightarrow> (bytes \<Rightarrow> bytes option) \<Rightarrow> root_index \<Rightarrow> bool" where
  "index_of sha256 m index \<longleftrightarrow>
     bt_inv index \<and> (\<forall>k. map_of index k = map_option (leaf_hash sha256 k) (consensus_map m k))"

definition with_pending :: "pending \<Rightarrow> (bytes \<Rightarrow> bytes option) \<Rightarrow> (bytes \<Rightarrow> bytes option)" where
  "with_pending ps m k = (case map_of ps k of None \<Rightarrow> m k | Some op \<Rightarrow> op)"

definition pending_inv :: "pending \<Rightarrow> bool" where
  "pending_inv ps \<longleftrightarrow> bt_inv ps \<and> (\<forall>k. is_sidecar k \<longrightarrow> map_of ps k = None)"

lemma index_of_leaves:
  assumes "index_of sha256 m index" "is_range (consensus_map m) None None Ascending es"
  shows "map snd index = leaves_of sha256 es"
proof -
  let ?e = "map (\<lambda>(k, v). (k, leaf_hash sha256 k v)) es"
  have fst: "map fst ?e = map fst es" by auto
  have get: "map_of ?e k = map_option (leaf_hash sha256 k) (map_of es k)" for k
    by (induction es) auto
  have "bt_inv ?e" unfolding bt_inv_def fst using assms(2) by (simp add: is_range_def key_lt_funs)
  then have "index = ?e"
    using assms get by (intro bt_ext) (auto simp: index_of_def is_range_def in_bounds_def)
  then show ?thesis by (auto simp: leaves_of_def)
qed

lemma index_of_merge:
  assumes "index_of sha256 m index" "pending_inv ps"
  shows "index_of sha256 (with_pending ps m) (merge_keyed sha256 index ps)"
  using assms merge_keyed_inv merge_keyed_lookup [of index ps sha256]
  by (auto simp: index_of_def pending_inv_def with_pending_def consensus_map_def split: option.splits)

lemma root_with_pending_correct:
  assumes "index_of sha256 m index" "pending_inv ps"
    and "is_range (consensus_map (with_pending ps m)) None None Ascending es"
  shows "root_with_pending sha256 index ps = merkle_root sha256 (leaves_of sha256 es)"
  using index_of_leaves [OF index_of_merge [OF assms(1,2)] assms(3)]
  by (simp add: root_with_pending_def merge_pending_keyed)

section \<open>What the tracking writer records\<close>

lemma m_inner_run [run_simps, simp]:
  "m_inner p ((s, d), g) = (r, ((s', d'), g')) \<longleftrightarrow> p (s, g) = (r, (s', g')) \<and> d' = d"
  by (auto simp: m_inner_def split: prod.splits)

lemma m_dirty_run [run_simps, simp]:
  "m_dirty k op ((s, d), g) = (r, ((s', d'), g')) \<longleftrightarrow>
     r = Ok () \<and> s' = s \<and> g' = g \<and> d' = (if is_sidecar k then d else bt_insert k op d)"
  by (auto simp: m_dirty_def)

lemma m_inner_dirty_run:
  fixes p :: "('s \<times> gas_meter, unit, 'e) prog"
  shows "m_bind (m_inner p) (\<lambda>_. m_dirty k op) ((s, d), g) = (r, ((s', d'), g')) \<longleftrightarrow>
    p (s, g) = (r, (s', g')) \<and> d' = (if r = Ok () \<and> \<not> is_sidecar k then bt_insert k op d else d)"
  by (auto simp: m_bind_def m_inner_def m_dirty_def split: prod.splits outcome.splits)

context storage_laws
begin

theorem tracking_laws:
  "storage_laws (tracking_writer rd) (\<lambda>sd. view (fst sd)) (\<lambda>sd. inv (fst sd) \<and> pending_inv (snd sd))"
proof (unfold_locales, goal_cases)
  case (1 s k g v g')
  then show ?case using get_view by (auto simp: tracking_writer_def)
next
  case (2 g0 s k)
  then show ?case by (simp add: tracking_writer_def get_meter)
next
  case (3 s a b ord g es g')
  then show ?case using range_view by (auto simp: tracking_writer_def)
next
  case (4 g0 s a b ord)
  then show ?case by (simp add: tracking_writer_def range_meter)
next
  case (5 s k v g u s' g')
  then show ?case using set_ok
    by (cases s; cases s')
      (auto simp: tracking_writer_def tracking_set_def m_inner_dirty_run pending_inv_def)
next
  case (6 k v s g r s' g')
  then show ?case using set_fail
    by (cases s; cases s') (auto simp: tracking_writer_def tracking_set_def m_inner_dirty_run)
next
  case (7 g0 k v)
  then show ?case using set_meter [of g0 k v]
    by (fastforce simp: tracking_writer_def tracking_set_def preserves_def m_inner_dirty_run)
next
  case (8 s k g u s' g')
  then show ?case using remove_ok
    by (cases s; cases s')
      (auto simp: tracking_writer_def tracking_remove_def m_inner_dirty_run pending_inv_def)
next
  case (9 k s g r s' g')
  then show ?case using remove_fail
    by (cases s; cases s') (auto simp: tracking_writer_def tracking_remove_def m_inner_dirty_run)
next
  case (10 g0 k)
  then show ?case using remove_meter [of g0 k]
    by (fastforce simp: tracking_writer_def tracking_remove_def preserves_def m_inner_dirty_run)
qed

end

text \<open>The record describes the difference to the state at the start of the block.\<close>

definition tracks :: "('s \<Rightarrow> bytes \<Rightarrow> bytes option) \<Rightarrow> (bytes \<Rightarrow> bytes option) \<Rightarrow> 's \<times> pending \<Rightarrow> bool" where
  "tracks view m0 sd \<longleftrightarrow>
     pending_inv (snd sd) \<and> (\<forall>k. \<not> is_sidecar k \<longrightarrow> view (fst sd) k = with_pending (snd sd) m0 k)"

lemma tracks_consensus: "tracks view m0 (s, d) \<Longrightarrow> consensus_map (view s) = consensus_map (with_pending d m0)"
  by (auto simp: tracks_def consensus_map_def fun_eq_iff)

lemma tracks_start: "tracks view (view s) (s, [])"
  by (simp add: tracks_def pending_inv_def with_pending_def)

lemma tracks_write:
  assumes "tracks view m0 (s, d)" "view s' = (view s)(k := op)"
  shows "tracks view m0 (s', if is_sidecar k then d else bt_insert k op d)"
  using assms by (auto simp: tracks_def pending_inv_def with_pending_def)

context storage_laws
begin

lemma tracking_op_tracks:
  "preserves (\<lambda>(sd, g). inv (fst sd) \<and> tracks view m0 sd) (op_apply (tracking_writer rd) p)"
proof (cases p)
  case (Op_Set k v)
  show ?thesis unfolding preserves_def
  proof (clarsimp simp: Op_Set tracking_writer_def tracking_set_def)
    fix s d g r s' d' g'
    assume s: "inv s" "tracks view m0 (s, d)"
      and run: "m_bind (m_inner (st_set rd k v)) (\<lambda>_. m_dirty k (Some v)) ((s, d), g) = (r, ((s', d'), g'))"
    show "inv s' \<and> tracks view m0 (s', d')"
    proof (cases "r = Ok ()")
      case True
      with run set_ok [OF s(1), of k v g "()" s' g'] tracks_write [OF s(2), of s' k "Some v"]
      show ?thesis by (auto simp: m_inner_dirty_run)
    qed (use run s set_fail [of k v s g r s' g'] in \<open>auto simp: m_inner_dirty_run\<close>)
  qed
next
  case (Op_Delete k)
  show ?thesis unfolding preserves_def
  proof (clarsimp simp: Op_Delete tracking_writer_def tracking_remove_def)
    fix s d g r s' d' g'
    assume s: "inv s" "tracks view m0 (s, d)"
      and run: "m_bind (m_inner (st_remove rd k)) (\<lambda>_. m_dirty k None) ((s, d), g) = (r, ((s', d'), g'))"
    show "inv s' \<and> tracks view m0 (s', d')"
    proof (cases "r = Ok ()")
      case True
      with run remove_ok [OF s(1), of k g "()" s' g'] tracks_write [OF s(2), of s' k None]
      show ?thesis by (auto simp: m_inner_dirty_run)
    qed (use run s remove_fail [of k s g r s' g'] in \<open>auto simp: m_inner_dirty_run\<close>)
  qed
qed

lemma tracked_root:
  assumes "tracks view m0 (s, d)" "index_of sha256 m0 index" "inv s" "state_root_over sha256 rd s = Ok root"
  shows "root_with_pending sha256 index d = root"
proof -
  from assms(4) obtain es where es: "is_range (consensus_map (view s)) None None Ascending es"
    using consensus_entries_view [OF _ assms(3)]
    by (auto simp: state_root_over_def m_map_err_def m_bind_def split: prod.splits outcome.splits)
  have "pending_inv d" using assms(1) by (simp add: tracks_def)
  from root_with_pending_correct [OF assms(2) this es [unfolded tracks_consensus [OF assms(1)]]]
  have "root_with_pending sha256 index d = merkle_root sha256 (leaves_of sha256 es)" .
  with state_root_over_view [OF assms(4,3) es] show ?thesis by simp
qed

end

interpretation tracked_writer: storage_laws "tracking_writer memory_writer"
  "\<lambda>sd. overlay_view bts_view (fst sd)" "\<lambda>sd. overlay_inv bts_inv (fst sd) \<and> pending_inv (snd sd)"
  by (rule writer.tracking_laws)

section \<open>Properties\<close>

text \<open>
  C29. The incremental root is the scanned root: after any sequence of writes through the tracking
  writer, whether or not it ran to its end, the root computed from the leaf index of the committed
  state and the recorded writes is the one that scanning the writer gives.
\<close>

theorem incremental_root_correct:
  assumes "bts_inv s" and "index_of sha256 (bts_view s) index"
    and run: "m_each (op_apply (tracking_writer memory_writer)) ops (((s, []), []), g) = (r, ((so, dirty), g'))"
    and "state_root_over sha256 memory_writer so = Ok root"
  shows "root_with_pending sha256 index dirty = root"
proof -
  have "preserves (\<lambda>(sd, g). overlay_inv bts_inv (fst sd) \<and> tracks (overlay_view bts_view) (bts_view s) sd)
          (m_each (op_apply (tracking_writer memory_writer)) ops)"
    by (intro preserves_each) (rule writer.tracking_op_tracks)
  from preservesD [OF this _ run] assms(1) tracks_start [of "overlay_view bts_view" "(s, [])"]
  have "overlay_inv bts_inv so" "tracks (overlay_view bts_view) (bts_view s) (so, dirty)" by simp_all
  with writer.tracked_root assms(2,4) show ?thesis by blast
qed

definition committed_store :: btree_storage where
  "committed_store = btree_storage_new\<lparr>bts_data := [([1], [10]), ([2], [20])]\<rparr>"

definition test_writes :: "op list" where
  "test_writes = [Op_Set [95, 1] [7], Op_Delete [1], Op_Set [3] [30]]"

lemma committed_index:
  "index_of sha256 (bts_view committed_store) [([1], leaf_hash sha256 [1] [10]), ([2], leaf_hash sha256 [2] [20])]"
  by (auto simp: index_of_def committed_store_def consensus_map_def underscore_def)

theorem incremental_root_correct_witness:
  "root_with_pending id [([1], leaf_hash id [1] [10]), ([2], leaf_hash id [2] [20])] [([1], None), ([3], Some [30])] =
     [1, 0, 2, 20, 0, 3, 30]"
proof -
  let ?run = "m_each (op_apply (tracking_writer memory_writer)) test_writes
                (((committed_store, []), []), gas_meter_new 100000)"
  let ?so = "(committed_store, [([1], Delta_Delete), ([3], Delta_Set [30]), ([95, 1], Delta_Set [7])])"
  note exec = committed_store_def test_writes_def tracking_writer_def tracking_set_def tracking_remove_def
    m_inner_def m_dirty_def underscore_def prog_exec gas_exec store_exec Let_def
  have run: "?run = (Ok (), ((?so, [([1], None), ([3], Some [30])]), snd (snd ?run)))"
    by (simp add: exec)
  have root: "state_root_over id memory_writer ?so = Ok [1, 0, 2, 20, 0, 3, 30]"
    by (simp add: exec state_root_over_def consensus_entries_def SIDECAR_PREFIX_def SIDECAR_PREFIX_END_def
        leaf_hash_def merkle_root_def merkle_loop.simps)
  have "bts_inv committed_store" by (simp add: committed_store_def btree_storage_new_def)
  from incremental_root_correct [OF this committed_index run root] show ?thesis .
qed

end
