(* ===== verification/Snapshot.thy ===== *)
theory Snapshot
  imports State_Root
begin

text \<open>
  The wire format of state-sync snapshots, \<open>packages/app/src/app.rs\<close>: the record stream and its
  packing into chunks by \<open>snapshot_export\<close>, the decoder \<open>decode_snapshot_chunk\<close> and the check of
  the whole dump, \<open>verify_snapshot_root\<close>. Export and import on the application are in \<open>App\<close>.
\<close>

section \<open>Records and chunks\<close>

definition SNAPSHOT_FORMAT_V1 :: nat where
  "SNAPSHOT_FORMAT_V1 = 1"

definition SNAPSHOT_CHUNK_TARGET :: nat where
  "SNAPSHOT_CHUNK_TARGET = 8 * 1024 * 1024"

record snapshot_chunk =
  chunk_data :: bytes
  checksum :: bytes

text \<open>\<open>(n as u32).to_le_bytes()\<close> and \<open>u32::from_le_bytes(b) as usize\<close>.\<close>

definition u32_to_le_bytes :: "nat \<Rightarrow> bytes" where
  "u32_to_le_bytes n = [of_nat n, of_nat (n div 2 ^ 8), of_nat (n div 2 ^ 16), of_nat (n div 2 ^ 24)]"

definition u32_from_le_bytes :: "bytes \<Rightarrow> nat" where
  "u32_from_le_bytes b = unat (b ! 0) + 2 ^ 8 * unat (b ! 1) + 2 ^ 16 * unat (b ! 2) + 2 ^ 24 * unat (b ! 3)"

definition snapshot_record :: "kv \<Rightarrow> bytes" where
  "snapshot_record e =
     u32_to_le_bytes (length (fst e)) @ fst e @ u32_to_le_bytes (length (snd e)) @ snd e"

definition snapshot_chunk_of :: "hash_fun \<Rightarrow> bytes \<Rightarrow> snapshot_chunk" where
  "snapshot_chunk_of sha256 cur = \<lparr>chunk_data = cur, checksum = sha256 cur\<rparr>"

text \<open>The loop of \<open>snapshot_export\<close>; the chunks are in the order they were pushed.\<close>

fun snapshot_loop ::
  "hash_fun \<Rightarrow> kv list \<Rightarrow> bytes list \<Rightarrow> snapshot_chunk list \<Rightarrow> bytes \<Rightarrow> bytes list \<times> snapshot_chunk list \<times> bytes" where
  "snapshot_loop sha256 [] leaves chunks cur = (leaves, chunks, cur)"
| "snapshot_loop sha256 ((key, value) # entries) leaves chunks cur =
     (if is_sidecar key then snapshot_loop sha256 entries leaves chunks cur
      else
        let rec_len = 4 + length key + 4 + length value;
            full = (length cur + rec_len > SNAPSHOT_CHUNK_TARGET \<and> cur \<noteq> [])
        in snapshot_loop sha256 entries (leaves @ [leaf_hash sha256 key value])
             (if full then chunks @ [snapshot_chunk_of sha256 cur] else chunks)
             ((if full then [] else cur) @ snapshot_record (key, value)))"

definition snapshot_chunks :: "hash_fun \<Rightarrow> kv list \<Rightarrow> bytes list \<times> snapshot_chunk list" where
  "snapshot_chunks sha256 entries =
     (case snapshot_loop sha256 entries [] [] [] of (leaves, chunks, cur) \<Rightarrow>
        (leaves, if cur \<noteq> [] \<or> chunks = [] then chunks @ [snapshot_chunk_of sha256 cur] else chunks))"

section \<open>Decoding\<close>

function decode_snapshot_chunk :: "bytes \<Rightarrow> (kv list, pulsar_error) outcome" where
  "decode_snapshot_chunk rest =
     (if rest = [] then Ok []
      else if length rest < 4 then Err (PE_Std GenericErr)
      else
        let klen = u32_from_le_bytes (take 4 rest); rest1 = drop 4 rest
        in if length rest1 < klen then Err (PE_Std GenericErr)
           else
             let key = take klen rest1; rest2 = drop klen rest1
             in if length rest2 < 4 then Err (PE_Std GenericErr)
                else
                  let vlen = u32_from_le_bytes (take 4 rest2); rest3 = drop 4 rest2
                  in if length rest3 < vlen then Err (PE_Std GenericErr)
                     else o_bind (decode_snapshot_chunk (drop vlen rest3)) (\<lambda>out.
                          Ok ((key, take vlen rest3) # out)))"
  by pat_completeness auto
termination by (relation "measure length") auto

declare decode_snapshot_chunk.simps [simp del]

text \<open>\<open>sort_by\<close> on the keys is stable, as is \<open>sort_key\<close>.\<close>

definition verify_snapshot_root :: "hash_fun \<Rightarrow> kv list \<Rightarrow> bytes \<Rightarrow> bool" where
  "verify_snapshot_root sha256 records expected_root =
     (merkle_root sha256 (map (\<lambda>(k, v). sha256 ([0x00] @ k @ v)) (sort_key fst records)) = expected_root)"

section \<open>Round trip of a record\<close>

lemma u32_le_length [simp]: "length (u32_to_le_bytes n) = 4" "u32_to_le_bytes n \<noteq> []"
  by (simp_all add: u32_to_le_bytes_def)

lemma u32_le_roundtrip: "n < 2 ^ 32 \<Longrightarrow> u32_from_le_bytes (u32_to_le_bytes n) = n"
proof -
  assume "n < 2 ^ 32"
  then have top: "n div 2 ^ 24 mod 256 = n div 2 ^ 24" by simp
  moreover have "n div 2 ^ 24 = n div 2 ^ 8 div 2 ^ 8 div 2 ^ 8" "n div 2 ^ 16 = n div 2 ^ 8 div 2 ^ 8"
    by (simp_all flip: div_mult2_eq)
  moreover have "x = x mod 256 + 2 ^ 8 * (x div 2 ^ 8)" for x :: nat by simp
  ultimately have "n = n mod 256 + 2 ^ 8 * (n div 2 ^ 8 mod 256 + 2 ^ 8 * (n div 2 ^ 16 mod 256 + 2 ^ 8 * (n div 2 ^ 24 mod 256)))"
    by metis
  with top show ?thesis by (simp add: u32_from_le_bytes_def u32_to_le_bytes_def unat_of_nat algebra_simps)
qed

definition small_entry :: "kv \<Rightarrow> bool" where
  "small_entry e \<longleftrightarrow> length (fst e) < 2 ^ 32 \<and> length (snd e) < 2 ^ 32"

lemma decode_record:
  assumes "small_entry e"
  shows "decode_snapshot_chunk (snapshot_record e @ rest) = o_bind (decode_snapshot_chunk rest) (\<lambda>out. Ok (e # out))"
proof -
  let ?k = "u32_to_le_bytes (length (fst e))" and ?v = "u32_to_le_bytes (length (snd e))"
  have u: "u32_from_le_bytes ?k = length (fst e)" "u32_from_le_bytes ?v = length (snd e)"
    using assms by (simp_all add: u32_le_roundtrip small_entry_def)
  show ?thesis
    by (subst decode_snapshot_chunk.simps) (simp add: snapshot_record_def u Let_def)
qed

lemma decode_records:
  "\<forall>e\<in>set es. small_entry e \<Longrightarrow> decode_snapshot_chunk (concat (map snapshot_record es)) = Ok es"
  by (induction es) (simp_all add: decode_record decode_snapshot_chunk.simps [of "[]"])

text \<open>What the loop has packed so far: whole records, in order.\<close>

lemma snapshot_loop_packs:
  assumes "snapshot_loop sha256 es leaves chunks cur = (leaves', chunks', cur')"
    and "\<forall>e\<in>set es. \<not> is_sidecar (fst e)"
    and "chunks = map (snapshot_chunk_of sha256) (map (concat \<circ> map snapshot_record) parts)"
    and "cur = concat (map snapshot_record part)"
  shows "\<exists>parts' part'. chunks' = map (snapshot_chunk_of sha256) (map (concat \<circ> map snapshot_record) parts') \<and>
     cur' = concat (map snapshot_record part') \<and> concat parts' @ part' = concat parts @ part @ es \<and>
     leaves' = leaves @ leaves_of sha256 es"
  using assms
proof (induction es arbitrary: leaves chunks cur parts part)
  case Nil
  then show ?case by (auto simp: leaves_of_def)
next
  case (Cons e es)
  obtain k v where e: "e = (k, v)" by force
  let ?full = "length cur + (4 + length k + 4 + length v) > SNAPSHOT_CHUNK_TARGET \<and> cur \<noteq> []"
  let ?parts = "if ?full then parts @ [part] else parts" and ?part = "(if ?full then [] else part) @ [e]"
  have "\<exists>parts' part'. chunks' = map (snapshot_chunk_of sha256) (map (concat \<circ> map snapshot_record) parts') \<and>
     cur' = concat (map snapshot_record part') \<and> concat parts' @ part' = concat ?parts @ ?part @ es \<and>
     leaves' = (leaves @ [leaf_hash sha256 k v]) @ leaves_of sha256 es"
    by (rule Cons.IH) (use Cons.prems e in \<open>auto simp: Let_def split: if_splits\<close>)
  then obtain parts' part' where
    *: "chunks' = map (snapshot_chunk_of sha256) (map (concat \<circ> map snapshot_record) parts')"
       "cur' = concat (map snapshot_record part')" "concat parts' @ part' = concat ?parts @ ?part @ es"
       "leaves' = (leaves @ [leaf_hash sha256 k v]) @ leaves_of sha256 es" by blast
  have "concat ?parts @ ?part @ es = concat parts @ part @ e # es" by simp
  with * show ?case
    by (intro exI [of _ parts'] exI [of _ part'] conjI) (simp_all add: e leaves_of_def)
qed

lemma sort_key_entries:
  assumes "sorted_wrt (<) (map fst es)"
  shows "sort_key fst es = es"
proof (rule sort_key_id_if_sorted)
  show "sorted (map fst es)" using assms by (rule strict_sorted_imp_sorted)
qed

section \<open>What the chunks decode to\<close>

text \<open>
  What a node exports another node can import: the chunks decode to exactly the exported entries,
  in order, and the dump passes the check against the Merkle root over the leaves computed on the way.
\<close>

lemma snapshot_chunks_decode:
  assumes "sorted_wrt (<) (map fst es)" and "\<forall>e\<in>set es. \<not> is_sidecar (fst e) \<and> small_entry e"
    and "snapshot_chunks sha256 es = (leaves, chunks)"
  shows "\<exists>parts. map (\<lambda>c. decode_snapshot_chunk (chunk_data c)) chunks = map Ok parts \<and> concat parts = es \<and>
    leaves = leaves_of sha256 es \<and> verify_snapshot_root sha256 (concat parts) (merkle_root sha256 leaves) \<and>
    (\<forall>c\<in>set chunks. checksum c = sha256 (chunk_data c))"
proof -
  let ?pack = "map (snapshot_chunk_of sha256) \<circ> map (concat \<circ> map snapshot_record)"
  obtain ls cs cur where loop: "snapshot_loop sha256 es [] [] [] = (ls, cs, cur)" by (metis prod_cases3)
  from snapshot_loop_packs [OF loop, of "[]" "[]"] assms(2) obtain parts part where
    cs: "cs = ?pack parts" and cur: "cur = concat (map snapshot_record part)"
    and es: "concat parts @ part = es" and ls: "ls = leaves_of sha256 es" by auto
  let ?parts = "if cur \<noteq> [] \<or> cs = [] then parts @ [part] else parts"
  have chunks: "chunks = ?pack ?parts" and leaves: "leaves = leaves_of sha256 es"
    using assms(3) loop cs cur ls by (auto simp: snapshot_chunks_def split: if_splits)
  have "concat ?parts = es"
  proof -
    have "part = []" if "cur = []" using that cur by (cases part) (auto simp: snapshot_record_def u32_to_le_bytes_def)
    with es show ?thesis by auto
  qed
  moreover have "map (\<lambda>c. decode_snapshot_chunk (chunk_data c)) chunks = map Ok ?parts"
  proof -
    have "\<forall>p\<in>set ?parts. \<forall>e\<in>set p. small_entry e" using assms(2) \<open>concat ?parts = es\<close> by force
    then show ?thesis unfolding chunks by (auto simp: snapshot_chunk_of_def decode_records)
  qed
  moreover have "verify_snapshot_root sha256 es (merkle_root sha256 leaves)"
    by (simp add: verify_snapshot_root_def sort_key_entries [OF assms(1)] leaves leaves_of_def leaf_hash_def)
  moreover have "\<forall>c\<in>set chunks. checksum c = sha256 (chunk_data c)"
    unfolding chunks by (auto simp: snapshot_chunk_of_def)
  ultimately show ?thesis using leaves by metis
qed

text \<open>
  The check of a dump does not authenticate every byte: as a leaf does not separate key and
  value, a dump with the record \<open>(ab, c)\<close> replaced by \<open>(a, bc)\<close> passes against the same root.
\<close>

lemma snapshot_check_split_ambiguous:
  "verify_snapshot_root sha256 [([97, 98], [99])] root \<longleftrightarrow> verify_snapshot_root sha256 [([97], [98, 99])] root"
  by (simp add: verify_snapshot_root_def)

end
