(* ===== verification/Bank.thy ===== *)
theory Bank
  imports Std_Types
begin

text \<open>
  The bank keeper, \<open>packages/app/src/bank/keeper.rs\<close>: balances per account and denomination and
  the supply per denomination, kept in two typed maps under the namespace \<open>bank\<close>.

  \<open>cw20:\<close> denominations are forwarded to contracts. The calls into the wasm keeper and the JSON
  of the cw20 messages are fields of the environment \<open>bank_env\<close>, as the code reaches them
  through the \<open>sm: &StateMachine\<close> argument.
\<close>

section \<open>Environment\<close>

record 's bank_env =
  be_crypto :: crypto
  be_u128 :: "nat codec"
  be_string_from_vec :: "bytes \<Rightarrow> bytes option"
  be_cw20_transfer :: "bytes \<Rightarrow> nat \<Rightarrow> bytes option"
  be_cw20_burn :: "nat \<Rightarrow> bytes option"
  be_cw20_balance_query :: "bytes \<Rightarrow> bytes option"
  be_cw20_balance_response :: "bytes \<Rightarrow> nat option"
  be_cw20_token_info_query :: "bytes option"
  be_cw20_token_info_response :: "bytes \<Rightarrow> nat option"
  be_wasm_exec :: "'s storage \<Rightarrow> block_info \<Rightarrow> account_id \<Rightarrow> wasm_msg \<Rightarrow> ('s \<times> gas_meter, unit, pulsar_error) prog"
  be_wasm_smart :: "'s storage \<Rightarrow> block_info \<Rightarrow> account_id \<Rightarrow> bytes \<Rightarrow> 's \<Rightarrow> (gas_meter, bytes, pulsar_error) prog"

definition SUPPLY :: bytes where
  "SUPPLY = ascii ''supply''"

definition BALANCES :: bytes where
  "BALANCES = ascii ''balances''"

definition NAMESPACE_BANK :: bytes where
  "NAMESPACE_BANK = ascii ''bank''"

text \<open>\<open>prefixed(storage, NAMESPACE_BANK)\<close>; the namespace is short, so building it cannot panic.\<close>

definition bank_store :: "'s storage \<Rightarrow> 's storage" where
  "bank_store st = prefixed_storage st (lp NAMESPACE_BANK)"

section \<open>Denominations and coins\<close>

datatype typed_denom = Native denom | Cw20 account_id

definition CW20_PREFIX :: bytes where
  "CW20_PREFIX = ascii ''cw20:''"

definition from_denom :: "crypto \<Rightarrow> denom \<Rightarrow> (typed_denom, account_id_error) outcome" where
  "from_denom cr d =
     (if take (length CW20_PREFIX) d = CW20_PREFIX
      then o_bind (account_id_parse_string cr (drop (length CW20_PREFIX) d)) (\<lambda>c. Ok (Cw20 c))
      else Ok (Native d))"

definition cw20_denom :: "crypto \<Rightarrow> account_id \<Rightarrow> denom" where
  "cw20_denom cr contract = CW20_PREFIX @ c_bech32_encode cr contract"

fun to_denom :: "crypto \<Rightarrow> typed_denom \<Rightarrow> denom" where
  "to_denom cr (Native d) = d"
| "to_denom cr (Cw20 contract) = cw20_denom cr contract"

text \<open>The items of the iterator \<open>ValidCoins\<close>; every consumer stops at the first error.\<close>

fun valid_coins_from :: "denom list \<Rightarrow> coin list \<Rightarrow> (coin, bank_error) outcome list" where
  "valid_coins_from seen [] = (if seen = [] then [Err NoEmptyTransfer] else [])"
| "valid_coins_from seen (c # cs) =
     (if coin_amount c = 0 then valid_coins_from seen cs
      else if coin_denom c \<in> set seen then Err (DuplicateDenom (coin_denom c)) # valid_coins_from seen cs
      else Ok c # valid_coins_from (coin_denom c # seen) cs)"

definition valid_coins :: "coin list \<Rightarrow> (coin, bank_error) outcome list" where
  "valid_coins cs = valid_coins_from [] cs"

text \<open>Decimal rendering of a \<open>Uint128\<close>, and \<open>coins_to_string\<close>.\<close>

function show_nat :: "nat \<Rightarrow> bytes" where
  "show_nat n = (if n < 10 then [of_nat (48 + n)] else show_nat (n div 10) @ [of_nat (48 + n mod 10)])"
  by pat_completeness auto
termination by (relation "measure id") auto

declare show_nat.simps [simp del]

fun coins_to_string :: "coin list \<Rightarrow> bytes" where
  "coins_to_string [] = []"
| "coins_to_string [c] = show_nat (coin_amount c) @ coin_denom c"
| "coins_to_string (c # cs) = show_nat (coin_amount c) @ coin_denom c @ ascii '','' @ coins_to_string cs"

section \<open>Reading\<close>

definition get_balance ::
  "'s bank_env \<Rightarrow> ('s, 'z) reader_scheme \<Rightarrow> account_id \<Rightarrow> denom \<Rightarrow> 's \<Rightarrow> (gas_meter, coin, pulsar_error) prog" where
  "get_balance env bank_storage account d s =
     m_bind (m_map_err pulsar_of_plus (map_may_load bank_storage (be_u128 env) BALANCES [account, d] s)) (\<lambda>amount.
     m_ret \<lparr>coin_denom = d, coin_amount = (case amount of None \<Rightarrow> 0 | Some a \<Rightarrow> a)\<rparr>)"

definition get_all_balances ::
  "'s bank_env \<Rightarrow> ('s, 'z) reader_scheme \<Rightarrow> account_id \<Rightarrow> 's \<Rightarrow> (gas_meter, coin list, pulsar_error) prog" where
  "get_all_balances env bank_storage account s =
     m_bind (m_map_err pulsar_of_plus
       (map_prefix_range bank_storage (be_string_from_vec env) (be_u128 env) BALANCES [account] s)) (\<lambda>vals.
     m_ret (map (\<lambda>(d, a). \<lparr>coin_denom = d, coin_amount = a\<rparr>) vals))"

definition get_supply ::
  "'s bank_env \<Rightarrow> ('s, 'z) reader_scheme \<Rightarrow> denom \<Rightarrow> 's \<Rightarrow> (gas_meter, nat, pulsar_error) prog" where
  "get_supply env bank_storage d s =
     m_bind (m_map_err pulsar_of_plus (map_may_load bank_storage (be_u128 env) SUPPLY [d] s)) (\<lambda>val.
     m_ret (case val of None \<Rightarrow> 0 | Some a \<Rightarrow> a))"

definition get_cw20_balance ::
  "'s bank_env \<Rightarrow> 's storage \<Rightarrow> block_info \<Rightarrow> account_id \<Rightarrow> account_id \<Rightarrow> 's \<Rightarrow> (gas_meter, coin, pulsar_error) prog" where
  "get_cw20_balance env st block account contract_addr s =
     m_bind (m_lift (of_option (PE_Std SerializeErr)
       (be_cw20_balance_query env (c_bech32_encode (be_crypto env) account)))) (\<lambda>msg.
     m_bind (be_wasm_smart env st block contract_addr msg s) (\<lambda>res.
     m_bind (m_lift (of_option (PE_Std ParseErr) (be_cw20_balance_response env res))) (\<lambda>balance.
     m_ret \<lparr>coin_denom = cw20_denom (be_crypto env) contract_addr, coin_amount = balance\<rparr>)))"

definition get_cw20_supply ::
  "'s bank_env \<Rightarrow> 's storage \<Rightarrow> block_info \<Rightarrow> account_id \<Rightarrow> 's \<Rightarrow> (gas_meter, nat, pulsar_error) prog" where
  "get_cw20_supply env st block contract_addr s =
     m_bind (m_lift (of_option (PE_Std SerializeErr) (be_cw20_token_info_query env))) (\<lambda>msg.
     m_bind (be_wasm_smart env st block contract_addr msg s) (\<lambda>res.
     m_lift (of_option (PE_Std ParseErr) (be_cw20_token_info_response env res))))"

section \<open>Moving coins\<close>

definition send_native ::
  "'s bank_env \<Rightarrow> 's storage \<Rightarrow> account_id \<Rightarrow> account_id \<Rightarrow> coin \<Rightarrow> ('s \<times> gas_meter, unit, pulsar_error) prog" where
  "send_native env bank_storage from_address to_address c =
     m_bind (m_map_err (\<lambda>_. PE_Bank (InsufficientFunds from_address))
       (map_update bank_storage (be_u128 env) id BALANCES [from_address, coin_denom c]
         (\<lambda>balance. u128_checked_sub (case balance of None \<Rightarrow> 0 | Some b \<Rightarrow> b) (coin_amount c)))) (\<lambda>_.
     m_bind (map_update bank_storage (be_u128 env) pulsar_of_plus BALANCES [to_address, coin_denom c]
         (\<lambda>balance. u128_add (case balance of None \<Rightarrow> 0 | Some b \<Rightarrow> b) (coin_amount c))) (\<lambda>_.
     m_ret ()))"

definition send_cw20 ::
  "'s bank_env \<Rightarrow> 's storage \<Rightarrow> block_info \<Rightarrow> account_id \<Rightarrow> account_id \<Rightarrow> account_id \<Rightarrow> nat
     \<Rightarrow> ('s \<times> gas_meter, unit, pulsar_error) prog" where
  "send_cw20 env st block from_address to_address contract_addr amount =
     m_bind (m_lift (of_option (PE_Std SerializeErr)
       (be_cw20_transfer env (c_bech32_encode (be_crypto env) to_address) amount))) (\<lambda>m.
     be_wasm_exec env st block from_address (Execute from_address contract_addr m []))"

definition mint ::
  "'s bank_env \<Rightarrow> 's storage \<Rightarrow> account_id \<Rightarrow> coin list \<Rightarrow> ('s \<times> gas_meter, unit, pulsar_error) prog" where
  "mint env bank_storage to_address amount =
     m_each (\<lambda>item.
       m_bind (m_map_err PE_Bank (m_lift item)) (\<lambda>c.
       m_bind (map_update bank_storage (be_u128 env) pulsar_of_plus SUPPLY [coin_denom c]
         (\<lambda>supply. u128_add (case supply of None \<Rightarrow> 0 | Some b \<Rightarrow> b) (coin_amount c))) (\<lambda>_.
       m_bind (map_update bank_storage (be_u128 env) pulsar_of_plus BALANCES [to_address, coin_denom c]
         (\<lambda>balance. u128_add (case balance of None \<Rightarrow> 0 | Some b \<Rightarrow> b) (coin_amount c))) (\<lambda>_.
       m_ret ()))))
       (valid_coins amount)"

definition burn_native ::
  "'s bank_env \<Rightarrow> 's storage \<Rightarrow> account_id \<Rightarrow> coin \<Rightarrow> ('s \<times> gas_meter, unit, pulsar_error) prog" where
  "burn_native env bank_storage from_address c =
     m_bind (m_map_err pulsar_of_plus
       (map_update bank_storage (be_u128 env) id SUPPLY [coin_denom c]
         (\<lambda>supply. u128_checked_sub (case supply of None \<Rightarrow> 0 | Some b \<Rightarrow> b) (coin_amount c)))) (\<lambda>_.
     m_bind (m_map_err (\<lambda>_. PE_Bank (InsufficientFunds from_address))
       (map_update bank_storage (be_u128 env) id BALANCES [from_address, coin_denom c]
         (\<lambda>balance. u128_checked_sub (case balance of None \<Rightarrow> 0 | Some b \<Rightarrow> b) (coin_amount c)))) (\<lambda>_.
     m_ret ()))"

definition burn_cw20 ::
  "'s bank_env \<Rightarrow> 's storage \<Rightarrow> block_info \<Rightarrow> account_id \<Rightarrow> account_id \<Rightarrow> nat
     \<Rightarrow> ('s \<times> gas_meter, unit, pulsar_error) prog" where
  "burn_cw20 env st block from_address contract_addr amount =
     m_bind (m_lift (of_option (PE_Std SerializeErr) (be_cw20_burn env amount))) (\<lambda>m.
     be_wasm_exec env st block from_address (Execute from_address contract_addr m []))"

definition bank_init_balance ::
  "'s bank_env \<Rightarrow> 's storage \<Rightarrow> account_id \<Rightarrow> coin list \<Rightarrow> ('s \<times> gas_meter, unit, pulsar_error) prog" where
  "bank_init_balance env st account amount =
     m_each (\<lambda>item.
       m_bind (m_map_err PE_Bank (m_lift item)) (\<lambda>c.
       m_bind (map_update (bank_store st) (be_u128 env) pulsar_of_plus SUPPLY [coin_denom c]
         (\<lambda>supply. u128_add (case supply of None \<Rightarrow> 0 | Some b \<Rightarrow> b) (coin_amount c))) (\<lambda>_.
       m_bind (map_update (bank_store st) (be_u128 env) pulsar_of_plus BALANCES [account, coin_denom c]
         (\<lambda>balance. case balance of
            None \<Rightarrow> Ok (coin_amount c)
          | Some _ \<Rightarrow> Err (PE_Bank (ReinitializeExistingAccount account)))) (\<lambda>_.
       m_ret ()))))
       (valid_coins amount)"

section \<open>The entry points\<close>

definition bank_transfer ::
  "'s bank_env \<Rightarrow> 's storage \<Rightarrow> block_info \<Rightarrow> account_id \<Rightarrow> account_id \<Rightarrow> coin list
     \<Rightarrow> ('s \<times> gas_meter, unit, pulsar_error) prog" where
  "bank_transfer env st block from_address to_address amount =
     m_each (\<lambda>item.
       m_bind (m_map_err PE_Bank (m_lift item)) (\<lambda>c.
       m_bind (m_map_err PE_AccountId (m_lift (from_denom (be_crypto env) (coin_denom c)))) (\<lambda>t.
       case t of
         Native _ \<Rightarrow> send_native env (bank_store st) from_address to_address c
       | Cw20 contract \<Rightarrow> send_cw20 env st block from_address to_address contract (coin_amount c))))
       (valid_coins amount)"

definition bank_burn ::
  "'s bank_env \<Rightarrow> 's storage \<Rightarrow> block_info \<Rightarrow> account_id \<Rightarrow> coin list \<Rightarrow> ('s \<times> gas_meter, unit, pulsar_error) prog" where
  "bank_burn env st block from_address amount =
     m_each (\<lambda>item.
       m_bind (m_map_err PE_Bank (m_lift item)) (\<lambda>c.
       m_bind (m_map_err PE_AccountId (m_lift (from_denom (be_crypto env) (coin_denom c)))) (\<lambda>t.
       case t of
         Native _ \<Rightarrow> burn_native env (bank_store st) from_address c
       | Cw20 contract \<Rightarrow> burn_cw20 env st block from_address contract (coin_amount c))))
       (valid_coins amount)"

text \<open>\<open>distribute_fees\<close>: everything the collector holds goes to the proposer, coin by coin.\<close>

fun distribute_coins ::
  "'s bank_env \<Rightarrow> 's storage \<Rightarrow> block_info \<Rightarrow> account_id \<Rightarrow> account_id \<Rightarrow> coin list
     \<Rightarrow> ('s \<times> gas_meter, coin list, pulsar_error) prog" where
  "distribute_coins env st block from_address to_address [] = m_ret []"
| "distribute_coins env st block from_address to_address (c # cs) =
     (if coin_amount c \<noteq> 0
      then m_bind (bank_transfer env st block from_address to_address [c]) (\<lambda>_.
           m_bind (distribute_coins env st block from_address to_address cs) (\<lambda>ds.
           m_ret (c # ds)))
      else distribute_coins env st block from_address to_address cs)"

definition distribute_fees ::
  "'s bank_env \<Rightarrow> 's storage \<Rightarrow> block_info \<Rightarrow> account_id \<Rightarrow> account_id
     \<Rightarrow> ('s \<times> gas_meter, coin list, pulsar_error) prog" where
  "distribute_fees env st block from_address to_address =
     m_bind (m_read (get_all_balances env (bank_store st) from_address)) (\<lambda>balances.
     distribute_coins env st block from_address to_address balances)"

record bank_account =
  ba_address :: bytes
  ba_balance :: "coin list"

definition bank_init ::
  "'s bank_env \<Rightarrow> 's storage \<Rightarrow> bank_account list \<Rightarrow> ('s \<times> gas_meter, unit, pulsar_error) prog" where
  "bank_init env st accounts =
     m_each (\<lambda>account.
       m_bind (m_map_err PE_AccountId (m_lift (account_id_parse_string (be_crypto env) (ba_address account)))) (\<lambda>address.
       mint env (bank_store st) address (ba_balance account)))
       accounts"

record event =
  ev_type :: bytes
  ev_attributes :: "(bytes \<times> bytes) list"

datatype bank_msg_data = Data_Send | Data_Burn

fun bank_process_msg ::
  "'s bank_env \<Rightarrow> 's storage \<Rightarrow> block_info \<Rightarrow> account_id \<Rightarrow> bank_msg
     \<Rightarrow> ('s \<times> gas_meter, event list \<times> bank_msg_data, pulsar_error) prog" where
  "bank_process_msg env st block who (Send sender recipient amount) =
     m_bind (m_ensure (who = sender) (PE_Bank Unauthorized)) (\<lambda>_.
     m_bind (bank_transfer env st block sender recipient amount) (\<lambda>_.
     m_ret ([\<lparr>ev_type = ascii ''transfer'', ev_attributes =
               [(ascii ''recipient'', c_bech32_encode (be_crypto env) recipient),
                (ascii ''sender'', c_bech32_encode (be_crypto env) sender),
                (ascii ''amount'', coins_to_string amount)]\<rparr>], Data_Send)))"
| "bank_process_msg env st block who (Burn sender amount) =
     m_bind (m_ensure (who = sender) (PE_Bank Unauthorized)) (\<lambda>_.
     m_bind (bank_burn env st block sender amount) (\<lambda>_.
     m_ret ([\<lparr>ev_type = ascii ''burn'', ev_attributes =
               [(ascii ''sender'', c_bech32_encode (be_crypto env) sender),
                (ascii ''amount'', coins_to_string amount)]\<rparr>], Data_Burn)))"

datatype bank_query = AllBalances account_id | Balance account_id denom | TotalSupply | Supply denom

datatype bank_response =
    AllBalanceResponse "coin list"
  | BalanceResponse coin
  | TotalSupplyResponse "coin list"
  | SupplyResponse coin

fun bank_do_query ::
  "'s bank_env \<Rightarrow> 's storage \<Rightarrow> block_info \<Rightarrow> bank_query \<Rightarrow> 's \<Rightarrow> (gas_meter, bank_response, pulsar_error) prog" where
  "bank_do_query env st block (AllBalances address) s =
     m_bind (get_all_balances env (bank_store st) address s) (\<lambda>amount. m_ret (AllBalanceResponse amount))"
| "bank_do_query env st block (Balance address d) s =
     m_bind (m_map_err PE_AccountId (m_lift (from_denom (be_crypto env) d))) (\<lambda>t.
     m_bind (case t of
               Native d' \<Rightarrow> get_balance env (bank_store st) address d' s
             | Cw20 contract \<Rightarrow> get_cw20_balance env st block address contract s) (\<lambda>amount.
     m_ret (BalanceResponse amount)))"
| "bank_do_query env st block TotalSupply s =
     m_bind (m_map_err pulsar_of_plus
       (map_prefix_range (bank_store st) (be_string_from_vec env) (be_u128 env) SUPPLY [] s)) (\<lambda>vals.
     m_ret (TotalSupplyResponse (map (\<lambda>(d, a). \<lparr>coin_denom = d, coin_amount = a\<rparr>) vals)))"
| "bank_do_query env st block (Supply d) s =
     m_bind (m_map_err PE_AccountId (m_lift (from_denom (be_crypto env) d))) (\<lambda>t.
     m_bind (case t of
               Native d' \<Rightarrow> get_supply env (bank_store st) d' s
             | Cw20 contract \<Rightarrow> get_cw20_supply env st block contract s) (\<lambda>amount.
     m_ret (SupplyResponse \<lparr>coin_denom = d, coin_amount = amount\<rparr>)))"

section \<open>The ledger a store holds\<close>

text \<open>
  The abstract ledger: amounts per account and denomination, and the supply per denomination.
  Accounts whose id does not fit a two-byte length prefix cannot be stored.
\<close>

definition balance_key :: "account_id \<Rightarrow> denom \<Rightarrow> bytes" where
  "balance_key a d = lp NAMESPACE_BANK @ lp BALANCES @ lp a @ d"

definition supply_key :: "denom \<Rightarrow> bytes" where
  "supply_key d = lp NAMESPACE_BANK @ lp SUPPLY @ d"

definition ledger_balance :: "nat codec \<Rightarrow> (bytes \<Rightarrow> bytes option) \<Rightarrow> account_id \<times> denom \<Rightarrow> nat" where
  "ledger_balance c m ad =
     (if length (fst ad) \<le> 0xFFFF
      then case typed c m (balance_key (fst ad) (snd ad)) of None \<Rightarrow> 0 | Some n \<Rightarrow> n else 0)"

definition ledger_supply :: "nat codec \<Rightarrow> (bytes \<Rightarrow> bytes option) \<Rightarrow> denom \<Rightarrow> nat" where
  "ledger_supply c m d = (case typed c m (supply_key d) of None \<Rightarrow> 0 | Some n \<Rightarrow> n)"

text \<open>What is outside the namespace of the bank.\<close>

definition outside_bank :: "(bytes \<Rightarrow> bytes option) \<Rightarrow> (bytes \<Rightarrow> bytes option)" where
  "outside_bank m k = (if \<exists>x. k = lp NAMESPACE_BANK @ x then None else m k)"

lemma bank_names [simp]:
  "length BALANCES = 8" "length SUPPLY = 6" "length NAMESPACE_BANK = 4" "length CW20_PREFIX = 5"
  by (simp_all add: BALANCES_def SUPPLY_def NAMESPACE_BANK_def CW20_PREFIX_def ascii_def)

lemma lp_bank: "lp NAMESPACE_BANK \<noteq> []" "last (lp NAMESPACE_BANK) \<noteq> 255"
  by (simp_all add: lp_def NAMESPACE_BANK_def ascii_def)

lemma supply_neq_balances: "SUPPLY \<noteq> BALANCES"
proof
  assume "SUPPLY = BALANCES"
  then have "length SUPPLY = length BALANCES" by (rule arg_cong)
  then show False by simp
qed

lemma balance_key_inject:
  "\<lbrakk>balance_key a d = balance_key a' d'; length a \<le> 0xFFFF; length a' \<le> 0xFFFF\<rbrakk> \<Longrightarrow> a = a' \<and> d = d'"
  unfolding balance_key_def by (auto dest: lp_inject)

lemma supply_key_inject [simp]: "supply_key d = supply_key d' \<longleftrightarrow> d = d'"
  by (simp add: supply_key_def)

lemma supply_key_neq_balance [simp]: "supply_key d \<noteq> balance_key a d'" "balance_key a d' \<noteq> supply_key d"
  using lp_inject [of SUPPLY d BALANCES "lp a @ d'"] supply_neq_balances
  by (auto simp: supply_key_def balance_key_def)

lemma ledger_set_balance:
  assumes "codec_ok c" "enc c n = Some b" "length a \<le> 0xFFFF"
  shows "ledger_balance c (m(balance_key a d \<mapsto> b)) = (ledger_balance c m)((a, d) := n)"
    and "ledger_supply c (m(balance_key a d \<mapsto> b)) = ledger_supply c m"
    and "outside_bank (m(balance_key a d \<mapsto> b)) = outside_bank m"
proof -
  show "ledger_balance c (m(balance_key a d \<mapsto> b)) = (ledger_balance c m)((a, d) := n)"
  proof
    fix ad :: "account_id \<times> denom"
    show "ledger_balance c (m(balance_key a d \<mapsto> b)) ad = ((ledger_balance c m)((a, d) := n)) ad"
      using assms balance_key_inject [of "fst ad" "snd ad" a d]
      by (cases ad) (auto simp: ledger_balance_def typed_upd)
  qed
  show "ledger_supply c (m(balance_key a d \<mapsto> b)) = ledger_supply c m"
    using assms by (auto simp: ledger_supply_def typed_upd fun_eq_iff)
  show "outside_bank (m(balance_key a d \<mapsto> b)) = outside_bank m"
    by (auto simp: outside_bank_def balance_key_def fun_eq_iff)
qed

lemma ledger_set_supply:
  assumes "codec_ok c" "enc c n = Some b"
  shows "ledger_supply c (m(supply_key d \<mapsto> b)) = (ledger_supply c m)(d := n)"
    and "ledger_balance c (m(supply_key d \<mapsto> b)) = ledger_balance c m"
    and "outside_bank (m(supply_key d \<mapsto> b)) = outside_bank m"
proof -
  show "ledger_supply c (m(supply_key d \<mapsto> b)) = (ledger_supply c m)(d := n)"
    "ledger_balance c (m(supply_key d \<mapsto> b)) = ledger_balance c m"
    using assms by (auto simp: ledger_supply_def ledger_balance_def typed_upd fun_eq_iff)
  show "outside_bank (m(supply_key d \<mapsto> b)) = outside_bank m"
    by (auto simp: outside_bank_def supply_key_def fun_eq_iff)
qed

lemma map_key_balances: "map_key BALANCES [a, d] = Ok p \<longleftrightarrow> length a \<le> 0xFFFF \<and> p = lp BALANCES @ lp a @ d"
  by (auto simp: map_key_def path_new_Ok)

lemma map_key_supply: "map_key SUPPLY [d] = Ok p \<longleftrightarrow> p = lp SUPPLY @ d"
  by (auto simp: map_key_def path_new_Ok)

lemma typed_prefix: "typed c (\<lambda>k. m (p @ k)) k = typed c m (p @ k)"
  by (simp add: typed_def)

context storage_laws
begin

lemma bank_store_laws: "storage_laws (bank_store rd) (\<lambda>s k. view s (lp NAMESPACE_BANK @ k)) inv"
  unfolding bank_store_def using prefixed_laws [OF lp_bank] .

text \<open>One update of a balance, or of a supply, as seen in the ledger.\<close>

lemma bank_store_update:
  assumes "path_update (bank_store rd) c conv p act (s, g) = (Ok n, (s', g'))" and "inv s"
  shows "act (typed c (view s) (lp NAMESPACE_BANK @ p)) = Ok n" and "inv s'"
    and "\<exists>b. enc c n = Some b \<and> view s' = (view s)(lp NAMESPACE_BANK @ p \<mapsto> b)"
proof -
  from assms(1) obtain inp g1 where
    load: "path_may_load (bank_store rd) c p s g = (Ok inp, g1)" and act: "act inp = Ok n"
    and save: "path_save (bank_store rd) c p n (s, g1) = (Ok (), (s', g'))"
    by (auto simp: path_update_def m_bind_Ok m_map_err_Ok)
  have "path_save (bank_store rd) c p n = path_save rd c (lp NAMESPACE_BANK @ p) n"
    by (simp add: path_save_def bank_store_def prefixed_storage_def prefixed_set_def)
  with path_save_view save assms(2)
  show "inv s'" "\<exists>b. enc c n = Some b \<and> view s' = (view s)(lp NAMESPACE_BANK @ p \<mapsto> b)" by metis+
  have "path_may_load (bank_store rd) c p = path_may_load rd c (lp NAMESPACE_BANK @ p)"
    by (simp add: path_may_load_def bank_store_def prefixed_storage_def prefixed_get_def fun_eq_iff)
  with path_may_load_view load assms(2) act
  show "act (typed c (view s) (lp NAMESPACE_BANK @ p)) = Ok n" by metis
qed

lemma update_balance:
  assumes "map_update (bank_store rd) c conv BALANCES [a, d] act (s, g) = (Ok n, (s', g'))"
    and "inv s" and "codec_ok c"
  shows "length a \<le> 0xFFFF" and "act (typed c (view s) (balance_key a d)) = Ok n" and "inv s'"
    and "ledger_balance c (view s') = (ledger_balance c (view s))((a, d) := n)"
    and "ledger_supply c (view s') = ledger_supply c (view s)"
    and "outside_bank (view s') = outside_bank (view s)"
proof -
  from assms(1) have len: "length a \<le> 0xFFFF"
    and run: "path_update (bank_store rd) c conv (lp BALANCES @ lp a @ d) act (s, g) = (Ok n, (s', g'))"
    by (auto simp: map_update_def m_bind_Ok map_key_balances)
  note up = bank_store_update [OF run assms(2), folded balance_key_def]
  from up(3) obtain b where "enc c n = Some b" "view s' = (view s)(balance_key a d \<mapsto> b)" by blast
  with ledger_set_balance [OF assms(3) _ len] len up(1,2) show
    "length a \<le> 0xFFFF" "act (typed c (view s) (balance_key a d)) = Ok n" "inv s'"
    "ledger_balance c (view s') = (ledger_balance c (view s))((a, d) := n)"
    "ledger_supply c (view s') = ledger_supply c (view s)"
    "outside_bank (view s') = outside_bank (view s)" by simp_all
qed

lemma update_supply:
  assumes "map_update (bank_store rd) c conv SUPPLY [d] act (s, g) = (Ok n, (s', g'))"
    and "inv s" and "codec_ok c"
  shows "act (typed c (view s) (supply_key d)) = Ok n" and "inv s'"
    and "ledger_supply c (view s') = (ledger_supply c (view s))(d := n)"
    and "ledger_balance c (view s') = ledger_balance c (view s)"
    and "outside_bank (view s') = outside_bank (view s)"
proof -
  from assms(1) have
    run: "path_update (bank_store rd) c conv (lp SUPPLY @ d) act (s, g) = (Ok n, (s', g'))"
    by (auto simp: map_update_def m_bind_Ok map_key_supply)
  note up = bank_store_update [OF run assms(2), folded supply_key_def]
  from up(3) obtain b where "enc c n = Some b" "view s' = (view s)(supply_key d \<mapsto> b)" by blast
  with ledger_set_supply [OF assms(3)] up(1,2) show
    "act (typed c (view s) (supply_key d)) = Ok n" "inv s'"
    "ledger_supply c (view s') = (ledger_supply c (view s))(d := n)"
    "ledger_balance c (view s') = ledger_balance c (view s)"
    "outside_bank (view s') = outside_bank (view s)" by simp_all
qed

end

section \<open>The abstract bank\<close>

definition ledger_send ::
  "account_id \<Rightarrow> account_id \<Rightarrow> coin \<Rightarrow> (account_id \<times> denom \<Rightarrow> nat) \<Rightarrow> (account_id \<times> denom \<Rightarrow> nat)" where
  "ledger_send from_address to_address c B =
     (let d = coin_denom c; n = coin_amount c;
          B1 = B((from_address, d) := B (from_address, d) - n)
      in B1((to_address, d) := B1 (to_address, d) + n))"

text \<open>The supply of a denomination is what all accounts hold together.\<close>

definition backed :: "nat codec \<Rightarrow> (bytes \<Rightarrow> bytes option) \<Rightarrow> denom \<Rightarrow> bool" where
  "backed c m d \<longleftrightarrow>
     (\<exists>A. finite A \<and> (\<forall>a. a \<notin> A \<longrightarrow> ledger_balance c m (a, d) = 0) \<and>
          ledger_supply c m d = (\<Sum>a\<in>A. ledger_balance c m (a, d)))"

definition all_backed :: "nat codec \<Rightarrow> (bytes \<Rightarrow> bytes option) \<Rightarrow> bool" where
  "all_backed c m \<longleftrightarrow> (\<forall>d. backed c m d)"

definition native_denom :: "denom \<Rightarrow> bool" where
  "native_denom d \<longleftrightarrow> take (length CW20_PREFIX) d \<noteq> CW20_PREFIX"

lemma from_denom_native: "native_denom d \<Longrightarrow> from_denom cr d = Ok (Native d)"
  by (simp add: native_denom_def from_denom_def)

lemma sum_fun_upd:
  "finite A \<Longrightarrow> x \<in> A \<Longrightarrow> (\<Sum>a\<in>A. (f(x := v)) a) + f x = (\<Sum>a\<in>A. f a) + (v::nat)"
proof -
  assume A: "finite A" "x \<in> A"
  have "(\<Sum>a\<in>A - {x}. (f(x := v)) a) = (\<Sum>a\<in>A - {x}. f a)" by (rule sum.cong) auto
  with sum.remove [OF A, of "f(x := v)"] sum.remove [OF A, of f] show ?thesis by simp
qed

lemma ledger_send_sum:
  assumes "finite A" "f \<in> A" "t \<in> A" "coin_amount c \<le> B (f, coin_denom c)"
  shows "(\<Sum>a\<in>A. ledger_send f t c B (a, d)) = (\<Sum>a\<in>A. B (a, d))"
proof (cases "d = coin_denom c")
  case False
  then show ?thesis by (simp add: ledger_send_def Let_def)
next
  case True
  let ?n = "coin_amount c"
  let ?b = "\<lambda>a. B (a, d)"
  let ?b1 = "?b(f := ?b f - ?n)"
  have "(\<Sum>a\<in>A. ledger_send f t c B (a, d)) = (\<Sum>a\<in>A. (?b1(t := ?b1 t + ?n)) a)"
    by (rule sum.cong) (auto simp: ledger_send_def Let_def True)
  moreover have "(\<Sum>a\<in>A. (?b1(t := ?b1 t + ?n)) a) + ?b1 t = (\<Sum>a\<in>A. ?b1 a) + (?b1 t + ?n)"
    using assms by (intro sum_fun_upd)
  moreover have "(\<Sum>a\<in>A. ?b1 a) + ?b f = (\<Sum>a\<in>A. ?b a) + (?b f - ?n)"
    using assms by (intro sum_fun_upd)
  moreover have "?n \<le> ?b f" using assms(4) True by simp
  ultimately show ?thesis by linarith
qed

lemma valid_coins_from_Ok:
  "\<forall>x\<in>set (valid_coins_from seen cs). \<exists>c. x = Ok c \<Longrightarrow>
     valid_coins_from seen cs = map Ok (filter (\<lambda>c. coin_amount c \<noteq> 0) cs) \<and>
     distinct (map coin_denom (filter (\<lambda>c. coin_amount c \<noteq> 0) cs)) \<and>
     set seen \<inter> coin_denom ` set (filter (\<lambda>c. coin_amount c \<noteq> 0) cs) = {} \<and>
     (seen = [] \<longrightarrow> filter (\<lambda>c. coin_amount c \<noteq> 0) cs \<noteq> [])"
proof (induction seen cs rule: valid_coins_from.induct)
  case (1 seen)
  then show ?case by (auto split: if_splits)
next
  case (2 seen c cs)
  show ?case
  proof (cases "coin_amount c = 0")
    case True
    with 2 show ?thesis by simp
  next
    case False
    with "2.prems" have "coin_denom c \<notin> set seen" by (auto split: if_splits)
    with False 2 show ?thesis by auto
  qed
qed

definition nonzero :: "coin list \<Rightarrow> coin list" where
  "nonzero cs = filter (\<lambda>c. coin_amount c \<noteq> 0) cs"

lemma valid_coins_Ok:
  "\<forall>x\<in>set (valid_coins cs). \<exists>c. x = Ok c \<Longrightarrow>
     valid_coins cs = map Ok (nonzero cs) \<and> distinct (map coin_denom (nonzero cs)) \<and> nonzero cs \<noteq> []"
  unfolding valid_coins_def nonzero_def using valid_coins_from_Ok [of "[]" cs] by simp

lemma map_Ok_inject: "map Ok xs = map Ok ys \<longleftrightarrow> xs = ys"
  by (rule inj_map_eq_map) (simp add: inj_def)

lemma m_each_Ok_items:
  "m_each (\<lambda>item. m_bind (m_map_err h (m_lift item)) f) xs s = (Ok u, t) \<Longrightarrow> \<forall>x\<in>set xs. \<exists>c. x = Ok c"
  by (induction xs arbitrary: s) (auto simp: m_bind_Ok m_map_err_Ok)

lemma ledger_balance_case:
  "length a \<le> 0xFFFF \<Longrightarrow>
     (case typed c m (balance_key a d) of None \<Rightarrow> 0 | Some n \<Rightarrow> n) = ledger_balance c m (a, d)"
  by (simp add: ledger_balance_def)

lemma ledger_supply_case: "(case typed c m (supply_key d) of None \<Rightarrow> 0 | Some n \<Rightarrow> n) = ledger_supply c m d"
  by (simp add: ledger_supply_def)

context storage_laws
begin

lemma send_native_ledger:
  assumes "send_native env (bank_store rd) f t c (s, g) = (Ok u, (s', g'))"
    and "inv s" and "codec_ok (be_u128 env)"
  shows "inv s'" and "coin_amount c \<le> ledger_balance (be_u128 env) (view s) (f, coin_denom c)"
    and "ledger_balance (be_u128 env) (view s') = ledger_send f t c (ledger_balance (be_u128 env) (view s))"
    and "ledger_supply (be_u128 env) (view s') = ledger_supply (be_u128 env) (view s)"
    and "outside_bank (view s') = outside_bank (view s)"
proof -
  let ?c = "be_u128 env"
  from assms(1) obtain n1 s1 g1 n2 where
    u1: "map_update (bank_store rd) ?c id BALANCES [f, coin_denom c]
           (\<lambda>b. u128_checked_sub (case b of None \<Rightarrow> 0 | Some b \<Rightarrow> b) (coin_amount c)) (s, g) = (Ok n1, (s1, g1))"
    and u2: "map_update (bank_store rd) ?c pulsar_of_plus BALANCES [t, coin_denom c]
           (\<lambda>b. u128_add (case b of None \<Rightarrow> 0 | Some b \<Rightarrow> b) (coin_amount c)) (s1, g1) = (Ok n2, (s', g'))"
    by (auto simp: send_native_def m_bind_Ok m_map_err_Ok)
  note l1 = update_balance [OF u1 assms(2,3)]
  note l2 = update_balance [OF u2 l1(3) assms(3)]
  from l1(1,2) have n1: "coin_amount c \<le> ledger_balance ?c (view s) (f, coin_denom c)"
    "n1 = ledger_balance ?c (view s) (f, coin_denom c) - coin_amount c"
    by (auto simp: ledger_balance_case)
  from l2(1,2) have n2: "n2 = ledger_balance ?c (view s1) (t, coin_denom c) + coin_amount c"
    by (auto simp: ledger_balance_case)
  show "ledger_balance ?c (view s') = ledger_send f t c (ledger_balance ?c (view s))"
    using l1(4) l2(4) n1(2) n2 by (simp add: ledger_send_def Let_def)
  show "inv s'" "coin_amount c \<le> ledger_balance ?c (view s) (f, coin_denom c)"
    "ledger_supply ?c (view s') = ledger_supply ?c (view s)" "outside_bank (view s') = outside_bank (view s)"
    using l2(3) n1(1) l1(5,6) l2(5,6) by simp_all
qed

text \<open>What one step of a loop over coins keeps, whatever the loop does with a coin.\<close>

lemma native_step:
  assumes "m_bind (m_map_err PE_Bank (m_lift item)) (\<lambda>c.
             m_bind (m_map_err PE_AccountId (m_lift (from_denom cr (coin_denom c)))) (\<lambda>t.
             case t of Native _ \<Rightarrow> p c | Cw20 contract \<Rightarrow> q contract c)) sg = (Ok (), sg')"
    and "item = Ok c" and "native_denom (coin_denom c)"
  shows "p c sg = (Ok (), sg')"
  using assms by (auto simp: m_bind_Ok m_map_err_Ok from_denom_native)

lemma bank_transfer_ledger:
  fixes s :: 's and env :: "'s bank_env"
  defines "LB \<equiv> \<lambda>s. ledger_balance (be_u128 env) (view s)"
    and "LS \<equiv> \<lambda>s. ledger_supply (be_u128 env) (view s)"
  assumes run: "bank_transfer env rd blk f t cs (s, g) = (Ok u, (s', g'))"
    and s: "inv s" and ok: "codec_ok (be_u128 env)" and native: "\<forall>c\<in>set cs. native_denom (coin_denom c)"
  shows "inv s' \<and> LB s' = fold (ledger_send f t) (nonzero cs) (LB s) \<and> LS s' = LS s \<and>
     outside_bank (view s') = outside_bank (view s) \<and> distinct (map coin_denom (nonzero cs)) \<and> nonzero cs \<noteq> []"
    and "\<lbrakk>finite A; f \<in> A; t \<in> A\<rbrakk> \<Longrightarrow> (\<Sum>a\<in>A. LB s' (a, d)) = (\<Sum>a\<in>A. LB s (a, d))"
proof -
  let ?step = "\<lambda>item. m_bind (m_map_err PE_Bank (m_lift item)) (\<lambda>c.
       m_bind (m_map_err PE_AccountId (m_lift (from_denom (be_crypto env) (coin_denom c)))) (\<lambda>ty.
       case ty of Native _ \<Rightarrow> send_native env (bank_store rd) f t c
                | Cw20 contract \<Rightarrow> send_cw20 env rd blk f t contract (coin_amount c)))"
  let ?R = "\<lambda>ys (sg :: 's \<times> gas_meter). \<exists>ds. ys = map Ok ds \<and> inv (fst sg) \<and>
     LB (fst sg) = fold (ledger_send f t) ds (LB s) \<and> LS (fst sg) = LS s \<and>
     outside_bank (view (fst sg)) = outside_bank (view s) \<and>
     (\<forall>A d. finite A \<longrightarrow> f \<in> A \<longrightarrow> t \<in> A \<longrightarrow> (\<Sum>a\<in>A. LB (fst sg) (a, d)) = (\<Sum>a\<in>A. LB s (a, d)))"
  have loop: "m_each ?step (valid_coins cs) (s, g) = (Ok u, (s', g'))"
    using run by (simp add: bank_transfer_def)
  note items = valid_coins_Ok [OF m_each_Ok_items [OF loop]]
  from loop have "?R (valid_coins cs) (s', g')"
  proof (induction rule: m_each_Ok_induct)
    case start
    then show ?case using s by simp
  next
    case (step ys item sg sg')
    then obtain ds where ds: "ys = map Ok ds" "inv (fst sg)" "LB (fst sg) = fold (ledger_send f t) ds (LB s)"
      "LS (fst sg) = LS s" "outside_bank (view (fst sg)) = outside_bank (view s)"
      "\<forall>A d. finite A \<longrightarrow> f \<in> A \<longrightarrow> t \<in> A \<longrightarrow> (\<Sum>a\<in>A. LB (fst sg) (a, d)) = (\<Sum>a\<in>A. LB s (a, d))"
      by blast
    from step(3) items obtain c where c: "item = Ok c" "c \<in> set cs" by (auto simp: nonzero_def)
    have "send_native env (bank_store rd) f t c (fst sg, snd sg) = (Ok (), (fst sg', snd sg'))"
      using native_step [OF step(2) c(1)] native c(2) by simp
    note l = send_native_ledger [OF this ds(2) ok]
    have "(\<Sum>a\<in>A. LB (fst sg') (a, d)) = (\<Sum>a\<in>A. LB (fst sg) (a, d))"
      if "finite A" "f \<in> A" "t \<in> A" for A d
      using ledger_send_sum [OF that, of c "LB (fst sg)" d] l(2,3) by (simp add: LB_def)
    with ds l c(1) show ?case
      by (intro exI [of _ "ds @ [c]"]) (auto simp: LB_def LS_def)
  qed
  then obtain ds where eq: "valid_coins cs = map Ok ds" and R: "inv s'"
    "LB s' = fold (ledger_send f t) ds (LB s)" "LS s' = LS s" "outside_bank (view s') = outside_bank (view s)"
    and sums: "\<forall>A d. finite A \<longrightarrow> f \<in> A \<longrightarrow> t \<in> A \<longrightarrow> (\<Sum>a\<in>A. LB s' (a, d)) = (\<Sum>a\<in>A. LB s (a, d))"
    by auto
  have "ds = nonzero cs" using eq items by (metis map_Ok_inject)
  with R items show "inv s' \<and> LB s' = fold (ledger_send f t) (nonzero cs) (LB s) \<and> LS s' = LS s \<and>
     outside_bank (view s') = outside_bank (view s) \<and> distinct (map coin_denom (nonzero cs)) \<and> nonzero cs \<noteq> []"
    by simp
  show "\<lbrakk>finite A; f \<in> A; t \<in> A\<rbrakk> \<Longrightarrow> (\<Sum>a\<in>A. LB s' (a, d)) = (\<Sum>a\<in>A. LB s (a, d))"
    using sums by blast
qed

lemma burn_native_ledger:
  assumes "burn_native env (bank_store rd) f c (s, g) = (Ok u, (s', g'))"
    and "inv s" and "codec_ok (be_u128 env)"
  shows "inv s'" and "coin_amount c \<le> ledger_balance (be_u128 env) (view s) (f, coin_denom c)"
    and "coin_amount c \<le> ledger_supply (be_u128 env) (view s) (coin_denom c)"
    and "ledger_balance (be_u128 env) (view s') = (ledger_balance (be_u128 env) (view s))
           ((f, coin_denom c) := ledger_balance (be_u128 env) (view s) (f, coin_denom c) - coin_amount c)"
    and "ledger_supply (be_u128 env) (view s') = (ledger_supply (be_u128 env) (view s))
           (coin_denom c := ledger_supply (be_u128 env) (view s) (coin_denom c) - coin_amount c)"
    and "outside_bank (view s') = outside_bank (view s)"
proof -
  let ?c = "be_u128 env"
  from assms(1) obtain n1 s1 g1 n2 where
    u1: "map_update (bank_store rd) ?c id SUPPLY [coin_denom c]
           (\<lambda>b. u128_checked_sub (case b of None \<Rightarrow> 0 | Some b \<Rightarrow> b) (coin_amount c)) (s, g) = (Ok n1, (s1, g1))"
    and u2: "map_update (bank_store rd) ?c id BALANCES [f, coin_denom c]
           (\<lambda>b. u128_checked_sub (case b of None \<Rightarrow> 0 | Some b \<Rightarrow> b) (coin_amount c)) (s1, g1) = (Ok n2, (s', g'))"
    by (auto simp: burn_native_def m_bind_Ok m_map_err_Ok)
  note l1 = update_supply [OF u1 assms(2,3)]
  note l2 = update_balance [OF u2 l1(2) assms(3)]
  from l1(1) have n1: "coin_amount c \<le> ledger_supply ?c (view s) (coin_denom c)"
    "n1 = ledger_supply ?c (view s) (coin_denom c) - coin_amount c"
    by (auto simp: ledger_supply_case)
  from l2(1,2) l1(4) have n2: "coin_amount c \<le> ledger_balance ?c (view s) (f, coin_denom c)"
    "n2 = ledger_balance ?c (view s) (f, coin_denom c) - coin_amount c"
    by (auto simp: ledger_balance_case)
  show "inv s'" "coin_amount c \<le> ledger_balance ?c (view s) (f, coin_denom c)"
    "coin_amount c \<le> ledger_supply ?c (view s) (coin_denom c)"
    "ledger_balance ?c (view s') = (ledger_balance ?c (view s))
       ((f, coin_denom c) := ledger_balance ?c (view s) (f, coin_denom c) - coin_amount c)"
    "ledger_supply ?c (view s') = (ledger_supply ?c (view s))
       (coin_denom c := ledger_supply ?c (view s) (coin_denom c) - coin_amount c)"
    "outside_bank (view s') = outside_bank (view s)"
    using n1 n2 l1(3-5) l2(3-6) by simp_all
qed

text \<open>
  The order of the two writes of a burn: when the account turns out not to hold the coins, the
  supply has already been reduced.
\<close>

lemma burn_native_insufficient:
  assumes "burn_native env (bank_store rd) f c (s, g) = (Err (PE_Bank (InsufficientFunds f)), (s', g'))"
    and "inv s" and "codec_ok (be_u128 env)"
  shows "ledger_supply (be_u128 env) (view s') = (ledger_supply (be_u128 env) (view s))
           (coin_denom c := ledger_supply (be_u128 env) (view s) (coin_denom c) - coin_amount c)"
    and "coin_amount c \<le> ledger_supply (be_u128 env) (view s) (coin_denom c)"
    and "ledger_balance (be_u128 env) (view s') = ledger_balance (be_u128 env) (view s)"
proof -
  let ?c = "be_u128 env"
  have not_gas: "pulsar_of_plus e \<noteq> PE_Bank (InsufficientFunds f)" for e by (cases e) auto
  from assms(1) obtain n1 s1 g1 e where
    u1: "map_update (bank_store rd) ?c id SUPPLY [coin_denom c]
           (\<lambda>b. u128_checked_sub (case b of None \<Rightarrow> 0 | Some b \<Rightarrow> b) (coin_amount c)) (s, g) = (Ok n1, (s1, g1))"
    and u2: "map_update (bank_store rd) ?c id BALANCES [f, coin_denom c]
           (\<lambda>b. u128_checked_sub (case b of None \<Rightarrow> 0 | Some b \<Rightarrow> b) (coin_amount c)) (s1, g1) = (Err e, (s', g'))"
    using not_gas by (fastforce simp: burn_native_def m_bind_Err m_map_err_Err m_map_err_Ok)
  note l1 = update_supply [OF u1 assms(2,3)]
  have "s' = s1"
  proof -
    have "path_update (bank_store rd) ?c id p act (s1, g1) = (Err e, (s', g')) \<Longrightarrow> s' = s1" for p act
      using storage_laws.path_update_fail [OF bank_store_laws, of ?c id p act s1 g1 "Err e" s' g'] by simp
    with u2 show ?thesis by (auto simp: map_update_def m_bind_Err)
  qed
  with l1 show
    "ledger_supply ?c (view s') = (ledger_supply ?c (view s))
       (coin_denom c := ledger_supply ?c (view s) (coin_denom c) - coin_amount c)"
    "coin_amount c \<le> ledger_supply ?c (view s) (coin_denom c)"
    "ledger_balance ?c (view s') = ledger_balance ?c (view s)"
    by (auto simp: ledger_supply_case)
qed

section \<open>The supply stays backed\<close>

lemma backed_send:
  assumes "backed c m d" "ledger_balance c m' = ledger_send f t cn (ledger_balance c m)"
    "ledger_supply c m' = ledger_supply c m" "coin_amount cn \<le> ledger_balance c m (f, coin_denom cn)"
  shows "backed c m' d"
proof -
  from assms(1) obtain A where A: "finite A" "\<forall>a. a \<notin> A \<longrightarrow> ledger_balance c m (a, d) = 0"
    "ledger_supply c m d = (\<Sum>a\<in>A. ledger_balance c m (a, d))" by (auto simp: backed_def)
  let ?A = "A \<union> {f, t}"
  have "(\<Sum>a\<in>?A. ledger_balance c m' (a, d)) = (\<Sum>a\<in>?A. ledger_balance c m (a, d))"
    unfolding assms(2) using A(1) assms(4) by (intro ledger_send_sum) auto
  also have "\<dots> = (\<Sum>a\<in>A. ledger_balance c m (a, d))"
    using A(1,2) by (intro sum.mono_neutral_right) auto
  finally have "ledger_supply c m' d = (\<Sum>a\<in>?A. ledger_balance c m' (a, d))" using A(3) assms(3) by simp
  moreover have "\<forall>a. a \<notin> ?A \<longrightarrow> ledger_balance c m' (a, d) = 0"
    using A(2) assms(2) by (auto simp: ledger_send_def Let_def)
  ultimately show ?thesis using A(1) unfolding backed_def by (intro exI [of _ ?A]) auto
qed

lemma backed_change:
  assumes "backed c m d" "ledger_balance c m' = (ledger_balance c m)((f, d') := n)"
    "ledger_supply c m' = (ledger_supply c m)(d' := w)"
    "w + ledger_balance c m (f, d') = ledger_supply c m d' + n"
  shows "backed c m' d"
proof -
  from assms(1) obtain A where A: "finite A" "\<forall>a. a \<notin> A \<longrightarrow> ledger_balance c m (a, d) = 0"
    "ledger_supply c m d = (\<Sum>a\<in>A. ledger_balance c m (a, d))" by (auto simp: backed_def)
  let ?A = "insert f A"
  let ?b = "\<lambda>a. ledger_balance c m (a, d)"
  have sumA: "(\<Sum>a\<in>?A. ?b a) = ledger_supply c m d"
    unfolding A(3) using A(1,2) by (intro sum.mono_neutral_right) auto
  have "ledger_supply c m' d = (\<Sum>a\<in>?A. ledger_balance c m' (a, d))"
  proof (cases "d = d'")
    case True
    have "(\<Sum>a\<in>?A. ledger_balance c m' (a, d)) = (\<Sum>a\<in>?A. (?b(f := n)) a)"
      by (rule sum.cong) (auto simp: assms(2) True)
    moreover have "(\<Sum>a\<in>?A. (?b(f := n)) a) + ?b f = (\<Sum>a\<in>?A. ?b a) + n"
      using A(1) by (intro sum_fun_upd) auto
    ultimately show ?thesis using sumA assms(3,4) True by simp
  next
    case False
    with sumA assms(2,3) show ?thesis by simp
  qed
  moreover have "\<forall>a. a \<notin> ?A \<longrightarrow> ledger_balance c m' (a, d) = 0"
    using A(2) assms(2) by auto
  ultimately show ?thesis using A(1) unfolding backed_def by (intro exI [of _ ?A]) auto
qed

abbreviation bank_ok :: "'s bank_env \<Rightarrow> 's \<Rightarrow> bool" where
  "bank_ok env s \<equiv> inv s \<and> all_backed (be_u128 env) (view s)"

lemma native_loop_keeps:
  assumes run: "m_each (\<lambda>item. m_bind (m_map_err PE_Bank (m_lift item)) (\<lambda>c.
             m_bind (m_map_err PE_AccountId (m_lift (from_denom cr (coin_denom c)))) (\<lambda>t.
             case t of Native _ \<Rightarrow> p c | Cw20 contract \<Rightarrow> q contract c))) (valid_coins cs) sg = (Ok u, sg')"
    and "P sg" and native: "\<forall>c\<in>set cs. native_denom (coin_denom c)"
    and step: "\<And>c sg sg'. \<lbrakk>P sg; p c sg = (Ok (), sg')\<rbrakk> \<Longrightarrow> P sg'"
  shows "P sg'"
proof -
  note items = valid_coins_Ok [OF m_each_Ok_items [OF run]]
  from run show ?thesis
  proof (induction rule: m_each_Ok_induct)
    case start
    then show ?case by (rule assms(2))
  next
    case (step ys item sg sg')
    from step(3) items obtain c where c: "item = Ok c" "c \<in> set cs" by (auto simp: nonzero_def)
    from native_step [OF step(2) c(1)] native c(2) have "p c sg = (Ok (), sg')" by simp
    with step(1) assms(4) show ?case by blast
  qed
qed

lemma bank_transfer_keeps:
  assumes "bank_transfer env rd blk f t cs (s, g) = (Ok u, (s', g'))" and "bank_ok env s"
    and ok: "codec_ok (be_u128 env)" and "\<forall>c\<in>set cs. native_denom (coin_denom c)"
  shows "bank_ok env s'"
proof -
  have step: "bank_ok env (fst sg')"
    if "bank_ok env (fst sg)" "send_native env (bank_store rd) f t c sg = (Ok (), sg')" for c sg sg'
  proof -
    have run: "send_native env (bank_store rd) f t c (fst sg, snd sg) = (Ok (), (fst sg', snd sg'))"
      using that(2) by simp
    have i: "inv (fst sg)" using that(1) by (simp add: all_backed_def)
    note l = send_native_ledger [OF run i ok]
    show ?thesis using that(1) l(1) backed_send [OF _ l(3,4,2)] by (auto simp: all_backed_def)
  qed
  have "bank_ok env (fst (s', g'))"
    using assms(1) [unfolded bank_transfer_def]
  proof (rule native_loop_keeps [where P = "\<lambda>sg. bank_ok env (fst sg)", OF _ _ assms(4)])
    show "bank_ok env (fst (s, g))" using assms(2) by simp
  qed (rule step)
  then show ?thesis by simp
qed

lemma bank_burn_keeps:
  assumes "bank_burn env rd blk f cs (s, g) = (Ok u, (s', g'))" and "bank_ok env s"
    and ok: "codec_ok (be_u128 env)" and "\<forall>c\<in>set cs. native_denom (coin_denom c)"
  shows "bank_ok env s'"
proof -
  have step: "bank_ok env (fst sg')"
    if "bank_ok env (fst sg)" "burn_native env (bank_store rd) f c sg = (Ok (), sg')" for c sg sg'
  proof -
    have run: "burn_native env (bank_store rd) f c (fst sg, snd sg) = (Ok (), (fst sg', snd sg'))"
      using that(2) by simp
    have i: "inv (fst sg)" using that(1) by (simp add: all_backed_def)
    note l = burn_native_ledger [OF run i ok]
    show ?thesis using that(1) l(1-3) backed_change [OF _ l(4,5)] by (auto simp: all_backed_def)
  qed
  have "bank_ok env (fst (s', g'))"
    using assms(1) [unfolded bank_burn_def]
  proof (rule native_loop_keeps [where P = "\<lambda>sg. bank_ok env (fst sg)", OF _ _ assms(4)])
    show "bank_ok env (fst (s, g))" using assms(2) by simp
  qed (rule step)
  then show ?thesis by simp
qed

lemma mint_keeps:
  assumes run: "mint env (bank_store rd) t cs (s, g) = (Ok u, (s', g'))" and "bank_ok env s"
    and ok: "codec_ok (be_u128 env)"
  shows "bank_ok env s'"
proof -
  let ?c = "be_u128 env"
  have "bank_ok env (fst (s', g'))"
    using run unfolding mint_def
  proof (induction rule: m_each_Ok_induct)
    case start
    then show ?case using assms(2) by simp
  next
    case (step ys item sg sg')
    from step(2) obtain c :: coin and n1 s1 g1 n2 where
      u1: "map_update (bank_store rd) ?c pulsar_of_plus SUPPLY [coin_denom c]
             (\<lambda>b. u128_add (case b of None \<Rightarrow> 0 | Some b \<Rightarrow> b) (coin_amount c)) (fst sg, snd sg) = (Ok n1, (s1, g1))"
      and u2: "map_update (bank_store rd) ?c pulsar_of_plus BALANCES [t, coin_denom c]
             (\<lambda>b. u128_add (case b of None \<Rightarrow> 0 | Some b \<Rightarrow> b) (coin_amount c)) (s1, g1) = (Ok n2, (fst sg', snd sg'))"
      by (auto simp: m_bind_Ok m_map_err_Ok)
    have i: "inv (fst sg)" using step(1) by (simp add: all_backed_def)
    note l1 = update_supply [OF u1 i ok]
    note l2 = update_balance [OF u2 l1(2) ok]
    have bal: "ledger_balance ?c (view (fst sg')) = (ledger_balance ?c (view (fst sg)))((t, coin_denom c) := n2)"
      and sup: "ledger_supply ?c (view (fst sg')) = (ledger_supply ?c (view (fst sg)))(coin_denom c := n1)"
      using l1(3,4) l2(4,5) by simp_all
    have "n1 + ledger_balance ?c (view (fst sg)) (t, coin_denom c) =
          ledger_supply ?c (view (fst sg)) (coin_denom c) + n2"
      using l1(1,4) l2(1,2) by (simp add: ledger_supply_case ledger_balance_case)
    with step(1) l2(3) backed_change [OF _ bal sup] show ?case by (auto simp: all_backed_def)
  qed
  then show ?thesis by simp
qed

lemma bank_init_keeps:
  assumes run: "bank_init env rd accounts (s, g) = (Ok u, (s', g'))" and "bank_ok env s"
    and ok: "codec_ok (be_u128 env)"
  shows "bank_ok env s'"
proof -
  have "bank_ok env (fst (s', g'))"
    using run unfolding bank_init_def
  proof (induction rule: m_each_Ok_induct)
    case start
    then show ?case using assms(2) by simp
  next
    case (step ys account sg sg')
    from step(2) obtain a where
      "mint env (bank_store rd) a (ba_balance account) (fst sg, snd sg) = (Ok (), (fst sg', snd sg'))"
      by (auto simp: m_bind_Ok m_map_err_Ok)
    from mint_keeps [OF this step(1) ok] show ?case .
  qed
  then show ?thesis by simp
qed

end

lemmas bank_exec = bank_transfer_def bank_burn_def valid_coins_def from_denom_def CW20_PREFIX_def send_native_def
  burn_native_def mint_def bank_store_def BALANCES_def SUPPLY_def NAMESPACE_BANK_def u128_checked_sub_def u128_add_def u128_max_def
  balance_key_def supply_key_def

text \<open>A concrete environment and two states to run the bank on.\<close>

definition test_env :: "tx_state bank_env" where
  "test_env = \<lparr>be_crypto = padding_crypto, be_u128 = unary_codec, be_string_from_vec = Some,
     be_cw20_transfer = \<lambda>_ _. Some [], be_cw20_burn = \<lambda>_. Some [], be_cw20_balance_query = \<lambda>_. Some [],
     be_cw20_balance_response = \<lambda>_. Some 0, be_cw20_token_info_query = Some [],
     be_cw20_token_info_response = \<lambda>_. Some 0, be_wasm_exec = \<lambda>_ _ _ _. m_ret (),
     be_wasm_smart = \<lambda>_ _ _ _ _. m_ret []\<rparr>"

definition test_block :: block_info where
  "test_block = \<lparr>bi_height = 1, bi_time = 1, bi_chain_id = []\<rparr>"

definition funded_tx :: tx_state where
  "funded_tx = ((btree_storage_new, []),
     [(supply_key [9], Delta_Set [0, 0, 0, 0, 0]), (balance_key [1] [9], Delta_Set [0, 0, 0, 0, 0])])"

definition test_transfer where
  "test_transfer = bank_transfer test_env tx_store test_block [1] [2] [\<lparr>coin_denom = [9], coin_amount = 3\<rparr>]
     (funded_tx, gas_meter_new 100000)"

definition test_burn where
  "test_burn = burn_native test_env (bank_store tx_store) [2] \<lparr>coin_denom = [9], coin_amount = 3\<rparr>
     (funded_tx, gas_meter_new 100000)"

definition test_mint where
  "test_mint = mint test_env (bank_store tx_store) [2] [\<lparr>coin_denom = [9], coin_amount = 3\<rparr>]
     (empty_tx, gas_meter_new 100000)"

lemmas test_exec = empty_tx_def test_env_def test_block_def funded_tx_def padding_crypto_def unary_codec_def

lemma funded_tx_inv: "tx_inv funded_tx"
  by (simp add: funded_tx_def btree_storage_new_def balance_key_def supply_key_def bank_exec lp_def ascii_def)

lemma test_env_u128 [simp]: "be_u128 test_env = unary_codec"
  by (simp add: test_env_def)

lemma test_transfer_ok: "fst test_transfer = Ok ()"
  by (simp add: test_transfer_def test_exec bank_exec plus_exec namespace_exec store_exec gas_exec prog_exec Let_def)

lemma test_burn_err: "fst test_burn = Err (PE_Bank (InsufficientFunds [2]))"
  by (simp add: test_burn_def test_exec bank_exec plus_exec namespace_exec store_exec gas_exec prog_exec Let_def)

lemma test_mint_ok: "fst test_mint = Ok ()"
  by (simp add: test_mint_def test_exec bank_exec plus_exec namespace_exec store_exec gas_exec prog_exec Let_def)

lemma empty_tx_backed: "tx_inv empty_tx \<and> all_backed unary_codec (tx_view empty_tx)"
  by (auto simp: empty_tx_def btree_storage_new_def all_backed_def backed_def ledger_balance_def ledger_supply_def
      typed_def intro: exI [of _ "{}"])

section \<open>Properties\<close>

text \<open>
  C13. A successful transfer of native coins is the abstract one: the amounts move from the
  sender to the recipient, coin by coin (also when the two are the same account), the supply and
  everything outside the bank are untouched, and what any set of accounts with both of them in it
  holds together does not change.
\<close>

theorem transfer_conserves:
  assumes "bank_transfer env tx_store blk f t cs (so, g) = (Ok u, (so', g'))"
    and "tx_inv so" "codec_ok (be_u128 env)" "\<forall>c\<in>set cs. native_denom (coin_denom c)"
  shows "ledger_balance (be_u128 env) (tx_view so') =
           fold (ledger_send f t) (nonzero cs) (ledger_balance (be_u128 env) (tx_view so)) \<and>
     ledger_supply (be_u128 env) (tx_view so') = ledger_supply (be_u128 env) (tx_view so) \<and>
     outside_bank (tx_view so') = outside_bank (tx_view so) \<and>
     (\<forall>A d. finite A \<and> f \<in> A \<and> t \<in> A \<longrightarrow>
        (\<Sum>a\<in>A. ledger_balance (be_u128 env) (tx_view so') (a, d)) =
        (\<Sum>a\<in>A. ledger_balance (be_u128 env) (tx_view so) (a, d)))"
  using metered_tx.bank_transfer_ledger [OF assms] by blast

theorem transfer_conserves_witness:
  "ledger_balance unary_codec (tx_view (fst (snd test_transfer))) ([2], [9]) = 3 \<and>
   (\<Sum>a\<in>{[1], [2]}. ledger_balance unary_codec (tx_view (fst (snd test_transfer))) (a, [9])) = 5"
proof -
  let ?s = "fst (snd test_transfer)" and ?c = "[\<lparr>coin_denom = [9], coin_amount = 3\<rparr>] :: coin list"
  have run: "bank_transfer test_env tx_store test_block [1] [2] ?c (funded_tx, gas_meter_new 100000) =
      (Ok (), (?s, snd (snd test_transfer)))"
    using test_transfer_ok by (metis prod.collapse test_transfer_def)
  have nat: "\<forall>c\<in>set ?c. native_denom (coin_denom c)" by (simp add: native_denom_def bank_exec ascii_def)
  have b: "ledger_balance unary_codec (tx_view funded_tx) ([1], [9]) = 5"
    "ledger_balance unary_codec (tx_view funded_tx) ([2], [9]) = 0"
    by (simp_all add: ledger_balance_def typed_def funded_tx_def unary_codec_def apply_overlay_def bank_exec
        lp_def ascii_def btree_storage_new_def)
  note t = transfer_conserves [OF run funded_tx_inv _ nat, unfolded test_env_u128, OF unary_codec_ok]
  from t [THEN conjunct1] b have "ledger_balance unary_codec (tx_view ?s) ([2], [9]) = 3"
    by (simp add: nonzero_def ledger_send_def Let_def)
  moreover have "(\<Sum>a\<in>{[1], [2]}. ledger_balance unary_codec (tx_view ?s) (a, [9])) =
      (\<Sum>a\<in>{[1], [2]}. ledger_balance unary_codec (tx_view funded_tx) (a, [9]))"
    by (rule t [THEN conjunct2, THEN conjunct2, THEN conjunct2, rule_format]) simp
  ultimately show ?thesis using b by simp
qed

text \<open>
  C14. The supply of every denomination is exactly what all accounts hold together, and no
  successful bank operation on native coins breaks that: transfer, burn, mint and genesis.
\<close>

theorem supply_stays_backed:
  assumes "tx_inv so" "codec_ok (be_u128 env)" "all_backed (be_u128 env) (tx_view so)"
    "\<forall>c\<in>set cs. native_denom (coin_denom c)"
    and "bank_transfer env tx_store blk f t cs (so, g) = (Ok (), (so', g')) \<or>
         bank_burn env tx_store blk f cs (so, g) = (Ok (), (so', g')) \<or>
         mint env (bank_store tx_store) t cs (so, g) = (Ok (), (so', g')) \<or>
         bank_init env tx_store accounts (so, g) = (Ok (), (so', g'))"
  shows "tx_inv so' \<and> all_backed (be_u128 env) (tx_view so')"
  using assms(5)
proof (elim disjE)
  note ok = conjI [OF assms(1,3)]
  show ?thesis if "bank_transfer env tx_store blk f t cs (so, g) = (Ok (), (so', g'))"
    using metered_tx.bank_transfer_keeps [OF that ok assms(2,4)] .
  show ?thesis if "bank_burn env tx_store blk f cs (so, g) = (Ok (), (so', g'))"
    using metered_tx.bank_burn_keeps [OF that ok assms(2,4)] .
  show ?thesis if "mint env (bank_store tx_store) t cs (so, g) = (Ok (), (so', g'))"
    using metered_tx.mint_keeps [OF that ok assms(2)] .
  show ?thesis if "bank_init env tx_store accounts (so, g) = (Ok (), (so', g'))"
    using metered_tx.bank_init_keeps [OF that ok assms(2)] .
qed

theorem supply_stays_backed_witness:
  "all_backed unary_codec (tx_view (fst (snd test_mint)))"
proof -
  let ?c = "[\<lparr>coin_denom = [9], coin_amount = 3\<rparr>] :: coin list"
  have run: "mint test_env (bank_store tx_store) [2] ?c (empty_tx, gas_meter_new 100000) =
      (Ok (), (fst (snd test_mint), snd (snd test_mint)))"
    using test_mint_ok by (metis prod.collapse test_mint_def)
  have nat: "\<forall>c\<in>set ?c. native_denom (coin_denom c)" by (simp add: native_denom_def bank_exec ascii_def)
  from supply_stays_backed [of empty_tx test_env ?c, OF _ _ _ nat disjI2 [OF disjI2 [OF disjI1 [OF run]]]]
    empty_tx_backed unary_codec_ok
  show ?thesis by simp
qed

text \<open>
  C26. A burn reduces the supply before it looks at the balance: when the account does not hold
  the coins the call fails with \<open>InsufficientFunds\<close>, the balances are as before and the supply
  is already smaller. A caller that handles the error without undoing the writes keeps a supply
  below what the accounts hold.
\<close>

theorem burn_error_leaves_supply_reduced:
  assumes "burn_native env (bank_store tx_store) f c (so, g) = (Err (PE_Bank (InsufficientFunds f)), (so', g'))"
    and "tx_inv so" and "codec_ok (be_u128 env)"
  shows "ledger_supply (be_u128 env) (tx_view so') (coin_denom c) + coin_amount c =
           ledger_supply (be_u128 env) (tx_view so) (coin_denom c) \<and>
     ledger_balance (be_u128 env) (tx_view so') = ledger_balance (be_u128 env) (tx_view so)"
  using metered_tx.burn_native_insufficient [OF assms] by simp_all

theorem burn_error_leaves_supply_reduced_witness:
  "ledger_supply unary_codec (tx_view (fst (snd test_burn))) [9] = 2"
proof -
  let ?c = "\<lparr>coin_denom = [9], coin_amount = 3\<rparr> :: coin"
  have run: "burn_native test_env (bank_store tx_store) [2] ?c (funded_tx, gas_meter_new 100000) =
      (Err (PE_Bank (InsufficientFunds [2])), (fst (snd test_burn), snd (snd test_burn)))"
    using test_burn_err by (metis prod.collapse test_burn_def)
  have b: "ledger_supply unary_codec (tx_view funded_tx) [9] = 5"
    by (simp add: ledger_supply_def typed_def funded_tx_def unary_codec_def apply_overlay_def bank_exec
        lp_def ascii_def btree_storage_new_def)
  show ?thesis
    using burn_error_leaves_supply_reduced [OF run funded_tx_inv, unfolded test_env_u128, OF unary_codec_ok] b
    by simp
qed

end
