(* ===== verification/Interface.thy ===== *)
theory Interface
  imports Bank State_Root
begin

text \<open>
  A handler receives \<open>&mut dyn Storage\<close> and can only change the storage through \<open>set\<close> and \<open>remove\<close>.
  \<open>via st p\<close> states that of a program: it keeps every predicate on the state that both writes of
  \<open>st\<close> keep. The rules below show it for the combinators, the typed layer, the wrappers and the
  bank; \<open>atomic\<close> turns it into atomicity and the tracking writer into a complete record. For code
  that is not modelled (contracts) it is the hypothesis to make.
\<close>

definition via :: "('s, 'z) storage_scheme \<Rightarrow> ('s \<times> gas_meter, 'a, 'e) prog \<Rightarrow> bool" where
  "via st p \<longleftrightarrow>
     (\<forall>I. (\<forall>k v. preserves (\<lambda>(s, g). I s) (st_set st k v)) \<longrightarrow>
          (\<forall>k. preserves (\<lambda>(s, g). I s) (st_remove st k)) \<longrightarrow> preserves (\<lambda>(s, g). I s) p)"

named_theorems via_rules

lemma viaD:
  "\<lbrakk>via st p; \<And>k v. preserves (\<lambda>(s, g). I s) (st_set st k v); \<And>k. preserves (\<lambda>(s, g). I s) (st_remove st k)\<rbrakk>
     \<Longrightarrow> preserves (\<lambda>(s, g). I s) p"
  by (simp add: via_def)

section \<open>Combinators\<close>

lemma via_basic [via_rules]:
  "via st (m_ret a)" "via st (m_err e)" "via st m_panic" "via st (m_lift r)" "via st (m_ensure b e)"
  by (auto simp: via_def)

lemma preserves_read: "preserves (\<lambda>(s, g). I s) (m_read p)" "preserves (\<lambda>(s, g). I s) (m_meter q)"
  by (auto simp: preserves_def)

lemma via_read [via_rules]: "via st (m_read p)" "via st (m_meter q)"
  by (simp_all add: via_def preserves_read)

lemma via_bind [via_rules]: "\<lbrakk>via st p; \<And>a. via st (f a)\<rbrakk> \<Longrightarrow> via st (m_bind p f)"
  unfolding via_def by (blast intro: preserves_bind)

lemma via_map_err [via_rules]: "via st p \<Longrightarrow> via st (m_map_err c p)"
  unfolding via_def by (blast intro: preserves_map_err)

lemma via_each [via_rules]: "(\<And>x. via st (f x)) \<Longrightarrow> via st (m_each f xs)"
  unfolding via_def by (blast intro: preserves_each)

lemma via_collect [via_rules]: "(\<And>x. via st (f x)) \<Longrightarrow> via st (m_collect f xs)"
  unfolding via_def by (blast intro: preserves_collect)

lemma via_option [via_rules]: "\<lbrakk>via st p; \<And>y. via st (f y)\<rbrakk> \<Longrightarrow> via st (case x of None \<Rightarrow> p | Some y \<Rightarrow> f y)"
  by (simp split: option.split)

lemma via_if [via_rules]: "\<lbrakk>via st p; via st q\<rbrakk> \<Longrightarrow> via st (if b then p else q)"
  by simp

lemma via_prod [via_rules]: "(\<And>x y. via st (f x y)) \<Longrightarrow> via st (case p of (x, y) \<Rightarrow> f x y)"
  by (simp split: prod.split)

lemma via_write [via_rules]: "via st (st_set st k v)" "via st (st_remove st k)"
  by (simp_all add: via_def)

text \<open>
  A callee whose \<open>Result\<close> the caller inspects instead of returning early, on a meter of its own.
  The writes of a failed callee stay; the caller learns the gas the callee used.
\<close>

definition m_submeter :: "nat \<Rightarrow> ('s \<times> gas_meter, 'a, 'e) prog \<Rightarrow> ('s \<times> gas_meter, ('e + 'a) \<times> nat, 'f) prog" where
  "m_submeter lim p sg =
     (case p (fst sg, gas_meter_new lim) of
        (Ok a, (s', g')) \<Rightarrow> (Ok (Inr a, used g'), (s', snd sg))
      | (Err e, (s', g')) \<Rightarrow> (Ok (Inl e, used g'), (s', snd sg))
      | (Panic, (s', g')) \<Rightarrow> (Panic, (s', snd sg)))"

definition m_charge :: "nat \<Rightarrow> ('s \<times> gas_meter, unit, pulsar_error) prog" where
  "m_charge n = m_map_err PE_Gas (m_meter (charge n))"

lemma via_submeter [via_rules]:
  assumes "via st p"
  shows "via st (m_submeter lim p)"
  unfolding via_def
proof (intro allI impI preservesI; clarify)
  fix I s g r s' g'
  assume keep: "\<forall>k v. preserves (\<lambda>(s, g). I s) (st_set st k v)" "\<forall>k. preserves (\<lambda>(s, g). I s) (st_remove st k)"
    and s: "I s" and run: "m_submeter lim p (s, g) = (r, (s', g'))"
  obtain q s1 g1 where p: "p (s, gas_meter_new lim) = (q, (s1, g1))" by (metis prod.exhaust)
  have "preserves (\<lambda>(s, g). I s) p" using assms keep by (simp add: via_def)
  from preservesD [OF this _ p] s have "I s1" by simp
  with run p show "I s'" by (cases q) (simp_all add: m_submeter_def)
qed

lemma via_charge [via_rules]: "via st (m_charge n)"
  by (auto simp: m_charge_def intro!: via_rules)

lemma via_sum [via_rules]: "\<lbrakk>\<And>x. via st (f x); \<And>y. via st (h y)\<rbrakk> \<Longrightarrow> via st (case t of Inl x \<Rightarrow> f x | Inr y \<Rightarrow> h y)"
  by (simp split: sum.split)

section \<open>The typed layer\<close>

lemma via_m_std [via_rules]: "via st (m_std r)" "via st p \<Longrightarrow> via st (m_gas p)"
  by (auto simp: m_std_def m_gas_def intro!: via_rules)

lemma via_path [via_rules]:
  "via st (path_save st c k a)" "via st (path_remove st k)" "via st (path_update st c conv k act)"
  by (auto simp: path_save_def path_remove_def path_update_def intro!: via_rules)

lemma via_item [via_rules]:
  "via st (item_save st c k a)" "via st (item_remove st k)" "via st (item_update st c conv k act')"
  by (auto simp: item_save_def item_remove_def item_update_def intro!: via_rules)

lemma via_map [via_rules]:
  "via st (map_save st c n ks a)" "via st (map_remove st n ks)" "via st (map_update st c conv n ks act)"
  by (auto simp: map_save_def map_remove_def map_update_def intro!: via_rules)

section \<open>Wrappers\<close>

text \<open>What goes through a wrapper goes through the storage below.\<close>

lemma via_through:
  assumes "via st' p" "\<And>k v. via st (st_set st' k v)" "\<And>k. via st (st_remove st' k)"
  shows "via st p"
  using assms unfolding via_def by blast

lemma via_prefixed: "via (prefixed_storage st q) p \<Longrightarrow> via st p"
  by (erule via_through) (auto simp: prefixed_storage_def prefixed_set_def prefixed_remove_def intro!: via_rules)

lemma via_app_meter: "via (app_meter st) p \<Longrightarrow> via st p"
  by (erule via_through) (auto simp: app_meter_def app_meter_set_def app_meter_remove_def intro!: via_rules)

lemma via_keeps_base: "via (sub_tx st) f \<Longrightarrow> keeps_base f"
  unfolding keeps_base_def
proof
  fix s0
  assume "via (sub_tx st) f"
  then have "preserves (\<lambda>(so, g). fst so = s0 \<and> bt_inv (snd so)) f"
    by (rule viaD) (auto simp: preserves_def sub_tx_def sub_tx_set_run sub_tx_remove_run)
  then show "preserves (\<lambda>((s, ls), g). s = s0 \<and> bt_inv ls) f"
    by (auto simp: preserves_def)
qed

lemma via_write_delta [via_rules]: "via st (write_delta st d)"
  by (cases "(st, d)" rule: write_delta.cases) (auto intro!: via_rules)

lemma via_commit [via_rules]: "via st (sub_tx_commit st ls)"
  by (auto simp: sub_tx_commit_def intro!: via_rules)

lemma via_atomic [via_rules]:
  assumes "via (sub_tx st) f"
  shows "via st (atomic st conv f)"
  unfolding via_def
proof (intro allI impI preservesI; clarify)
  fix I s g r s' g'
  assume keep: "\<forall>k v. preserves (\<lambda>(s, g). I s) (st_set st k v)" "\<forall>k. preserves (\<lambda>(s, g). I s) (st_remove st k)"
    and s: "I s" and run: "atomic st conv f (s, g) = (r, (s', g'))"
  obtain q s1 ls g1 where f: "f ((s, []), g) = (q, ((s1, ls), g1))" by (metis prod.exhaust)
  have base: "s1 = s" using keeps_baseD [OF via_keeps_base [OF assms] f] by simp
  have com: "preserves (\<lambda>(s, g). I s) (m_bind (m_map_err conv (sub_tx_commit st ls)) (\<lambda>_. m_ret a))" for a
    by (rule viaD [where st = st]) (use keep in \<open>auto intro!: via_rules\<close>)
  show "I s'"
  proof (cases q)
    case (Ok a)
    with run f base have "m_bind (m_map_err conv (sub_tx_commit st ls)) (\<lambda>_. m_ret a) (s, g1) = (r, (s', g'))"
      by (simp add: atomic_def)
    from preservesD [OF com _ this] s show ?thesis by simp
  qed (use run f base s in \<open>auto simp: atomic_def\<close>)
qed

context storage_laws
begin

lemma via_inv: "via rd p \<Longrightarrow> preserves (\<lambda>(s, g). inv s) p"
  by (erule viaD) (auto simp: preserves_def dest: set_inv remove_inv)

lemma via_tracks:
  assumes "via (tracking_writer rd) p"
  shows "preserves (\<lambda>(sd, g). inv (fst sd) \<and> tracks view m0 sd) p"
  using assms
proof (rule viaD)
  show "preserves (\<lambda>(sd, g). inv (fst sd) \<and> tracks view m0 sd) (st_set (tracking_writer rd) k v)" for k v
    using tracking_op_tracks [of m0 "Op_Set k v"] by simp
  show "preserves (\<lambda>(sd, g). inv (fst sd) \<and> tracks view m0 sd) (st_remove (tracking_writer rd) k)" for k
    using tracking_op_tracks [of m0 "Op_Delete k"] by simp
qed

end

section \<open>The bank\<close>

text \<open>The contract calls of the bank environment go through the storage.\<close>

definition bank_env_via :: "'s bank_env \<Rightarrow> 's storage \<Rightarrow> bool" where
  "bank_env_via env st \<longleftrightarrow> (\<forall>blk sender m. via st (be_wasm_exec env st blk sender m))"

lemma via_bank_store: "via (bank_store st) p \<Longrightarrow> via st p"
  by (auto simp: bank_store_def intro: via_prefixed)

lemma via_send_native [via_rules]: "via bst (send_native env bst f t c)"
  by (auto simp: send_native_def intro!: via_rules)

lemma via_mint [via_rules]: "via bst (mint env bst t cs)"
  by (auto simp: mint_def intro!: via_rules)

lemma via_burn_native [via_rules]: "via bst (burn_native env bst f c)"
  by (auto simp: burn_native_def intro!: via_rules)

lemma via_cw20:
  assumes "bank_env_via env st"
  shows "via st (send_cw20 env st blk f t ct n)" "via st (burn_cw20 env st blk f ct n)"
  using assms by (auto simp: send_cw20_def burn_cw20_def bank_env_via_def intro!: via_rules)

lemma via_denom [via_rules]:
  "\<lbrakk>\<And>d. via st (f d); \<And>c. via st (h c)\<rbrakk> \<Longrightarrow> via st (case t of Native d \<Rightarrow> f d | Cw20 c \<Rightarrow> h c)"
  by (simp split: typed_denom.split)

lemma via_transfer:
  assumes "bank_env_via env st"
  shows "via st (bank_transfer env st blk f t cs)" "via st (bank_burn env st blk f cs)"
  unfolding bank_transfer_def bank_burn_def
  by (intro via_rules via_cw20 [OF assms]; rule via_bank_store; rule via_rules)+

lemma via_distribute:
  assumes "bank_env_via env st"
  shows "via st (distribute_coins env st blk f t cs)"
proof (induction cs)
  case (Cons c cs)
  then show ?case by (auto intro!: via_rules via_transfer [OF assms])
qed (simp add: via_rules)

lemma via_distribute_fees:
  assumes "bank_env_via env st"
  shows "via st (distribute_fees env st blk f t)"
  unfolding distribute_fees_def by (intro via_rules via_distribute [OF assms])

lemma via_bank_init: "via st (bank_init env st accounts)"
  unfolding bank_init_def by (intro via_rules; rule via_bank_store; rule via_rules)

lemma via_bank_process_msg:
  assumes "bank_env_via env st"
  shows "via st (bank_process_msg env st blk who m)"
  by (cases m) (auto intro!: via_rules via_transfer [OF assms])

end
