(* ===== verification/Auth.thy ===== *)
theory Auth
  imports Interface
begin

text \<open>
  The auth keeper, \<open>packages/app/src/auth/keeper.rs\<close>: accounts with their public key and sequence
  number, kept in one typed map under the namespace \<open>auth\<close>; the validation of a transaction, which
  checks and bumps the sequence, checks the signature and takes the fee; and the claim of an
  internal account by other modules.
\<close>

section \<open>Accounts\<close>

datatype account = External pub_key nat | Internal | Smart account_id

definition NAMESPACE_AUTH :: bytes where
  "NAMESPACE_AUTH = ascii ''auth''"

definition ACCOUNTS :: bytes where
  "ACCOUNTS = ascii ''accounts''"

definition fee_collector_account :: account_id where
  "fee_collector_account = replicate 20 7"

definition GAS_COST_SIG_VALIDATION :: nat where
  "GAS_COST_SIG_VALIDATION = 1000"

definition GAS_COST_PQ_SIG_VALIDATION :: nat where
  "GAS_COST_PQ_SIG_VALIDATION = 25000"

text \<open>The JSON of an account is external; the bank is reached through its environment.\<close>

record 's auth_env =
  ae_account :: "account codec"
  ae_bank :: "'s bank_env"

abbreviation ae_crypto :: "'s auth_env \<Rightarrow> crypto" where
  "ae_crypto env \<equiv> be_crypto (ae_bank env)"

record tx_data =
  td_signer :: account_id
  td_msgs :: "msg list"
  td_gas_wanted :: nat

definition auth_store :: "'s storage \<Rightarrow> 's storage" where
  "auth_store st = prefixed_storage st (lp NAMESPACE_AUTH)"

section \<open>Validation\<close>

text \<open>The \<open>match\<close> on the signer's account: it yields the key to check the signature with.\<close>

definition signer_pubkey ::
  "'s auth_env \<Rightarrow> 's storage \<Rightarrow> signed_tx \<Rightarrow> bool \<Rightarrow> ('s \<times> gas_meter, pub_key, pulsar_error) prog" where
  "signer_pubkey env st tx validate_sig =
     m_bind (m_map_err pulsar_of_plus
       (m_read (map_may_load (auth_store st) (ae_account env) ACCOUNTS [signer tx]))) (\<lambda>acc.
     (case acc of
        Some (External pubkey sequence) \<Rightarrow>
          m_bind (m_ensure (\<not> (validate_sig \<and> sequence \<noteq> sequence_no (signing tx)))
            (PE_Tx (InvalidSequence (sequence_no (signing tx)) sequence))) (\<lambda>_.
          m_bind (m_ensure (\<forall>pk\<in>set_option (si_pubkey (signing tx)). pk = pubkey) (PE_Tx PubKeyMismatch)) (\<lambda>_.
          m_bind (m_lift (u64_add sequence 1)) (\<lambda>sequence'.
          m_bind (m_map_err pulsar_of_plus (map_save (auth_store st) (ae_account env) ACCOUNTS [signer tx]
            (External pubkey sequence'))) (\<lambda>_.
          m_ret pubkey))))
      | None \<Rightarrow>
          m_bind (m_ensure (\<not> (validate_sig \<and> sequence_no (signing tx) \<noteq> 0))
            (PE_Tx (InvalidSequence (sequence_no (signing tx)) 0))) (\<lambda>_.
          (case si_pubkey (signing tx) of
             Some pk \<Rightarrow>
               m_bind (m_map_err PE_AccountId (m_lift (pub_key_account_id (ae_crypto env) pk))) (\<lambda>account_id.
               m_bind (m_ensure (account_id = signer tx) (PE_Tx PubKeyMismatch)) (\<lambda>_.
               m_bind (m_map_err pulsar_of_plus (map_save (auth_store st) (ae_account env) ACCOUNTS [signer tx]
                 (External pk 1))) (\<lambda>_.
               m_ret pk)))
           | None \<Rightarrow> m_err (PE_Tx PubKeyMissing)))
      | Some Internal \<Rightarrow> m_err (PE_Tx InternalAcccount)
      | Some (Smart contract) \<Rightarrow> m_err (PE_Tx SmartAccountSigner)))"

definition is_hybrid :: "pub_key \<Rightarrow> bool" where
  "is_hybrid pk = (case pk of HybridSecp256k1Mayo _ _ _ \<Rightarrow> True | _ \<Rightarrow> False)"

definition charge_fee ::
  "'s auth_env \<Rightarrow> 's storage \<Rightarrow> block_info \<Rightarrow> signed_tx \<Rightarrow> ('s \<times> gas_meter, unit, pulsar_error) prog" where
  "charge_fee env st block tx =
     (case fee (tx_fee tx) of
        Some f \<Rightarrow>
          if coin_amount f \<noteq> 0
          then bank_transfer (ae_bank env) st block (signer tx) fee_collector_account [f]
          else m_ret ()
      | None \<Rightarrow> m_ret ())"

definition auth_validate_tx ::
  "'s auth_env \<Rightarrow> 's storage \<Rightarrow> block_info \<Rightarrow> signed_tx \<Rightarrow> bool \<Rightarrow> ('s \<times> gas_meter, tx_data, pulsar_error) prog" where
  "auth_validate_tx env st block tx validate_sig =
     m_bind (m_ensure (\<forall>h\<in>set_option (timeout_height tx). bi_height block \<le> h)
       (PE_Tx (TxExpired (the (timeout_height tx)) (bi_height block)))) (\<lambda>_.
     m_bind (signer_pubkey env st tx validate_sig) (\<lambda>pubkey.
     m_bind (m_map_err PE_Gas (m_meter (charge GAS_COST_SIG_VALIDATION))) (\<lambda>_.
     m_bind (if is_hybrid pubkey then m_map_err PE_Gas (m_meter (charge GAS_COST_PQ_SIG_VALIDATION)) else m_ret ()) (\<lambda>_.
     m_bind (if validate_sig
             then m_map_err PE_Tx (m_lift (validate_signature (ae_crypto env) pubkey
                    (message_hash (signing tx)) (signature (signing tx))))
             else m_ret ()) (\<lambda>_.
     m_bind (charge_fee env st block tx) (\<lambda>_.
     m_ret \<lparr>td_signer = signer tx, td_msgs = msgs tx, td_gas_wanted = gas_limit (tx_fee tx)\<rparr>))))))"

section \<open>Queries and internal accounts\<close>

datatype account_response =
    Resp_External account_id "pub_key option" nat
  | Resp_Internal account_id
  | Resp_Smart account_id account_id

definition auth_query ::
  "'s auth_env \<Rightarrow> ('s, 'z) reader_scheme \<Rightarrow> account_id \<Rightarrow> 's \<Rightarrow> (gas_meter, account_response, pulsar_error) prog" where
  "auth_query env st address s =
     m_bind (m_map_err pulsar_of_plus
       (map_may_load (readonly_prefixed_storage st (lp NAMESPACE_AUTH)) (ae_account env) ACCOUNTS [address] s)) (\<lambda>acc.
     m_ret (case acc of
              Some (External pubkey sequence) \<Rightarrow> Resp_External address (Some pubkey) sequence
            | Some Internal \<Rightarrow> Resp_Internal address
            | Some (Smart contract) \<Rightarrow> Resp_Smart contract address
            | None \<Rightarrow> Resp_External address None 0))"

definition claim_internal_account ::
  "'s auth_env \<Rightarrow> 's storage \<Rightarrow> account_id \<Rightarrow> ('s \<times> gas_meter, unit, pulsar_error) prog" where
  "claim_internal_account env st address =
     m_bind (m_map_err pulsar_of_plus
       (m_read (map_may_load (auth_store st) (ae_account env) ACCOUNTS [address]))) (\<lambda>acc.
     m_bind (m_ensure (acc = None) (PE_Auth (AccountExists address))) (\<lambda>_.
     m_map_err pulsar_of_plus (map_save (auth_store st) (ae_account env) ACCOUNTS [address] Internal)))"

section \<open>Validation goes through the storage\<close>

lemma via_auth_store: "via (auth_store st) p \<Longrightarrow> via st p"
  by (auto simp: auth_store_def intro: via_prefixed)

lemma via_account_case [via_rules]:
  "\<lbrakk>via st p; \<And>k n. via st (f k n); via st q; \<And>c. via st (h c)\<rbrakk> \<Longrightarrow>
     via st (case x of None \<Rightarrow> p | Some (External k n) \<Rightarrow> f k n | Some Internal \<Rightarrow> q | Some (Smart c) \<Rightarrow> h c)"
  by (simp split: option.split account.split)

lemma via_signer_pubkey: "via st (signer_pubkey env st tx v)"
  unfolding signer_pubkey_def by (intro via_rules via_auth_store [OF via_map(1)])

lemma via_auth_validate_tx: "bank_env_via (ae_bank env) st \<Longrightarrow> via st (auth_validate_tx env st blk tx v)"
  unfolding auth_validate_tx_def charge_fee_def by (intro via_rules via_signer_pubkey via_transfer)

lemma via_claim_internal: "via st (claim_internal_account env st a)"
  unfolding claim_internal_account_def by (intro via_rules via_auth_store [OF via_map(1)])

section \<open>What validation means\<close>

definition account_key :: "account_id \<Rightarrow> bytes" where
  "account_key a = lp NAMESPACE_AUTH @ lp ACCOUNTS @ a"

definition auth_account :: "account codec \<Rightarrow> (bytes \<Rightarrow> bytes option) \<Rightarrow> account_id \<Rightarrow> account option" where
  "auth_account c m a = typed c m (account_key a)"

lemma auth_names [simp]: "length NAMESPACE_AUTH = 4" "length ACCOUNTS = 8"
  by (simp_all add: NAMESPACE_AUTH_def ACCOUNTS_def ascii_def)

lemma lp_auth: "lp NAMESPACE_AUTH \<noteq> []" "last (lp NAMESPACE_AUTH) \<noteq> 255"
  by (simp_all add: lp_def NAMESPACE_AUTH_def ascii_def)

lemma map_key_accounts: "map_key ACCOUNTS [a] = Ok p \<longleftrightarrow> p = lp ACCOUNTS @ a"
  by (simp add: map_key_def path_new_Ok)

lemma account_key_inject [simp]: "account_key a = account_key b \<longleftrightarrow> a = b"
  by (simp add: account_key_def)

lemma account_key_not_bank: "\<nexists>x. account_key a = lp NAMESPACE_BANK @ x"
proof
  assume "\<exists>x. account_key a = lp NAMESPACE_BANK @ x"
  then obtain x where "lp NAMESPACE_AUTH @ (lp ACCOUNTS @ a) = lp NAMESPACE_BANK @ x" by (auto simp: account_key_def)
  from lp_inject [OF this] have "NAMESPACE_AUTH = NAMESPACE_BANK" by simp
  then show False by (simp add: NAMESPACE_AUTH_def NAMESPACE_BANK_def ascii_def)
qed

lemma outside_bank_account:
  "outside_bank m' = outside_bank m \<Longrightarrow> auth_account c m' a = auth_account c m a"
  using account_key_not_bank [of a]
  by (auto simp: outside_bank_def auth_account_def typed_def fun_eq_iff split: if_splits)

lemma auth_account_upd:
  "codec_ok c \<Longrightarrow> enc c x = Some b \<Longrightarrow> auth_account c (m(account_key a \<mapsto> b)) = (auth_account c m)(a \<mapsto> x)"
  by (auto simp: auth_account_def fun_eq_iff typed_upd)

context storage_laws
begin

lemma auth_store_laws: "storage_laws (auth_store rd) (\<lambda>s k. view s (lp NAMESPACE_AUTH @ k)) inv"
  unfolding auth_store_def by (rule prefixed_laws [OF lp_auth])

lemma account_may_load:
  assumes "map_may_load (auth_store rd) c ACCOUNTS [a] s g = (Ok acc, g')" and "inv s"
  shows "acc = auth_account c (view s) a"
proof -
  have "path_may_load (auth_store rd) c (lp ACCOUNTS @ a) s g = (Ok acc, g')"
    using assms(1) by (auto simp: map_may_load_def m_bind_Ok map_key_accounts)
  from reader_laws.path_may_load_view [OF storage_laws.axioms(1) [OF auth_store_laws] this assms(2)]
  show ?thesis by (simp add: auth_account_def account_key_def typed_def)
qed

lemma account_save:
  assumes "map_save (auth_store rd) c ACCOUNTS [a] x (s, g) = (Ok u, (s', g'))" and "inv s" and "codec_ok c"
  shows "inv s'" and "auth_account c (view s') = (auth_account c (view s))(a \<mapsto> x)"
    and "k \<noteq> account_key a \<Longrightarrow> view s' k = view s k"
proof -
  from assms(1,3) obtain b where b: "enc c x = Some b"
    and set: "st_set rd (account_key a) b (s, g) = (Ok (), (s', g'))"
    by (auto simp: map_save_def path_save_def m_bind_Ok map_key_accounts plus_simps to_json_vec_def auth_store_def
        prefixed_storage_def prefixed_set_def account_key_def split: option.splits)
  from set_ok [OF assms(2) set] b assms(3) show "inv s'"
    "auth_account c (view s') = (auth_account c (view s))(a \<mapsto> x)" "k \<noteq> account_key a \<Longrightarrow> view s' k = view s k"
    by (simp_all add: auth_account_upd)
qed

end

text \<open>When a key may sign for an account, and the sequence number that is stored then.\<close>

definition accepts_key :: "crypto \<Rightarrow> account option \<Rightarrow> signed_tx \<Rightarrow> bool \<Rightarrow> pub_key \<Rightarrow> nat \<Rightarrow> bool" where
  "accepts_key cr acc tx v pk n' \<longleftrightarrow>
     (case acc of
        Some (External k n) \<Rightarrow>
          pk = k \<and> n' = n + 1 \<and> (v \<longrightarrow> sequence_no (signing tx) = n) \<and> si_pubkey (signing tx) \<in> {None, Some k}
      | None \<Rightarrow>
          si_pubkey (signing tx) = Some pk \<and> pub_key_account_id cr pk = Ok (signer tx) \<and> n' = 1 \<and>
          (v \<longrightarrow> sequence_no (signing tx) = 0)
      | _ \<Rightarrow> False)"

lemma accepts_key_sequence: "accepts_key cr acc tx True pk n' \<Longrightarrow> n' = sequence_no (signing tx) + 1"
  by (auto simp: accepts_key_def split: option.splits account.splits)

context storage_laws
begin

lemma signer_pubkey_view:
  assumes run: "signer_pubkey env rd tx v (s, g) = (Ok pk, (s', g'))" and "inv s" and "codec_ok (ae_account env)"
  shows "\<exists>n'. accepts_key (ae_crypto env) (auth_account (ae_account env) (view s) (signer tx)) tx v pk n' \<and> inv s' \<and>
     auth_account (ae_account env) (view s') = (auth_account (ae_account env) (view s))(signer tx \<mapsto> External pk n') \<and>
     (\<forall>k. k \<noteq> account_key (signer tx) \<longrightarrow> view s' k = view s k)"
proof -
  let ?c = "ae_account env" and ?a = "signer tx"
  from run obtain acc g1 where load: "map_may_load (auth_store rd) ?c ACCOUNTS [?a] s g = (Ok acc, g1)"
    by (auto simp: signer_pubkey_def m_bind_Ok m_map_err_Ok)
  note acc = account_may_load [OF load assms(2)]
  have save: "\<exists>n'. accepts_key (ae_crypto env) acc tx v pk n' \<and> inv s' \<and> auth_account ?c (view s') = (auth_account ?c (view s))(?a \<mapsto> External pk n') \<and>
      (\<forall>k. k \<noteq> account_key ?a \<longrightarrow> view s' k = view s k)"
    if "map_save (auth_store rd) ?c ACCOUNTS [?a] (External pk n) (s, g1) = (Ok (), (s', g'))"
      "accepts_key (ae_crypto env) acc tx v pk n" for n
    using account_save [OF that(1) assms(2,3)] that(2) by blast
  show ?thesis
  proof (cases acc)
    case None
    with run load obtain
      "si_pubkey (signing tx) = Some pk" "v \<longrightarrow> sequence_no (signing tx) = 0" "pub_key_account_id (ae_crypto env) pk = Ok ?a"
      and sv: "map_save (auth_store rd) ?c ACCOUNTS [?a] (External pk 1) (s, g1) = (Ok (), (s', g'))"
      by (auto simp: signer_pubkey_def m_bind_Ok m_map_err_Ok split: option.splits)
    then have "accepts_key (ae_crypto env) acc tx v pk 1" using None by (simp add: accepts_key_def)
    from save [OF sv this] show ?thesis by (simp add: acc)
  next
    case (Some x)
    with run load obtain k n where x: "x = External k n"
      by (cases x) (auto simp: signer_pubkey_def m_bind_Ok m_map_err_Ok)
    with run load Some obtain "pk = k" "v \<longrightarrow> sequence_no (signing tx) = n" "si_pubkey (signing tx) \<in> {None, Some k}"
      and sv: "map_save (auth_store rd) ?c ACCOUNTS [?a] (External k (n + 1)) (s, g1) = (Ok (), (s', g'))"
      by (cases "si_pubkey (signing tx)") (auto simp: signer_pubkey_def m_bind_Ok m_map_err_Ok)
    then have "accepts_key (ae_crypto env) acc tx v pk (n + 1)" using Some x by (simp add: accepts_key_def)
    from save [OF sv [folded \<open>pk = k\<close>] this] show ?thesis by (simp add: acc)
  qed
qed

lemma charge_fee_view:
  assumes "charge_fee env rd blk tx (s, g) = (Ok u, (s', g'))" and "inv s" and "codec_ok (be_u128 (ae_bank env))"
    and "\<forall>c. fee (tx_fee tx) = Some c \<longrightarrow> native_denom (coin_denom c)"
  shows "inv s' \<and> outside_bank (view s') = outside_bank (view s) \<and>
     ledger_balance (be_u128 (ae_bank env)) (view s') =
       (case fee (tx_fee tx) of None \<Rightarrow> ledger_balance (be_u128 (ae_bank env)) (view s)
        | Some c \<Rightarrow> fold (ledger_send (signer tx) fee_collector_account) (nonzero [c])
                     (ledger_balance (be_u128 (ae_bank env)) (view s)))"
proof (cases "fee (tx_fee tx)")
  case None
  with assms(1,2) show ?thesis by (auto simp: charge_fee_def)
next
  case (Some c)
  show ?thesis
  proof (cases "coin_amount c = 0")
    case True
    with Some assms(1,2) show ?thesis by (auto simp: charge_fee_def nonzero_def)
  next
    case False
    with Some assms(1) have
      run: "bank_transfer (ae_bank env) rd blk (signer tx) fee_collector_account [c] (s, g) = (Ok u, (s', g'))"
      by (simp add: charge_fee_def)
    from bank_transfer_ledger(1) [OF run assms(2,3)] assms(4) Some show ?thesis by auto
  qed
qed

end

context storage_laws
begin

lemma validate_tx_view:
  assumes run: "auth_validate_tx env rd blk tx v (s, g) = (Ok td, (s', g'))" and "inv s"
    and ok: "codec_ok (ae_account env)" "codec_ok (be_u128 (ae_bank env))"
    and native: "\<forall>c. fee (tx_fee tx) = Some c \<longrightarrow> native_denom (coin_denom c)"
  obtains pk n' where
    "accepts_key (ae_crypto env) (auth_account (ae_account env) (view s) (signer tx)) tx v pk n'"
    "v \<longrightarrow> validate_signature (ae_crypto env) pk (message_hash (signing tx)) (signature (signing tx)) = Ok ()"
    "\<forall>h. timeout_height tx = Some h \<longrightarrow> bi_height blk \<le> h"
    "inv s'" "auth_account (ae_account env) (view s') = (auth_account (ae_account env) (view s))(signer tx \<mapsto> External pk n')"
    "td = \<lparr>td_signer = signer tx, td_msgs = msgs tx, td_gas_wanted = gas_limit (tx_fee tx)\<rparr>"
proof -
  from run obtain pk s1 g1 g2 where
    key: "signer_pubkey env rd tx v (s, g) = (Ok pk, (s1, g1))"
    and sig: "v \<longrightarrow> validate_signature (ae_crypto env) pk (message_hash (signing tx)) (signature (signing tx)) = Ok ()"
    and fee: "charge_fee env rd blk tx (s1, g2) = (Ok (), (s', g'))"
    and rest: "\<forall>h. timeout_height tx = Some h \<longrightarrow> bi_height blk \<le> h"
      "td = \<lparr>td_signer = signer tx, td_msgs = msgs tx, td_gas_wanted = gas_limit (tx_fee tx)\<rparr>"
    by (auto simp: auth_validate_tx_def m_bind_Ok m_map_err_Ok m_lift_run split: if_splits)
  from signer_pubkey_view [OF key assms(2) ok(1)] obtain n' where
    n': "accepts_key (ae_crypto env) (auth_account (ae_account env) (view s) (signer tx)) tx v pk n'" "inv s1"
    "auth_account (ae_account env) (view s1) = (auth_account (ae_account env) (view s))(signer tx \<mapsto> External pk n')"
    by blast
  from charge_fee_view [OF fee n'(2) ok(2) native] have "inv s'" "outside_bank (view s') = outside_bank (view s1)"
    by simp_all
  with n' outside_bank_account [of "view s'" "view s1" "ae_account env"] have
    "inv s'" "auth_account (ae_account env) (view s') = (auth_account (ae_account env) (view s))(signer tx \<mapsto> External pk n')"
    by auto
  with that n'(1) sig rest show ?thesis by blast
qed

end

section \<open>Properties\<close>



section \<open>Running validation\<close>

text \<open>A codec for accounts, to run the model on.\<close>

fun key_enc :: "pub_key \<Rightarrow> bytes" where
  "key_enc (Ed25519 p) = 0 # str_enc p"
| "key_enc (Secp256k1 p) = 1 # str_enc p"
| "key_enc (HybridSecp256k1Mayo s v m) = 2 # mayo_byte v # str_enc s @ str_enc m"

fun key_dec :: "bytes \<Rightarrow> pub_key \<times> bytes" where
  "key_dec (t # b) =
     (if t = 0 then (case str_dec b of (p, r) \<Rightarrow> (Ed25519 p, r))
      else if t = 1 then (case str_dec b of (p, r) \<Rightarrow> (Secp256k1 p, r))
      else (case str_dec (tl b) of (s, r) \<Rightarrow> (case str_dec r of (m, r') \<Rightarrow>
              (HybridSecp256k1Mayo s (the (mayo_from_byte (hd b))) m, r'))))"
| "key_dec [] = (Ed25519 [], [])"

lemma key_roundtrip [simp]: "key_dec (key_enc k @ y) = (k, y)"
  by (cases k) simp_all

definition account_codec :: "account codec" where
  "account_codec =
     \<lparr>enc = (\<lambda>a. Some (case a of
        External k n \<Rightarrow> 0 # key_enc k @ str_enc (replicate n 0) | Internal \<Rightarrow> [1] | Smart c \<Rightarrow> 2 # str_enc c)),
      dec = (\<lambda>b. Some (if hd b = 0 then (case key_dec (tl b) of (k, r) \<Rightarrow> External k (length (fst (str_dec r))))
                       else if hd b = 1 then Internal else Smart (fst (str_dec (tl b)))))\<rparr>"

lemma account_codec_ok: "codec_ok account_codec"
  by (auto simp: codec_ok_def account_codec_def split: account.splits)

definition test_auth_env :: "tx_state auth_env" where
  "test_auth_env = \<lparr>ae_account = account_codec, ae_bank = test_env\<rparr>"

definition test_key :: bytes where
  "test_key = replicate 20 1"

definition test_tx :: "nat \<Rightarrow> signed_tx" where
  "test_tx n = \<lparr>msgs = [], signer = test_key,
     signing = \<lparr>message_hash = [], sequence_no = n, si_pubkey = Some (Secp256k1 test_key), signature = []\<rparr>,
     tx_fee = \<lparr>fee = None, gas_limit = 100\<rparr>, timeout_height = Some 5, raw_tx = []\<rparr>"

definition first_validation where
  "first_validation = auth_validate_tx test_auth_env tx_store test_block (test_tx 0) True (empty_tx, gas_meter_new 100000)"

definition second_validation where
  "second_validation = auth_validate_tx test_auth_env tx_store test_block (test_tx 1) True
     (fst (snd first_validation), gas_meter_new 100000)"

lemmas auth_exec = auth_validate_tx_def signer_pubkey_def charge_fee_def is_hybrid_def auth_store_def
  NAMESPACE_AUTH_def ACCOUNTS_def GAS_COST_SIG_VALIDATION_def GAS_COST_PQ_SIG_VALIDATION_def
  account_id_new_def VALID_ADDR_LENGTH_def

lemma account_stored:
  "fst (snd first_validation) =
     ((btree_storage_new, []), [(account_key test_key, Delta_Set (the (enc account_codec (External (Secp256k1 test_key) 1))))])"
  "fst first_validation = Ok \<lparr>td_signer = test_key, td_msgs = [], td_gas_wanted = 100\<rparr>"
  by (simp_all add: first_validation_def test_auth_env_def test_tx_def empty_tx_def test_exec test_key_def account_key_def
      account_codec_def auth_exec plus_exec namespace_exec store_exec gas_exec prog_exec Let_def)

lemma second_ok: "\<exists>td. fst second_validation = Ok td"
  by (simp add: second_validation_def account_stored(1) test_auth_env_def test_tx_def test_exec test_key_def account_key_def
      account_codec_def auth_exec plus_exec namespace_exec store_exec gas_exec prog_exec Let_def)

lemma first_run:
  "auth_validate_tx test_auth_env tx_store test_block (test_tx 0) True (empty_tx, gas_meter_new 100000) =
     (Ok \<lparr>td_signer = test_key, td_msgs = [], td_gas_wanted = 100\<rparr>, (fst (snd first_validation), snd (snd first_validation)))"
  using account_stored(2) by (metis first_validation_def prod.collapse)

lemma test_auth_env_ok:
  "codec_ok (ae_account test_auth_env)" "codec_ok (be_u128 (ae_bank test_auth_env))"
  "\<forall>c. fee (tx_fee (test_tx n)) = Some c \<longrightarrow> native_denom (coin_denom c)" "signer (test_tx n) = test_key"
  "sequence_no (signing (test_tx n)) = n"
  by (simp_all add: test_auth_env_def account_codec_ok unary_codec_ok test_tx_def)

lemma first_inv: "tx_inv empty_tx" "tx_inv (fst (snd first_validation))"
  by (simp_all add: empty_tx_def btree_storage_new_def account_stored(1))



end
