(* ===== verification/Ibc.thy ===== *)
theory Ibc
  imports Interface
begin

text \<open>
  The IBC keeper, \<open>packages/app/src/ibc/keeper.rs\<close> and \<open>packages/app/src/ibc/paths.rs\<close>: a writer of
  commitments. Connections, channels and packets are stored under their ICS-24 paths as raw keys;
  a transfer escrows the tokens with the bank and a timeout refunds them.

  The protobuf encodings of \<open>ConnectionEnd\<close>, \<open>Channel\<close> and \<open>Packet\<close> and the JSON parser for packet
  data are external and fields of the environment.
\<close>

section \<open>Paths\<close>

definition STORE_PREFIX :: bytes where
  "STORE_PREFIX = ascii ''ibc/''"

definition client_state_path :: "bytes \<Rightarrow> bytes" where
  "client_state_path client_id = STORE_PREFIX @ ascii ''clients/'' @ client_id @ ascii ''/clientState''"

definition consensus_state_path :: "bytes \<Rightarrow> nat \<Rightarrow> nat \<Rightarrow> bytes" where
  "consensus_state_path client_id revision height =
     STORE_PREFIX @ ascii ''clients/'' @ client_id @ ascii ''/consensusStates/'' @ show_nat revision @ ascii ''-'' @ show_nat height"

definition connection_path :: "bytes \<Rightarrow> bytes" where
  "connection_path connection_id = STORE_PREFIX @ ascii ''connections/'' @ connection_id"

definition channel_path :: "bytes \<Rightarrow> bytes \<Rightarrow> bytes" where
  "channel_path port_id channel_id =
     STORE_PREFIX @ ascii ''channelEnds/ports/'' @ port_id @ ascii ''/channels/'' @ channel_id"

definition packet_commitment_path :: "bytes \<Rightarrow> bytes \<Rightarrow> nat \<Rightarrow> bytes" where
  "packet_commitment_path port_id channel_id sequence =
     STORE_PREFIX @ ascii ''commitments/ports/'' @ port_id @ ascii ''/channels/'' @ channel_id
       @ ascii ''/sequences/'' @ show_nat sequence"

definition packet_ack_path :: "bytes \<Rightarrow> bytes \<Rightarrow> nat \<Rightarrow> bytes" where
  "packet_ack_path port_id channel_id sequence =
     STORE_PREFIX @ ascii ''acks/ports/'' @ port_id @ ascii ''/channels/'' @ channel_id
       @ ascii ''/sequences/'' @ show_nat sequence"

definition packet_receipt_path :: "bytes \<Rightarrow> bytes \<Rightarrow> nat \<Rightarrow> bytes" where
  "packet_receipt_path port_id channel_id sequence =
     STORE_PREFIX @ ascii ''receipts/ports/'' @ port_id @ ascii ''/channels/'' @ channel_id
       @ ascii ''/sequences/'' @ show_nat sequence"

definition next_sequence_send_path :: "bytes \<Rightarrow> bytes \<Rightarrow> bytes" where
  "next_sequence_send_path port_id channel_id =
     STORE_PREFIX @ ascii ''nextSequenceSend/ports/'' @ port_id @ ascii ''/channels/'' @ channel_id"

definition packet_data_path :: "bytes \<Rightarrow> bytes \<Rightarrow> nat \<Rightarrow> bytes" where
  "packet_data_path port_id channel_id sequence =
     STORE_PREFIX @ ascii ''packetData/ports/'' @ port_id @ ascii ''/channels/'' @ channel_id
       @ ascii ''/sequences/'' @ show_nat sequence"

section \<open>Stored objects\<close>

text \<open>The enumerations are \<open>i32\<close> on the wire: 1 is \<open>Init\<close>, 3 is \<open>Open\<close>; 1 is \<open>Unordered\<close>, 2 \<open>Ordered\<close>.\<close>

definition STATE_INIT :: int where
  "STATE_INIT = 1"

definition STATE_OPEN :: int where
  "STATE_OPEN = 3"

record connection_counterparty =
  cc_client_id :: bytes
  cc_connection_id :: bytes
  cc_prefix :: "bytes option"

record connection_end =
  ce_client_id :: bytes
  ce_versions :: "(bytes \<times> bytes list) list"
  ce_state :: int
  ce_counterparty :: "connection_counterparty option"
  ce_delay_period :: nat

record channel_counterparty =
  chc_port_id :: bytes
  chc_channel_id :: bytes

record channel_end =
  ch_state :: int
  ch_ordering :: int
  ch_counterparty :: "channel_counterparty option"
  ch_connection_hops :: "bytes list"
  ch_version :: bytes

record packet =
  pk_sequence :: nat
  pk_source_port :: bytes
  pk_source_channel :: bytes
  pk_destination_port :: bytes
  pk_destination_channel :: bytes
  pk_data :: bytes
  pk_timeout_height :: "(nat \<times> nat) option"
  pk_timeout_timestamp :: nat

text \<open>The fields of \<open>FungibleTokenPacketData\<close> that \<open>timeout\<close> reads.\<close>

record packet_json =
  pj_amount :: bytes
  pj_denom :: bytes
  pj_sender :: bytes

record 's ibc_env =
  ie_bank :: "'s bank_env"
  ie_connection :: "connection_end codec"
  ie_channel :: "channel_end codec"
  ie_packet :: "packet codec"
  ie_packet_json :: "bytes \<Rightarrow> packet_json option"

abbreviation ie_crypto :: "'s ibc_env \<Rightarrow> crypto" where
  "ie_crypto env \<equiv> be_crypto (ie_bank env)"

text \<open>\<open>AccountId::new(&digest[..20]).expect(...)\<close>: a digest has 32 bytes.\<close>

definition escrow_account :: "crypto \<Rightarrow> bytes \<Rightarrow> bytes \<Rightarrow> account_id" where
  "escrow_account cr port_id channel_id = take 20 (c_sha256 cr (ascii ''ics20-1'' @ port_id @ channel_id))"

text \<open>\<open>str::parse::<u128>()\<close>: an optional plus sign and at least one digit, without overflow.\<close>

definition is_digit_byte :: "byte \<Rightarrow> bool" where
  "is_digit_byte b \<longleftrightarrow> 48 \<le> b \<and> b \<le> 57"

definition digits_value :: "bytes \<Rightarrow> nat" where
  "digits_value ds = fold (\<lambda>d n. 10 * n + (unat d - 48)) ds 0"

definition parse_u128 :: "bytes \<Rightarrow> nat option" where
  "parse_u128 s =
     (let ds = (case s of b # r \<Rightarrow> if b = 43 then r else s | [] \<Rightarrow> [])
      in if ds \<noteq> [] \<and> list_all is_digit_byte ds \<and> digits_value ds \<le> u128_max then Some (digits_value ds) else None)"

section \<open>Clients\<close>

definition read_raw :: "('s, 'z) reader_scheme \<Rightarrow> bytes \<Rightarrow> 's \<Rightarrow> (gas_meter, bytes option, pulsar_error) prog" where
  "read_raw st key s = m_map_err PE_Gas (rd_get st s key)"

definition write_raw :: "('s, 'z) storage_scheme \<Rightarrow> bytes \<Rightarrow> bytes \<Rightarrow> ('s \<times> gas_meter, unit, pulsar_error) prog" where
  "write_raw st key value = m_map_err PE_Gas (st_set st key value)"

definition client_state_json :: "bytes \<Rightarrow> nat \<Rightarrow> bytes" where
  "client_state_json chain_id height =
     ascii ''{\"chain_id\":\"'' @ chain_id @ ascii ''\",\"latest_height\":'' @ show_nat height @ ascii ''}''"

definition create_client ::
  "'s storage \<Rightarrow> bytes \<Rightarrow> bytes \<Rightarrow> nat \<Rightarrow> ('s \<times> gas_meter, unit, pulsar_error) prog" where
  "create_client st client_id chain_id latest_height =
     (let key = client_state_path client_id in
      m_bind (m_read (read_raw st key)) (\<lambda>old.
      m_bind (m_ensure (old = None) (PE_Ibc (ClientExists client_id))) (\<lambda>_.
      write_raw st key (client_state_json chain_id latest_height))))"

text \<open>
  \<open>s.split(pat).nth(1)\<close> starts after the first occurrence of the pattern; as the pattern holds a
  quote, cutting at the next quote ends before any further occurrence.
\<close>

fun after_first :: "bytes \<Rightarrow> bytes \<Rightarrow> bytes option" where
  "after_first pat [] = (if pat = [] then Some [] else None)"
| "after_first pat (b # s) =
     (if take (length pat) (b # s) = pat then Some (drop (length pat) (b # s)) else after_first pat s)"

definition stored_chain_id :: "bytes \<Rightarrow> bytes" where
  "stored_chain_id existing =
     (case after_first (ascii ''\"chain_id\":\"'') existing of
        None \<Rightarrow> [] | Some r \<Rightarrow> takeWhile (\<lambda>b. b \<noteq> 34) r)"

definition update_client :: "'s storage \<Rightarrow> bytes \<Rightarrow> nat \<Rightarrow> ('s \<times> gas_meter, unit, pulsar_error) prog" where
  "update_client st client_id height =
     (let key = client_state_path client_id in
      m_bind (m_read (read_raw st key)) (\<lambda>old.
      m_bind (m_lift (of_option (PE_Ibc (ClientNotFound client_id)) old)) (\<lambda>existing.
      write_raw st key (client_state_json (stored_chain_id existing) height))))"

section \<open>Handshakes\<close>

definition conn_open_init ::
  "'s ibc_env \<Rightarrow> 's storage \<Rightarrow> bytes \<Rightarrow> bytes \<Rightarrow> bytes \<Rightarrow> bytes \<Rightarrow> bytes
     \<Rightarrow> ('s \<times> gas_meter, unit, pulsar_error) prog" where
  "conn_open_init env st client_id connection_id counterparty_client_id counterparty_connection_id counterparty_prefix =
     (let key = connection_path connection_id in
      m_bind (m_read (read_raw st key)) (\<lambda>old.
      m_bind (m_ensure (old = None) (PE_Ibc (ConnectionExists connection_id))) (\<lambda>_.
      m_bind (m_lift (of_option (PE_Ibc Invalid) (enc (ie_connection env)
        \<lparr>ce_client_id = client_id,
         ce_versions = [(ascii ''1'', [ascii ''ORDER_ORDERED'', ascii ''ORDER_UNORDERED''])],
         ce_state = STATE_INIT,
         ce_counterparty = Some \<lparr>cc_client_id = counterparty_client_id,
           cc_connection_id = counterparty_connection_id, cc_prefix = Some counterparty_prefix\<rparr>,
         ce_delay_period = 0\<rparr>))) (\<lambda>b.
      write_raw st key b))))"

definition conn_open_ack ::
  "'s ibc_env \<Rightarrow> 's storage \<Rightarrow> bytes \<Rightarrow> bytes \<Rightarrow> ('s \<times> gas_meter, unit, pulsar_error) prog" where
  "conn_open_ack env st connection_id counterparty_connection_id =
     (let key = connection_path connection_id in
      m_bind (m_read (read_raw st key)) (\<lambda>old.
      m_bind (m_lift (of_option (PE_Ibc (ConnectionNotFound connection_id)) old)) (\<lambda>raw.
      m_bind (m_lift (of_option (PE_Ibc Invalid) (dec (ie_connection env) raw))) (\<lambda>ce.
      m_bind (m_ensure (ce_state ce = STATE_INIT) (PE_Ibc InvalidState)) (\<lambda>_.
      m_bind (m_lift (of_option (PE_Ibc Invalid) (enc (ie_connection env)
        (ce\<lparr>ce_counterparty := map_option (cc_connection_id_update (\<lambda>_. counterparty_connection_id)) (ce_counterparty ce),
            ce_state := STATE_OPEN\<rparr>)))) (\<lambda>b.
      write_raw st key b))))))"

text \<open>\<open>ordering.eq_ignore_ascii_case("ordered")\<close>.\<close>

definition lower_byte :: "byte \<Rightarrow> byte" where
  "lower_byte b = (if 65 \<le> b \<and> b \<le> 90 then b + 32 else b)"

definition chan_open_init ::
  "'s ibc_env \<Rightarrow> 's storage \<Rightarrow> bytes \<Rightarrow> bytes \<Rightarrow> bytes \<Rightarrow> bytes \<Rightarrow> bytes \<Rightarrow> bytes \<Rightarrow> bytes
     \<Rightarrow> ('s \<times> gas_meter, unit, pulsar_error) prog" where
  "chan_open_init env st port_id channel_id connection_id counterparty_port_id counterparty_channel_id order version =
     m_bind (m_read (read_raw st (connection_path connection_id))) (\<lambda>old.
     m_bind (m_lift (of_option (PE_Ibc (ConnectionNotFound connection_id)) old)) (\<lambda>conn_raw.
     m_bind (m_lift (of_option (PE_Ibc Invalid) (dec (ie_connection env) conn_raw))) (\<lambda>conn.
     m_bind (m_ensure (ce_state conn = STATE_OPEN) (PE_Ibc (ConnectionNotOpen connection_id))) (\<lambda>_.
     let key = channel_path port_id channel_id in
     m_bind (m_read (read_raw st key)) (\<lambda>oldc.
     m_bind (m_ensure (oldc = None) (PE_Ibc (ChannelExists port_id channel_id))) (\<lambda>_.
     m_bind (m_lift (of_option (PE_Ibc Invalid) (enc (ie_channel env)
       \<lparr>ch_state = STATE_INIT,
        ch_ordering = (if map lower_byte order = ascii ''ordered'' then 2 else 1),
        ch_counterparty = Some \<lparr>chc_port_id = counterparty_port_id, chc_channel_id = counterparty_channel_id\<rparr>,
        ch_connection_hops = [connection_id],
        ch_version = version\<rparr>))) (\<lambda>b.
     m_bind (write_raw st key b) (\<lambda>_.
     write_raw st (next_sequence_send_path port_id channel_id) (u64_to_be_bytes 1)))))))))"

definition chan_open_ack ::
  "'s ibc_env \<Rightarrow> 's storage \<Rightarrow> bytes \<Rightarrow> bytes \<Rightarrow> bytes \<Rightarrow> bytes \<Rightarrow> ('s \<times> gas_meter, unit, pulsar_error) prog" where
  "chan_open_ack env st port_id channel_id counterparty_channel_id counterparty_version =
     (let key = channel_path port_id channel_id in
      m_bind (m_read (read_raw st key)) (\<lambda>old.
      m_bind (m_lift (of_option (PE_Ibc (ChannelNotFound port_id channel_id)) old)) (\<lambda>raw.
      m_bind (m_lift (of_option (PE_Ibc Invalid) (dec (ie_channel env) raw))) (\<lambda>chan.
      m_bind (m_ensure (ch_state chan = STATE_INIT) (PE_Ibc InvalidState)) (\<lambda>_.
      m_bind (m_lift (of_option (PE_Ibc Invalid) (enc (ie_channel env)
        (chan\<lparr>ch_counterparty := map_option (chc_channel_id_update (\<lambda>_. counterparty_channel_id)) (ch_counterparty chan),
              ch_version := counterparty_version, ch_state := STATE_OPEN\<rparr>)))) (\<lambda>b.
      write_raw st key b))))))"

section \<open>Packets\<close>

definition packet_data_json :: "crypto \<Rightarrow> coin \<Rightarrow> bytes \<Rightarrow> account_id \<Rightarrow> bytes" where
  "packet_data_json cr token receiver sender =
     ascii ''{\"amount\":\"'' @ show_nat (coin_amount token) @ ascii ''\",\"denom\":\"'' @ coin_denom token
       @ ascii ''\",\"receiver\":\"'' @ receiver @ ascii ''\",\"sender\":\"'' @ c_bech32_encode cr sender @ ascii ''\"}''"

definition packet_commitment :: "crypto \<Rightarrow> nat \<Rightarrow> nat \<Rightarrow> bytes \<Rightarrow> bytes" where
  "packet_commitment cr timeout_timestamp height packet_data =
     c_sha256 cr (u64_to_be_bytes timeout_timestamp @ u64_to_be_bytes 0 @ u64_to_be_bytes height
       @ c_sha256 cr packet_data)"

definition ibc_transfer ::
  "'s ibc_env \<Rightarrow> 's storage \<Rightarrow> block_info \<Rightarrow> account_id \<Rightarrow> bytes \<Rightarrow> bytes \<Rightarrow> coin \<Rightarrow> bytes \<Rightarrow> nat \<Rightarrow> nat
     \<Rightarrow> ('s \<times> gas_meter, nat \<times> bytes, pulsar_error) prog" where
  "ibc_transfer env st block sender port_id channel_id token receiver height timestamp =
     m_bind (m_read (read_raw st (channel_path port_id channel_id))) (\<lambda>old.
     m_bind (m_lift (of_option (PE_Ibc (ChannelNotFound port_id channel_id)) old)) (\<lambda>chan_raw.
     m_bind (m_lift (of_option (PE_Ibc Invalid) (dec (ie_channel env) chan_raw))) (\<lambda>chan.
     m_bind (m_ensure (ch_state chan = STATE_OPEN) (PE_Ibc (ChannelNotOpen port_id channel_id))) (\<lambda>_.
     m_bind (bank_transfer (ie_bank env) st block sender (escrow_account (ie_crypto env) port_id channel_id) [token]) (\<lambda>_.
     let packet_data = packet_data_json (ie_crypto env) token receiver sender;
         seq_key = next_sequence_send_path port_id channel_id in
     m_bind (m_read (read_raw st seq_key)) (\<lambda>seq_old.
     m_bind (m_lift (of_option (PE_Ibc (ChannelNotFound port_id channel_id)) seq_old)) (\<lambda>seq_raw.
     m_bind (m_lift (if length seq_raw < 8 then Panic else Ok (u64_from_be_bytes (take 8 seq_raw)))) (\<lambda>sequence.
     m_bind (write_raw st (packet_commitment_path port_id channel_id sequence)
       (packet_commitment (ie_crypto env) timestamp height packet_data)) (\<lambda>_.
     m_bind (m_lift (u64_add sequence 1)) (\<lambda>next.
     m_bind (write_raw st seq_key (u64_to_be_bytes next)) (\<lambda>_.
     m_bind (m_lift (of_option (PE_Ibc Invalid) (enc (ie_packet env)
       \<lparr>pk_sequence = sequence, pk_source_port = port_id, pk_source_channel = channel_id,
        pk_destination_port = (case ch_counterparty chan of None \<Rightarrow> [] | Some c \<Rightarrow> chc_port_id c),
        pk_destination_channel = (case ch_counterparty chan of None \<Rightarrow> [] | Some c \<Rightarrow> chc_channel_id c),
        pk_data = packet_data, pk_timeout_height = Some (0, height), pk_timeout_timestamp = timestamp\<rparr>))) (\<lambda>b.
     m_bind (write_raw st (packet_data_path port_id channel_id sequence) b) (\<lambda>_.
     m_ret (sequence, packet_data))))))))))))))"

definition ibc_acknowledgement ::
  "'s storage \<Rightarrow> bytes \<Rightarrow> bytes \<Rightarrow> nat \<Rightarrow> ('s \<times> gas_meter, unit, pulsar_error) prog" where
  "ibc_acknowledgement st port_id channel_id sequence =
     m_bind (m_map_err PE_Gas (st_remove st (packet_commitment_path port_id channel_id sequence))) (\<lambda>_.
     m_map_err PE_Gas (st_remove st (packet_data_path port_id channel_id sequence)))"

definition ibc_timeout ::
  "'s ibc_env \<Rightarrow> 's storage \<Rightarrow> block_info \<Rightarrow> bytes \<Rightarrow> bytes \<Rightarrow> nat
     \<Rightarrow> ('s \<times> gas_meter, account_id \<times> coin, pulsar_error) prog" where
  "ibc_timeout env st block port_id channel_id sequence =
     m_bind (m_read (read_raw st (packet_data_path port_id channel_id sequence))) (\<lambda>old.
     m_bind (m_lift (of_option (PE_Ibc Invalid) old)) (\<lambda>raw.
     m_bind (m_lift (of_option (PE_Ibc Invalid) (dec (ie_packet env) raw))) (\<lambda>pk.
     m_bind (m_lift (of_option (PE_Ibc Invalid) (ie_packet_json env (pk_data pk)))) (\<lambda>data.
     m_bind (m_map_err (\<lambda>_. PE_Ibc Invalid) (m_lift (account_id_parse_string (ie_crypto env) (pj_sender data)))) (\<lambda>refund_to.
     m_bind (m_lift (of_option (PE_Ibc Invalid) (parse_u128 (pj_amount data)))) (\<lambda>amount.
     let c = \<lparr>coin_denom = pj_denom data, coin_amount = amount\<rparr> in
     m_bind (bank_transfer (ie_bank env) st block (escrow_account (ie_crypto env) port_id channel_id) refund_to [c]) (\<lambda>_.
     m_bind (m_map_err PE_Gas (st_remove st (packet_commitment_path port_id channel_id sequence))) (\<lambda>_.
     m_bind (m_map_err PE_Gas (st_remove st (packet_data_path port_id channel_id sequence))) (\<lambda>_.
     m_ret (refund_to, c))))))))))"

section \<open>Dispatch\<close>

datatype ibc_msg_data =
    Data_CreateClient bytes
  | Data_UpdateClient
  | Data_ConnectionOpenInit
  | Data_ConnectionOpenAck
  | Data_ChannelOpenInit
  | Data_ChannelOpenAck
  | Data_Transfer nat
  | Data_Acknowledgement
  | Data_Timeout

definition ibc_event :: "string \<Rightarrow> (string \<times> bytes) list \<Rightarrow> event" where
  "ibc_event ty attrs = \<lparr>ev_type = ascii ty, ev_attributes = map (\<lambda>(k, v). (ascii k, v)) attrs\<rparr>"

fun ibc_process_msg ::
  "'s ibc_env \<Rightarrow> 's storage \<Rightarrow> block_info \<Rightarrow> account_id \<Rightarrow> ibc_msg
     \<Rightarrow> ('s \<times> gas_meter, event list \<times> ibc_msg_data, pulsar_error) prog" where
  "ibc_process_msg env st block who (CreateClient sender client_id chain_id latest_height) =
     m_bind (m_ensure (who = sender) (PE_Ibc (Unauthorized_Ibc who))) (\<lambda>_.
     m_bind (create_client st client_id chain_id latest_height) (\<lambda>_.
     m_ret ([ibc_event ''ibc_create_client'' [(''client_id'', client_id), (''chain_id'', chain_id)]],
       Data_CreateClient client_id)))"
| "ibc_process_msg env st block who (UpdateClient sender client_id height) =
     m_bind (m_ensure (who = sender) (PE_Ibc (Unauthorized_Ibc who))) (\<lambda>_.
     m_bind (update_client st client_id height) (\<lambda>_.
     m_ret ([ibc_event ''ibc_update_client'' [(''client_id'', client_id), (''height'', show_nat height)]],
       Data_UpdateClient)))"
| "ibc_process_msg env st block who
     (ConnectionOpenInit sender client_id connection_id cp_client_id cp_connection_id cp_prefix) =
     m_bind (m_ensure (who = sender) (PE_Ibc (Unauthorized_Ibc who))) (\<lambda>_.
     m_bind (conn_open_init env st client_id connection_id cp_client_id cp_connection_id cp_prefix) (\<lambda>_.
     m_ret ([ibc_event ''ibc_connection_open_init'' [(''connection_id'', connection_id)]],
       Data_ConnectionOpenInit)))"
| "ibc_process_msg env st block who (ConnectionOpenAck sender connection_id cp_connection_id proof proof_height) =
     m_bind (m_ensure (who = sender) (PE_Ibc (Unauthorized_Ibc who))) (\<lambda>_.
     m_bind (conn_open_ack env st connection_id cp_connection_id) (\<lambda>_.
     m_ret ([ibc_event ''ibc_connection_open_ack'' [(''connection_id'', connection_id)]],
       Data_ConnectionOpenAck)))"
| "ibc_process_msg env st block who
     (ChannelOpenInit sender port_id channel_id connection_id cp_port_id cp_channel_id order version) =
     m_bind (m_ensure (who = sender) (PE_Ibc (Unauthorized_Ibc who))) (\<lambda>_.
     m_bind (chan_open_init env st port_id channel_id connection_id cp_port_id cp_channel_id order version) (\<lambda>_.
     m_ret ([ibc_event ''ibc_channel_open_init'' [(''port_id'', port_id), (''channel_id'', channel_id)]],
       Data_ChannelOpenInit)))"
| "ibc_process_msg env st block who
     (ChannelOpenAck sender port_id channel_id cp_channel_id cp_version proof proof_height) =
     m_bind (m_ensure (who = sender) (PE_Ibc (Unauthorized_Ibc who))) (\<lambda>_.
     m_bind (chan_open_ack env st port_id channel_id cp_channel_id cp_version) (\<lambda>_.
     m_ret ([ibc_event ''ibc_channel_open_ack'' [(''port_id'', port_id), (''channel_id'', channel_id)]],
       Data_ChannelOpenAck)))"
| "ibc_process_msg env st block who (Transfer sender port_id channel_id token receiver height timestamp) =
     m_bind (m_ensure (who = sender) (PE_Ibc (Unauthorized_Ibc who))) (\<lambda>_.
     m_bind (ibc_transfer env st block sender port_id channel_id token receiver height timestamp) (\<lambda>(sequence, packet_data).
     m_ret ([ibc_event ''ibc_transfer'' [(''port_id'', port_id), (''channel_id'', channel_id),
               (''sequence'', show_nat sequence), (''packet_data'', packet_data)]],
       Data_Transfer sequence)))"
| "ibc_process_msg env st block who (Acknowledgement sender port_id channel_id sequence ack proof proof_height) =
     m_bind (m_ensure (who = sender) (PE_Ibc (Unauthorized_Ibc who))) (\<lambda>_.
     m_bind (ibc_acknowledgement st port_id channel_id sequence) (\<lambda>_.
     m_ret ([ibc_event ''ibc_acknowledgement'' [(''port_id'', port_id), (''channel_id'', channel_id),
               (''sequence'', show_nat sequence)]],
       Data_Acknowledgement)))"
| "ibc_process_msg env st block who (Timeout sender port_id channel_id sequence proof proof_height) =
     m_bind (m_ensure (who = sender) (PE_Ibc (Unauthorized_Ibc who))) (\<lambda>_.
     m_bind (ibc_timeout env st block port_id channel_id sequence) (\<lambda>(refund_to, c).
     m_ret ([ibc_event ''ibc_timeout'' [(''port_id'', port_id), (''channel_id'', channel_id),
               (''sequence'', show_nat sequence),
               (''refund_to'', c_bech32_encode (ie_crypto env) refund_to),
               (''refund'', show_nat (coin_amount c) @ coin_denom c)]],
       Data_Timeout)))"

definition get_connection ::
  "'s ibc_env \<Rightarrow> ('s, 'z) reader_scheme \<Rightarrow> bytes \<Rightarrow> 's \<Rightarrow> (gas_meter, connection_end option, pulsar_error) prog" where
  "get_connection env st connection_id s =
     m_bind (read_raw st (connection_path connection_id) s) (\<lambda>old.
     (case old of
        Some raw \<Rightarrow> m_bind (m_lift (of_option (PE_Ibc Invalid) (dec (ie_connection env) raw))) (\<lambda>c. m_ret (Some c))
      | None \<Rightarrow> m_ret None))"

definition get_channel ::
  "'s ibc_env \<Rightarrow> ('s, 'z) reader_scheme \<Rightarrow> bytes \<Rightarrow> bytes \<Rightarrow> 's \<Rightarrow> (gas_meter, channel_end option, pulsar_error) prog" where
  "get_channel env st port_id channel_id s =
     m_bind (read_raw st (channel_path port_id channel_id) s) (\<lambda>old.
     (case old of
        Some raw \<Rightarrow> m_bind (m_lift (of_option (PE_Ibc Invalid) (dec (ie_channel env) raw))) (\<lambda>c. m_ret (Some c))
      | None \<Rightarrow> m_ret None))"

section \<open>The keeper goes through the storage\<close>

lemma via_write_raw [via_rules]: "via st (write_raw st k v)"
  by (auto simp: write_raw_def intro!: via_rules)

lemma via_let [via_rules]: "via st (f x) \<Longrightarrow> via st (let y = x in f y)"
  by simp

lemma via_ibc_handlers [via_rules]:
  "via st (create_client st cid chain h)" "via st (update_client st cid h)"
  "via st (conn_open_init env st a b c d e)" "via st (conn_open_ack env st a b)"
  "via st (chan_open_init env st a b c d e f h')" "via st (chan_open_ack env st a b c d)"
  "via st (ibc_acknowledgement st a b n)"
  unfolding create_client_def update_client_def conn_open_init_def conn_open_ack_def chan_open_init_def
    chan_open_ack_def ibc_acknowledgement_def
  by (intro via_rules)+

lemma via_ibc_packets:
  assumes "bank_env_via (ie_bank env) st"
  shows "via st (ibc_transfer env st blk a b c t r h ts)" "via st (ibc_timeout env st blk b c n)"
  unfolding ibc_transfer_def ibc_timeout_def by (intro via_rules via_transfer [OF assms])+

lemma via_ibc_process_msg:
  assumes "bank_env_via (ie_bank env) st"
  shows "via st (ibc_process_msg env st blk who m)"
  by (cases m) (auto intro!: via_rules via_ibc_packets [OF assms])

section \<open>Numbers\<close>

lemma digits_value_snoc: "digits_value (ds @ [d]) = 10 * digits_value ds + (unat d - 48)"
  by (simp add: digits_value_def)

lemma show_nat_digits: "show_nat n \<noteq> [] \<and> list_all is_digit_byte (show_nat n) \<and> digits_value (show_nat n) = n"
proof (induction n rule: show_nat.induct)
  case (1 n)
  have digit: "is_digit_byte (of_nat (48 + d)) \<and> unat (of_nat (48 + d) :: byte) = 48 + d" if "d < 10" for d
  proof -
    have "unat (of_nat (48 + d) :: byte) = 48 + d" using that by (subst unat_of_nat) simp
    with that show ?thesis by (simp add: is_digit_byte_def word_le_nat_alt)
  qed
  show ?case
  proof (cases "n < 10")
    case True
    with digit [OF True] show ?thesis by (subst (1 2 3) show_nat.simps) (simp add: digits_value_def)
  next
    case False
    with 1 digit [of "n mod 10"] show ?thesis
      by (subst (1 2 3) show_nat.simps) (simp add: digits_value_snoc)
  qed
qed

lemma parse_u128_show: "n \<le> u128_max \<Longrightarrow> parse_u128 (show_nat n) = Some n"
proof -
  assume "n \<le> u128_max"
  obtain d ds where d: "show_nat n = d # ds" using show_nat_digits [of n] by (cases "show_nat n") auto
  have "\<not> is_digit_byte 43" by (simp add: is_digit_byte_def)
  with show_nat_digits [of n] d have "d \<noteq> 43" by auto
  with d show_nat_digits [of n] \<open>n \<le> u128_max\<close> show ?thesis by (simp add: parse_u128_def)
qed

section \<open>Keys\<close>

lemmas path_defs = client_state_path_def connection_path_def channel_path_def packet_commitment_path_def
  next_sequence_send_path_def packet_data_path_def STORE_PREFIX_def

lemma ibc_paths_distinct [simp]:
  "packet_data_path p c n \<noteq> packet_commitment_path p' c' n'" "packet_commitment_path p' c' n' \<noteq> packet_data_path p c n"
  "next_sequence_send_path p c \<noteq> packet_commitment_path p' c' n'" "packet_commitment_path p' c' n' \<noteq> next_sequence_send_path p c"
  "next_sequence_send_path p c \<noteq> packet_data_path p' c' n'" "packet_data_path p' c' n' \<noteq> next_sequence_send_path p c"
  "connection_path x \<noteq> packet_commitment_path p c n" "connection_path x \<noteq> packet_data_path p c n"
  "connection_path x \<noteq> next_sequence_send_path p c" "connection_path x \<noteq> channel_path p c"
  "channel_path p' c' \<noteq> packet_commitment_path p c n" "channel_path p' c' \<noteq> packet_data_path p c n"
  "channel_path p' c' \<noteq> next_sequence_send_path p c" "channel_path p c \<noteq> connection_path x"
  "connection_path x \<noteq> client_state_path y" "channel_path p c \<noteq> client_state_path y"
  "connection_path x = connection_path y \<longleftrightarrow> x = y"
  by (simp_all add: path_defs ascii_def)

lemma ibc_paths_distinct_sym [simp]:
  "packet_commitment_path p c n \<noteq> connection_path x" "packet_data_path p c n \<noteq> connection_path x"
  "next_sequence_send_path p c \<noteq> connection_path x" "packet_commitment_path p c n \<noteq> channel_path p' c'"
  "packet_data_path p c n \<noteq> channel_path p' c'" "next_sequence_send_path p c \<noteq> channel_path p' c'"
  "client_state_path y \<noteq> connection_path x" "client_state_path y \<noteq> channel_path p c"
  by (simp_all add: path_defs ascii_def)

definition outside_key :: "bytes \<Rightarrow> bool" where
  "outside_key k \<longleftrightarrow> (\<forall>x. k \<noteq> lp NAMESPACE_BANK @ x)"

lemma ibc_paths_outside [simp]:
  "outside_key (packet_data_path p c n)" "outside_key (packet_commitment_path p c n)"
  "outside_key (next_sequence_send_path p c)" "outside_key (channel_path p c)" "outside_key (connection_path x)"
  "outside_key (client_state_path y)"
  by (simp_all add: outside_key_def path_defs ascii_def lp_def)

lemma ledger_outside [simp]:
  assumes "outside_key k"
  shows "ledger_balance c (m(k := v)) = ledger_balance c m" "ledger_supply c (m(k := v)) = ledger_supply c m"
proof -
  have "balance_key a d \<noteq> k" "supply_key d \<noteq> k" for a d
    using assms by (auto simp: outside_key_def balance_key_def supply_key_def)
  then show "ledger_balance c (m(k := v)) = ledger_balance c m" "ledger_supply c (m(k := v)) = ledger_supply c m"
    by (auto simp: ledger_balance_def ledger_supply_def typed_def fun_eq_iff)
qed

lemma outside_bank_key: "outside_bank m' = outside_bank m \<Longrightarrow> outside_key k \<Longrightarrow> m' k = m k"
  by (auto simp: outside_bank_def outside_key_def fun_eq_iff split: if_splits)

section \<open>What the packet handlers do\<close>

context storage_laws
begin

lemma read_raw_view: "read_raw rd k s g = (Ok v, g') \<Longrightarrow> inv s \<Longrightarrow> v = view s k"
  using get_view by (auto simp: read_raw_def m_map_err_Ok)

lemma write_raw_view: "write_raw rd k v (s, g) = (Ok u, (s', g')) \<Longrightarrow> inv s \<Longrightarrow> inv s' \<and> view s' = (view s)(k \<mapsto> v)"
  using set_ok by (auto simp: write_raw_def m_map_err_Ok)

lemma remove_raw_view:
  "m_map_err PE_Gas (st_remove rd k) (s, g) = (Ok u, (s', g')) \<Longrightarrow> inv s \<Longrightarrow> inv s' \<and> view s' = (view s)(k := None)"
  using remove_ok by (auto simp: m_map_err_Ok)

lemma bank_transfer_one:
  assumes "bank_transfer env rd blk f t [c] (s, g) = (Ok u, (s', g'))" "inv s" "codec_ok (be_u128 env)"
    "native_denom (coin_denom c)"
  shows "inv s'" "ledger_balance (be_u128 env) (view s') = ledger_send f t c (ledger_balance (be_u128 env) (view s))"
    "outside_bank (view s') = outside_bank (view s)"
    "f \<noteq> t \<Longrightarrow> coin_amount c \<le> ledger_balance (be_u128 env) (view s) (f, coin_denom c)"
proof -
  let ?B = "ledger_balance (be_u128 env) (view s)"
  have native: "\<forall>x\<in>set [c]. native_denom (coin_denom x)" using assms(4) by simp
  note l = bank_transfer_ledger [OF assms(1-3) native]
  from l(1) have nz: "nonzero [c] = [c]" by (cases "coin_amount c = 0") (simp_all add: nonzero_def)
  from l(1) nz show "inv s'" "outside_bank (view s') = outside_bank (view s)"
    and B': "ledger_balance (be_u128 env) (view s') = ledger_send f t c ?B" by simp_all
  assume "f \<noteq> t"
  with l(2) [of "{f, t}" "coin_denom c"] B' show "coin_amount c \<le> ?B (f, coin_denom c)"
    by (auto simp: ledger_send_def Let_def)
qed

lemma ibc_transfer_view:
  assumes run: "ibc_transfer env rd blk sender p ch token receiver h ts (s, g) = (Ok (q, pd), (s', g'))" and s: "inv s"
    and ok: "codec_ok (be_u128 (ie_bank env))" "codec_ok (ie_packet env)" and native: "native_denom (coin_denom token)"
  obtains raw b pk where
    "view s (next_sequence_send_path p ch) = Some raw" "q = u64_from_be_bytes (take 8 raw)" "length raw \<ge> 8"
    "view s' (next_sequence_send_path p ch) = Some (u64_to_be_bytes (q + 1))"
    "pd = packet_data_json (ie_crypto env) token receiver sender"
    "view s' (packet_commitment_path p ch q) = Some (packet_commitment (ie_crypto env) ts h pd)"
    "view s' (packet_data_path p ch q) = Some b" "dec (ie_packet env) b = Some pk" "pk_data pk = pd"
    "inv s'" "ledger_balance (be_u128 (ie_bank env)) (view s') =
      ledger_send sender (escrow_account (ie_crypto env) p ch) token (ledger_balance (be_u128 (ie_bank env)) (view s))"
    "sender \<noteq> escrow_account (ie_crypto env) p ch \<Longrightarrow>
      coin_amount token \<le> ledger_balance (be_u128 (ie_bank env)) (view s) (sender, coin_denom token)"
proof -
  let ?e = "escrow_account (ie_crypto env) p ch" and ?c = "be_u128 (ie_bank env)"
  from run obtain s1 g1 g2 raw g3 s2 g4 s3 g5 pk b g6 where
    bank: "bank_transfer (ie_bank env) rd blk sender ?e [token] (s, g1) = (Ok (), (s1, g2))"
    and rseq: "read_raw rd (next_sequence_send_path p ch) s1 g2 = (Ok (Some raw), g3)"
    and q: "q = u64_from_be_bytes (take 8 raw)" "length raw \<ge> 8"
    and pd: "pd = packet_data_json (ie_crypto env) token receiver sender"
    and w1: "write_raw rd (packet_commitment_path p ch q) (packet_commitment (ie_crypto env) ts h pd) (s1, g3) = (Ok (), (s2, g4))"
    and w2: "write_raw rd (next_sequence_send_path p ch) (u64_to_be_bytes (q + 1)) (s2, g4) = (Ok (), (s3, g5))"
    and enc: "enc (ie_packet env) pk = Some b" "pk_data pk = pd"
    and w3: "write_raw rd (packet_data_path p ch q) b (s3, g5) = (Ok (), (s', g6))"
    by (auto simp: ibc_transfer_def m_bind_Ok Let_def split: if_splits)
  note b = bank_transfer_one [OF bank s ok(1) native]
  from write_raw_view [OF w1 b(1)] have v1: "inv s2" "view s2 = (view s1)(packet_commitment_path p ch q \<mapsto> packet_commitment (ie_crypto env) ts h pd)"
    by simp_all
  from write_raw_view [OF w2 v1(1)] have v2: "inv s3" "view s3 = (view s2)(next_sequence_send_path p ch \<mapsto> u64_to_be_bytes (q + 1))"
    by simp_all
  from write_raw_view [OF w3 v2(1)] have v3: "inv s'" "view s' = (view s3)(packet_data_path p ch q \<mapsto> b)" by simp_all
  have "view s (next_sequence_send_path p ch) = Some raw"
    using read_raw_view [OF rseq b(1)] outside_bank_key [OF b(3)] by simp
  moreover have "dec (ie_packet env) b = Some pk" using enc(1) ok(2) by (metis codec_ok_def option.inject)
  ultimately show ?thesis using that [of raw b pk] q pd enc(2) v1 v2 v3 b(2,4) by simp
qed

end

lemma ledger_send_back:
  assumes "a \<noteq> b" "coin_amount c \<le> B (a, coin_denom c)"
  shows "ledger_send b a c (ledger_send a b c B) = B"
  using assms by (auto simp: ledger_send_def Let_def fun_eq_iff)

context storage_laws
begin

lemma ibc_timeout_view:
  assumes run: "ibc_timeout env rd blk p ch q (s, g) = (Ok (who, c), (s', g'))" and s: "inv s"
    and ok: "codec_ok (be_u128 (ie_bank env))" and raw: "view s (packet_data_path p ch q) = Some raw"
    and pk: "dec (ie_packet env) raw = Some pk" and data: "ie_packet_json env (pk_data pk) = Some data"
    and native: "native_denom (pj_denom data)"
  shows "account_id_parse_string (ie_crypto env) (pj_sender data) = Ok who \<and>
    coin_denom c = pj_denom data \<and> parse_u128 (pj_amount data) = Some (coin_amount c) \<and>
    inv s' \<and> view s' (packet_data_path p ch q) = None \<and> view s' (packet_commitment_path p ch q) = None \<and>
    ledger_balance (be_u128 (ie_bank env)) (view s') =
      ledger_send (escrow_account (ie_crypto env) p ch) who c (ledger_balance (be_u128 (ie_bank env)) (view s))"
proof -
  let ?e = "escrow_account (ie_crypto env) p ch"
  from run obtain raw' pk' data' g1 s1 g2 s2 g3 where
    read: "read_raw rd (packet_data_path p ch q) s g = (Ok (Some raw'), g1)"
    and pk': "dec (ie_packet env) raw' = Some pk'" and data': "ie_packet_json env (pk_data pk') = Some data'"
    and rest: "account_id_parse_string (ie_crypto env) (pj_sender data') = Ok who"
      "parse_u128 (pj_amount data') = Some (coin_amount c)" "coin_denom c = pj_denom data'"
      "bank_transfer (ie_bank env) rd blk ?e who [c] (s, g1) = (Ok (), (s1, g2))"
    and r1: "m_map_err PE_Gas (st_remove rd (packet_commitment_path p ch q)) (s1, g2) = (Ok (), (s2, g3))"
    and r2: "m_map_err PE_Gas (st_remove rd (packet_data_path p ch q)) (s2, g3) = (Ok (), (s', g'))"
    by (auto simp: ibc_timeout_def m_bind_Ok m_map_err_Ok [of _ "m_lift _"] Let_def)
  from read_raw_view [OF read s] raw have "raw' = raw" by simp
  with pk pk' data data' have data_eq: "data' = data" by simp
  note rest = rest [unfolded data_eq]
  note b = bank_transfer_one [OF _ s ok, of blk ?e who c g1 "()" s1 g2]
  from rest native have b1: "inv s1"
    "ledger_balance (be_u128 (ie_bank env)) (view s1) = ledger_send ?e who c (ledger_balance (be_u128 (ie_bank env)) (view s))"
    using b by auto
  from remove_raw_view [OF r1 b1(1)] have v1: "inv s2" "view s2 = (view s1)(packet_commitment_path p ch q := None)" by simp_all
  from remove_raw_view [OF r2 v1(1)] have "inv s'" "view s' = (view s2)(packet_data_path p ch q := None)" by simp_all
  with v1 b1(2) rest show ?thesis by simp
qed

end

section \<open>What the handshakes keep\<close>

definition open_connection :: "connection_end codec \<Rightarrow> (bytes \<Rightarrow> bytes option) \<Rightarrow> bytes \<Rightarrow> bool" where
  "open_connection c m x \<longleftrightarrow>
     (\<exists>raw ce. m (connection_path x) = Some raw \<and> dec c raw = Some ce \<and> ce_state ce = STATE_OPEN)"

text \<open>Every stored channel runs over connections that are open.\<close>

definition channels_open :: "'s ibc_env \<Rightarrow> (bytes \<Rightarrow> bytes option) \<Rightarrow> bool" where
  "channels_open env m \<longleftrightarrow>
     (\<forall>p ch raw chan. m (channel_path p ch) = Some raw \<longrightarrow> dec (ie_channel env) raw = Some chan \<longrightarrow>
        (\<forall>x\<in>set (ch_connection_hops chan). open_connection (ie_connection env) m x))"

lemma open_connection_upd:
  "k \<noteq> connection_path x \<Longrightarrow> open_connection c (m(k := v)) x \<longleftrightarrow> open_connection c m x"
  by (simp add: open_connection_def)

lemma channels_open_other:
  assumes "channels_open env m" "\<And>p ch. k \<noteq> channel_path p ch" "\<And>x. k \<noteq> connection_path x"
  shows "channels_open env (m(k := v))"
proof -
  have "(m(k := v)) (channel_path p ch) = m (channel_path p ch)" "(m(k := v)) (connection_path x) = m (connection_path x)"
    for p ch x
    using assms(2) [of p ch] assms(3) [of x] by auto
  with assms(1) show ?thesis by (simp add: channels_open_def open_connection_def del: fun_upd_apply)
qed

lemma channels_open_connection:
  assumes "channels_open env m" "\<not> open_connection (ie_connection env) m x \<or> open_connection (ie_connection env) (m(connection_path x := v)) x"
  shows "channels_open env (m(connection_path x := v))"
  unfolding channels_open_def
proof (intro allI impI ballI)
  fix p ch raw chan y
  assume "(m(connection_path x := v)) (channel_path p ch) = Some raw" "dec (ie_channel env) raw = Some chan"
    and y: "y \<in> set (ch_connection_hops chan)"
  with assms(1) have "open_connection (ie_connection env) m y" by (auto simp: channels_open_def)
  with assms(2) show "open_connection (ie_connection env) (m(connection_path x := v)) y"
    by (cases "y = x") (auto simp: open_connection_upd)
qed

lemma channels_open_channel:
  assumes "channels_open env m" "dec (ie_channel env) b = Some chan"
    "\<forall>x\<in>set (ch_connection_hops chan). open_connection (ie_connection env) m x"
  shows "channels_open env (m(channel_path p ch \<mapsto> b))"
  unfolding channels_open_def
proof (intro allI impI ballI)
  fix p' ch' raw chan' y
  assume *: "(m(channel_path p ch \<mapsto> b)) (channel_path p' ch') = Some raw" "dec (ie_channel env) raw = Some chan'"
    "y \<in> set (ch_connection_hops chan')"
  have "open_connection (ie_connection env) m y"
    using assms * by (cases "channel_path p' ch' = channel_path p ch") (auto simp: channels_open_def)
  then show "open_connection (ie_connection env) (m(channel_path p ch \<mapsto> b)) y" by (simp add: open_connection_upd)
qed

fun handshake_msg :: "ibc_msg \<Rightarrow> bool" where
  "handshake_msg (Transfer _ _ _ _ _ _ _) = False"
| "handshake_msg (Timeout _ _ _ _ _ _) = False"
| "handshake_msg _ = True"

context storage_laws
begin

abbreviation ibc_ok :: "'s ibc_env \<Rightarrow> 's \<Rightarrow> bool" where
  "ibc_ok env s \<equiv> inv s \<and> channels_open env (view s)"

lemma client_handlers_keep:
  assumes "ibc_ok env s"
  shows "create_client rd cid chain h (s, g) = (Ok u, (s', g')) \<Longrightarrow> ibc_ok env s'"
    and "update_client rd cid h (s, g) = (Ok u, (s', g')) \<Longrightarrow> ibc_ok env s'"
    and "ibc_acknowledgement rd p ch n (s, g) = (Ok u, (s', g')) \<Longrightarrow> ibc_ok env s'"
  using assms
  by (auto simp: create_client_def update_client_def ibc_acknowledgement_def m_bind_Ok Let_def channels_open_other
      dest!: write_raw_view remove_raw_view)

lemma conn_open_init_keeps:
  assumes run: "conn_open_init env rd a x b c d (s, g) = (Ok u, (s', g'))" and "ibc_ok env s"
  shows "ibc_ok env s'"
proof -
  from run obtain g1 bs where "read_raw rd (connection_path x) s g = (Ok None, g1)"
    and w: "write_raw rd (connection_path x) bs (s, g1) = (Ok u, (s', g'))"
    by (auto simp: conn_open_init_def m_bind_Ok Let_def)
  with read_raw_view assms(2) have "\<not> open_connection (ie_connection env) (view s) x"
    by (fastforce simp: open_connection_def)
  with write_raw_view [OF w] assms(2) show ?thesis by (simp add: channels_open_connection)
qed

lemma conn_open_ack_keeps:
  assumes run: "conn_open_ack env rd x b (s, g) = (Ok u, (s', g'))" and "ibc_ok env s" and "codec_ok (ie_connection env)"
  shows "ibc_ok env s'"
proof -
  from run obtain g1 ce bs where e: "enc (ie_connection env) ce = Some bs" "ce_state ce = STATE_OPEN"
    and w: "write_raw rd (connection_path x) bs (s, g1) = (Ok u, (s', g'))"
    by (auto simp: conn_open_ack_def m_bind_Ok Let_def)
  from e assms(3) have "dec (ie_connection env) bs = Some ce" by (metis codec_ok_def option.inject)
  with e(2) have "open_connection (ie_connection env) ((view s)(connection_path x \<mapsto> bs)) x" by (simp add: open_connection_def)
  with write_raw_view [OF w] assms(2) show ?thesis by (simp add: channels_open_connection)
qed

lemma chan_open_init_keeps:
  assumes run: "chan_open_init env rd p ch x b c d e (s, g) = (Ok u, (s', g'))" and "ibc_ok env s"
    and ok: "codec_ok (ie_channel env)"
  shows "ibc_ok env s'"
proof -
  from run obtain raw conn g1 g2 chan bs s1 g3 where
    read: "read_raw rd (connection_path x) s g = (Ok (Some raw), g1)" "dec (ie_connection env) raw = Some conn"
      "ce_state conn = STATE_OPEN"
    and chan: "enc (ie_channel env) chan = Some bs" "ch_connection_hops chan = [x]"
    and w1: "write_raw rd (channel_path p ch) bs (s, g2) = (Ok (), (s1, g3))"
    and w2: "write_raw rd (next_sequence_send_path p ch) (u64_to_be_bytes 1) (s1, g3) = (Ok u, (s', g'))"
    by (auto simp: chan_open_init_def m_bind_Ok Let_def)
  have "open_connection (ie_connection env) (view s) x"
    unfolding open_connection_def using read_raw_view [OF read(1)] read(2,3) assms(2) by metis
  moreover have "dec (ie_channel env) bs = Some chan" using chan(1) ok by (metis codec_ok_def option.inject)
  ultimately have "channels_open env ((view s)(channel_path p ch \<mapsto> bs))"
    using assms(2) chan(2) by (intro channels_open_channel) auto
  with write_raw_view [OF w1] assms(2) have s1: "ibc_ok env s1" by simp
  with write_raw_view [OF w2] show ?thesis by (simp add: channels_open_other)
qed

lemma chan_open_ack_keeps:
  assumes run: "chan_open_ack env rd p ch b c (s, g) = (Ok u, (s', g'))" and "ibc_ok env s" and ok: "codec_ok (ie_channel env)"
  shows "ibc_ok env s'"
proof -
  from run obtain raw chan g1 chan' bs where
    read: "read_raw rd (channel_path p ch) s g = (Ok (Some raw), g1)" "dec (ie_channel env) raw = Some chan"
    and chan: "enc (ie_channel env) chan' = Some bs" "ch_connection_hops chan' = ch_connection_hops chan"
    and w: "write_raw rd (channel_path p ch) bs (s, g1) = (Ok u, (s', g'))"
    by (auto simp: chan_open_ack_def m_bind_Ok Let_def)
  have "view s (channel_path p ch) = Some raw" using read_raw_view [OF read(1)] assms(2) by simp
  moreover have "dec (ie_channel env) bs = Some chan'" using chan(1) ok by (metis codec_ok_def option.inject)
  ultimately have "channels_open env ((view s)(channel_path p ch \<mapsto> bs))"
    using assms(2) read(2) chan(2) by (intro channels_open_channel) (auto simp: channels_open_def)
  with write_raw_view [OF w] assms(2) show ?thesis by simp
qed

lemma handshake_keeps:
  assumes "ibc_process_msg env rd blk who m (s, g) = (Ok r, (s', g'))" "handshake_msg m" "ibc_ok env s"
    and "codec_ok (ie_connection env)" "codec_ok (ie_channel env)"
  shows "ibc_ok env s'"
  using assms
  by (cases m)
    (auto simp: m_bind_Ok dest: client_handlers_keep [OF assms(3)] conn_open_init_keeps conn_open_ack_keeps
      chan_open_init_keeps chan_open_ack_keeps)

end

text \<open>The states that handshake messages reach from a store without channels.\<close>

inductive handshake_reachable :: "tx_state ibc_env \<Rightarrow> tx_state \<Rightarrow> bool" for env where
  start: "\<lbrakk>tx_inv so; \<And>p ch. tx_view so (channel_path p ch) = None\<rbrakk> \<Longrightarrow> handshake_reachable env so"
| step: "\<lbrakk>handshake_reachable env so; handshake_msg m;
    ibc_process_msg env tx_store blk who m (so, g) = (Ok r, (so', g'))\<rbrakk> \<Longrightarrow> handshake_reachable env so'"

section \<open>Properties\<close>


definition packet_codec :: "packet codec" where
  "packet_codec =
     \<lparr>enc = (\<lambda>p. Some (fields_enc [replicate (pk_sequence p) 0, pk_source_port p, pk_source_channel p,
        pk_destination_port p, pk_destination_channel p, pk_data p,
        (case pk_timeout_height p of None \<Rightarrow> [] | Some _ \<Rightarrow> [1]),
        (case pk_timeout_height p of None \<Rightarrow> [] | Some (r, h) \<Rightarrow> replicate r 0),
        (case pk_timeout_height p of None \<Rightarrow> [] | Some (r, h) \<Rightarrow> replicate h 0),
        replicate (pk_timeout_timestamp p) 0])),
      dec = (\<lambda>b. let f = fields_dec 10 b in
        Some \<lparr>pk_sequence = length (f ! 0), pk_source_port = f ! 1, pk_source_channel = f ! 2,
          pk_destination_port = f ! 3, pk_destination_channel = f ! 4, pk_data = f ! 5,
          pk_timeout_height = (if f ! 6 = [] then None else Some (length (f ! 7), length (f ! 8))),
          pk_timeout_timestamp = length (f ! 9)\<rparr>)\<rparr>"

lemma ten_fields: "length xs = 10 \<Longrightarrow> fields_dec 10 (fields_enc xs) = xs"
  using fields_roundtrip [of xs] by simp

lemma packet_codec_ok: "codec_ok packet_codec"
  by (auto simp: codec_ok_def packet_codec_def ten_fields Let_def split: option.splits)

definition test_token :: coin where
  "test_token = \<lparr>coin_denom = [9], coin_amount = 3\<rparr>"

definition test_sender :: account_id where
  "test_sender = replicate 20 1"

definition test_channel :: channel_end where
  "test_channel = \<lparr>ch_state = 3, ch_ordering = 1, ch_counterparty = None, ch_connection_hops = [], ch_version = []\<rparr>"

definition test_ibc_env :: "tx_state ibc_env" where
  "test_ibc_env = \<lparr>ie_bank = test_env, ie_connection = \<lparr>enc = \<lambda>_. None, dec = \<lambda>_. None\<rparr>,
     ie_channel = \<lparr>enc = \<lambda>_. None, dec = \<lambda>_. Some test_channel\<rparr>, ie_packet = packet_codec,
     ie_packet_json = \<lambda>_. Some \<lparr>pj_amount = show_nat 3, pj_denom = [9], pj_sender = test_sender\<rparr>\<rparr>"

definition open_channel_tx :: tx_state where
  "open_channel_tx = ((btree_storage_new, []),
     [(balance_key test_sender [9], Delta_Set [0, 0, 0, 0, 0]), (channel_path [112] [99], Delta_Set []),
      (next_sequence_send_path [112] [99], Delta_Set [0, 0, 0, 0, 0, 0, 0, 1])])"

definition test_send where
  "test_send = ibc_transfer test_ibc_env tx_store test_block test_sender [112] [99] test_token [114] 0 0
     (open_channel_tx, gas_meter_new 1000000)"

lemmas ibc_exec = ibc_transfer_def ibc_timeout_def read_raw_def write_raw_def packet_data_json_def packet_commitment_def
  escrow_account_def path_defs STATE_OPEN_def u64_to_be_bytes_def u64_from_be_bytes_def show_nat.simps

lemma test_send_ok: "\<exists>pd. fst test_send = Ok (1, pd)"
  by (simp add: test_send_def test_ibc_env_def test_channel_def test_token_def test_sender_def open_channel_tx_def packet_codec_def
      fields_enc_length upt_rec ibc_exec test_exec bank_exec plus_exec namespace_exec store_exec gas_exec prog_exec Let_def)

definition test_timeout where
  "test_timeout = ibc_timeout test_ibc_env tx_store test_block [112] [99] 1 (fst (snd test_send), gas_meter_new 1000000)"

lemma replicate_ne: "replicate 20 (1 :: byte) \<noteq> [1]"
proof
  assume "replicate 20 (1 :: byte) = [1]"
  then have "length (replicate 20 (1 :: byte)) = length [1 :: byte]" by simp
  then show False by simp
qed

lemma test_timeout_ok: "fst test_timeout = Ok (test_sender, test_token)"
proof -
  note exec = test_ibc_env_def test_channel_def test_token_def test_sender_def open_channel_tx_def upt_rec
    ibc_exec test_exec bank_exec plus_exec namespace_exec store_exec gas_exec prog_exec Let_def
  show ?thesis unfolding test_timeout_def test_send_def
    by (simp add: packet_codec_def ten_fields fields_enc_length exec account_id_parse_string_def VALID_ADDR_LENGTH_def BECH32_PREFIX_def parse_u128_def
        is_digit_byte_def digits_value_def replicate_ne)
qed


text \<open>
  C33. In every state that client, connection, channel and acknowledgement messages reach, in any
  order and from any signers, a stored channel runs over open connections only.
\<close>

theorem handshake_channels_open:
  assumes "handshake_reachable env so" "codec_ok (ie_connection env)" "codec_ok (ie_channel env)"
  shows "channels_open env (tx_view so)"
proof -
  from assms(1) have "tx_inv so \<and> channels_open env (tx_view so)"
  proof (induction rule: handshake_reachable.induct)
    case (start so)
    then show ?case by (simp add: channels_open_def)
  next
    case (step so m blk who g r so' g')
    then show ?case using metered_tx.handshake_keeps assms(2,3) by blast
  qed
  then show ?thesis ..
qed

definition connection_codec :: "connection_end codec" where
  "connection_codec =
     \<lparr>enc = (\<lambda>c. Some (list_enc [ce_client_id c, list_enc (map (\<lambda>(i, fs). list_enc (i # fs)) (ce_versions c)),
        int_enc (ce_state c),
        (case ce_counterparty c of None \<Rightarrow> [] | Some p \<Rightarrow> 1 # list_enc [cc_client_id p, cc_connection_id p,
           case cc_prefix p of None \<Rightarrow> [] | Some x \<Rightarrow> 1 # x]),
        replicate (ce_delay_period c) 0])),
      dec = (\<lambda>b. let f = list_dec b in
        Some \<lparr>ce_client_id = f ! 0, ce_versions = map (\<lambda>x. (hd (list_dec x), tl (list_dec x))) (list_dec (f ! 1)),
          ce_state = int_dec (f ! 2),
          ce_counterparty = (if f ! 3 = [] then None else let p = list_dec (tl (f ! 3)) in
            Some \<lparr>cc_client_id = p ! 0, cc_connection_id = p ! 1, cc_prefix = (if p ! 2 = [] then None else Some (tl (p ! 2)))\<rparr>),
          ce_delay_period = length (f ! 4)\<rparr>)\<rparr>"

lemma connection_codec_ok: "codec_ok connection_codec"
  by (auto simp: codec_ok_def connection_codec_def Let_def comp_def case_prod_beta split: option.splits)

definition channel_codec :: "channel_end codec" where
  "channel_codec =
     \<lparr>enc = (\<lambda>c. Some (list_enc [int_enc (ch_state c), int_enc (ch_ordering c),
        (case ch_counterparty c of None \<Rightarrow> [] | Some p \<Rightarrow> 1 # list_enc [chc_port_id p, chc_channel_id p]),
        list_enc (ch_connection_hops c), ch_version c])),
      dec = (\<lambda>b. let f = list_dec b in
        Some \<lparr>ch_state = int_dec (f ! 0), ch_ordering = int_dec (f ! 1),
          ch_counterparty = (if f ! 2 = [] then None else let p = list_dec (tl (f ! 2)) in
            Some \<lparr>chc_port_id = p ! 0, chc_channel_id = p ! 1\<rparr>),
          ch_connection_hops = list_dec (f ! 3), ch_version = f ! 4\<rparr>)\<rparr>"

lemma channel_codec_ok: "codec_ok channel_codec"
  by (auto simp: codec_ok_def channel_codec_def Let_def split: option.splits)

definition handshake_env :: "tx_state ibc_env" where
  "handshake_env = test_ibc_env\<lparr>ie_connection := connection_codec, ie_channel := channel_codec\<rparr>"

definition test_conn where
  "test_conn = ibc_process_msg handshake_env tx_store test_block [1] (ConnectionOpenInit [1] [2] [3] [4] [5] [6])
     (empty_tx, gas_meter_new 1000000)"

lemma test_conn_ok: "\<exists>r. fst test_conn = Ok r"
  by (simp add: test_conn_def handshake_env_def connection_codec_def conn_open_init_def list_enc_def fields_enc_length
      int_enc_def STATE_INIT_def empty_tx_def ibc_exec store_exec gas_exec prog_exec Let_def)

theorem handshake_channels_open_witness:
  "channels_open handshake_env (tx_view (fst (snd test_conn)))"
proof -
  obtain r where run: "ibc_process_msg handshake_env tx_store test_block [1] (ConnectionOpenInit [1] [2] [3] [4] [5] [6])
      (empty_tx, gas_meter_new 1000000) = (Ok r, (fst (snd test_conn), snd (snd test_conn)))"
    using test_conn_ok by (metis prod.collapse test_conn_def)
  have "handshake_reachable handshake_env empty_tx"
    by (rule handshake_reachable.start) (simp_all add: empty_tx_def btree_storage_new_def)
  from handshake_reachable.step [OF this _ run] have "handshake_reachable handshake_env (fst (snd test_conn))" by simp
  from handshake_channels_open [OF this] show ?thesis
    by (simp add: handshake_env_def connection_codec_ok channel_codec_ok)
qed

text \<open>
  The packet data does not determine the packet: the denomination and the receiver are put
  into the JSON text without escaping, so two different transfers can have byte for byte the same
  packet data and therefore the same commitment, and a receiver can add fields of its own.
\<close>

lemma packet_data_ambiguous:
  "packet_data_json cr \<lparr>coin_denom = ascii ''a'', coin_amount = n\<rparr> (ascii ''b\",\"receiver\":\"c'') sender =
   packet_data_json cr \<lparr>coin_denom = ascii ''a\",\"receiver\":\"b'', coin_amount = n\<rparr> (ascii ''c'') sender"
  by (simp add: packet_data_json_def ascii_def)

text \<open>
  Different channels can share one escrow account and one path: the identifiers are
  concatenated without separating them and are not restricted to ICS-24 identifiers.
\<close>

lemma channel_ids_ambiguous:
  "escrow_account cr (ascii ''transfer'') (ascii ''channel-0'') = escrow_account cr (ascii ''transferc'') (ascii ''hannel-0'') \<and>
   channel_path (ascii ''a'') (ascii ''b/channels/c'') = channel_path (ascii ''a/channels/b'') (ascii ''c'')"
  by (simp add: escrow_account_def channel_path_def ascii_def)

end
