(* ===== verification/Vm.thy ===== *)
theory Vm
  imports Auth Ibc
begin

text \<open>
  The host side of the contract VM: \<open>packages/app/src/wasm/vm/backend.rs\<close> and \<open>vm/cache.rs\<close>.

  \<open>cosmwasm_vm\<close> runs contract code and calls back into the backend for storage, queries and
  addresses. It is a parameter: for a checksum, an entry point and a gas limit it gives a
  \<open>vm_prog\<close>, the tree of requests the running contract makes, each with a continuation on the
  answer and on the gas the backend reports for it. A leaf is the result of the call and the gas
  the VM counted itself. The trees are finite, as a metered contract is. Everything the backend
  does with a request is modelled here, and everything \<open>VmCache\<close> does around a call.
\<close>

named_theorems vm_exec \<open>definitions to run the host side of a contract call\<close>

section \<open>What contracts exchange with the host\<close>

text \<open>The types of \<open>cosmwasm_std\<close> that the sources use.\<close>

type_synonym attribute = "bytes \<times> bytes"

datatype custom_root_msg =
    Root_Sudo bytes bytes
  | Root_Migrate bytes nat bytes
  | Root_UpdateAdmin bytes bytes
  | Root_ClearAdmin bytes
  | Root_Pin nat
  | Root_Unpin nat

datatype cosmos_msg =
    Cosmos_BankSend bytes "coin list"
  | Cosmos_BankBurn "coin list"
  | Cosmos_BankOther
  | Cosmos_Execute bytes bytes "coin list"
  | Cosmos_Instantiate "bytes option" nat bytes "coin list" bytes
  | Cosmos_Instantiate2 "bytes option" nat bytes bytes "coin list" bytes
  | Cosmos_Migrate bytes bytes nat
  | Cosmos_UpdateAdmin bytes bytes
  | Cosmos_ClearAdmin bytes
  | Cosmos_WasmOther
  | Cosmos_Custom custom_root_msg
  | Cosmos_Stargate bytes
  | Cosmos_Any bytes
  | Cosmos_Other

datatype reply_on = Reply_Always | Reply_Error | Reply_Success | Reply_Never

record sub_msg =
  sub_id :: nat
  sub_payload :: bytes
  sub_body :: cosmos_msg
  sub_gas_limit :: "nat option"
  sub_reply_on :: reply_on

record contract_response =
  cr_messages :: "sub_msg list"
  cr_attributes :: "attribute list"
  cr_events :: "event list"
  cr_data :: "bytes option"

record sub_msg_response =
  sr_events :: "event list"
  sr_data :: "bytes option"
  sr_msg_responses :: "(bytes \<times> bytes) list"

record contract_reply =
  rp_id :: nat
  rp_result :: "bytes + sub_msg_response"
  rp_gas_used :: nat
  rp_payload :: bytes

record contract_env =
  env_block :: block_info
  env_contract :: bytes

record message_info =
  info_sender :: bytes
  info_funds :: "coin list"

datatype vm_entry =
    Call_Instantiate contract_env message_info bytes
  | Call_Execute contract_env message_info bytes
  | Call_Migrate contract_env bytes
  | Call_Sudo contract_env bytes
  | Call_Reply contract_env contract_reply

datatype backend_error = Backend_OutOfGas | Backend_UserErr | Backend_IteratorDoesNotExist nat

datatype vm_error = GasDepletion | Vm_Other

text \<open>\<open>From<BackendError> for VmError\<close>.\<close>

fun vm_of_backend :: "backend_error \<Rightarrow> vm_error" where
  "vm_of_backend Backend_OutOfGas = GasDepletion"
| "vm_of_backend Backend_UserErr = Vm_Other"
| "vm_of_backend (Backend_IteratorDoesNotExist _) = Vm_Other"

datatype system_error = InvalidRequest | InvalidResponse | UnsupportedRequest

type_synonym 'a answer = "(backend_error + 'a) \<times> nat"
type_synonym 'r vm_result = "vm_error + (bytes + 'r)"

datatype 'r vm_prog =
    Vm_Done "'r vm_result" nat
  | Vm_Get bytes "bytes option answer \<Rightarrow> 'r vm_prog"
  | Vm_Scan "bytes option" "bytes option" Order "nat answer \<Rightarrow> 'r vm_prog"
  | Vm_Next nat "kv option answer \<Rightarrow> 'r vm_prog"
  | Vm_Set bytes bytes "unit answer \<Rightarrow> 'r vm_prog"
  | Vm_Remove bytes "unit answer \<Rightarrow> 'r vm_prog"
  | Vm_Query bytes nat "(system_error + (bytes + bytes)) answer \<Rightarrow> 'r vm_prog"
  | Vm_Validate bytes "unit answer \<Rightarrow> 'r vm_prog"
  | Vm_Canonicalize bytes "bytes answer \<Rightarrow> 'r vm_prog"
  | Vm_Humanize bytes "bytes answer \<Rightarrow> 'r vm_prog"

section \<open>Queries\<close>

datatype wasm_query =
    Smart_Query account_id bytes
  | Raw_Query account_id bytes
  | ContractInfo account_id
  | CodeInfo nat bool
  | ListCodes "nat option" "nat option"
  | ContractsByCode nat

record contract_info_response =
  ci_address :: account_id
  ci_code_id :: nat
  ci_creator :: account_id
  ci_admin :: "account_id option"
  ci_label :: bytes
  ci_pinned :: bool
  ci_ibc_port :: "bytes option"
  ci_created :: nat

record code_info_response =
  cd_code_id :: nat
  cd_creator :: account_id
  cd_checksum :: bytes
  cd_pinned :: bool

datatype wasm_query_response =
    Resp_Smart_Data bytes
  | Resp_Raw bytes
  | Resp_ContractInfo contract_info_response
  | Resp_CodeInfo code_info_response bytes
  | Resp_ListCodes "code_info_response list"
  | Resp_ContractsByCode "account_id list"

text \<open>The queries a contract can make; the other variants of \<open>Query\<close> are never built for it.\<close>

datatype contract_query = Contract_Bank bank_query | Contract_Wasm wasm_query

datatype contract_query_response =
    Contract_Bank_Response bank_response
  | Contract_Wasm_Response wasm_query_response

text \<open>\<open>cosmwasm_std::QueryRequest\<close>.\<close>

datatype query_request =
    Request_Balance bytes denom
  | Request_AllBalances bytes
  | Request_Supply denom
  | Request_Smart bytes bytes
  | Request_Raw bytes bytes
  | Request_ContractInfo bytes
  | Request_CodeInfo nat
  | Request_Other

datatype vm_query_error = Query_Backend backend_error | Query_System system_error | Query_Contract bytes

text \<open>
  The VM library, its module cache, and the encodings used at its boundary. \<open>vm_warm\<close> tells
  whether the node-local cache holds a module: it may differ from node to node.
\<close>

record vm =
  vm_call :: "bytes \<Rightarrow> vm_entry \<Rightarrow> nat \<Rightarrow> contract_response vm_prog"
  vm_smart :: "bytes \<Rightarrow> contract_env \<Rightarrow> bytes \<Rightarrow> nat \<Rightarrow> bytes vm_prog"
  vm_store_code :: "bytes \<Rightarrow> (bytes \<times> bytes list) option"
  vm_warm :: "bytes \<Rightarrow> bool"
  vm_pin :: "bytes \<Rightarrow> bool"
  vm_unpin :: "bytes \<Rightarrow> bool"
  vm_parse_request :: "bytes \<Rightarrow> query_request option"
  vm_bank_json :: "bank_response \<Rightarrow> bytes"
  vm_contract_info_json :: "contract_info_response \<Rightarrow> bytes"
  vm_code_info_json :: "code_info_response \<Rightarrow> bytes"
  vm_bytes :: "bytes codec"
  vm_error_string :: "pulsar_error \<Rightarrow> bytes"

section \<open>Gas conversion\<close>

definition SDK_TO_WASMER_GAS_FACTOR :: nat where
  "SDK_TO_WASMER_GAS_FACTOR = 150000"

definition sdk_gas_to_wasmer :: "nat \<Rightarrow> nat" where
  "sdk_gas_to_wasmer gas = min u64_max (gas * SDK_TO_WASMER_GAS_FACTOR)"

definition wasmer_gas_to_sdk :: "nat \<Rightarrow> nat" where
  "wasmer_gas_to_sdk gas = gas div SDK_TO_WASMER_GAS_FACTOR"

section \<open>Addresses\<close>

definition GAS_COST_CANONICAL_ADDRESS :: nat where
  "GAS_COST_CANONICAL_ADDRESS = 40"

definition GAS_COST_HUMAN_ADDRESS :: nat where
  "GAS_COST_HUMAN_ADDRESS = 30"

definition GAS_COST_VALIDATE_ADDRESS :: nat where
  "GAS_COST_VALIDATE_ADDRESS = 20"

text \<open>A result that cannot fail in another way, with its errors turned into a backend error.\<close>

definition m_answer :: "('a, account_id_error) outcome \<Rightarrow> nat \<Rightarrow> ('s, 'a answer, 'e) prog" where
  "m_answer r cost =
     (case r of Ok a \<Rightarrow> m_ret (Inr a, cost) | Err _ \<Rightarrow> m_ret (Inl Backend_UserErr, cost) | Panic \<Rightarrow> m_panic)"

definition addr_validate :: "crypto \<Rightarrow> bytes \<Rightarrow> ('s, unit answer, 'e) prog" where
  "addr_validate cr input =
     m_answer (o_bind (account_id_parse_string cr input) (\<lambda>_. Ok ())) GAS_COST_VALIDATE_ADDRESS"

definition addr_canonicalize :: "crypto \<Rightarrow> bytes \<Rightarrow> ('s, bytes answer, 'e) prog" where
  "addr_canonicalize cr human = m_answer (account_id_parse_string cr human) GAS_COST_CANONICAL_ADDRESS"

definition addr_humanize :: "crypto \<Rightarrow> bytes \<Rightarrow> ('s, bytes answer, 'e) prog" where
  "addr_humanize cr canonical =
     m_answer (o_bind (account_id_new canonical) (\<lambda>i. Ok (c_bech32_encode cr i))) GAS_COST_HUMAN_ADDRESS"

section \<open>The storage of a contract\<close>

fun out_of_gas :: "gas_error \<Rightarrow> backend_error" where
  "out_of_gas OutOfGas = Backend_OutOfGas"

text \<open>A storage operation of the backend: its error, and what it added to the meter.\<close>

definition metered_call :: "('s \<times> gas_meter, 'a, gas_error) prog \<Rightarrow> ('s \<times> gas_meter, 'a answer, 'e) prog" where
  "metered_call p sg =
     (case p sg of
        (Ok a, sg') \<Rightarrow> (Ok (Inr a, used (snd sg') - used (snd sg)), sg')
      | (Err e, sg') \<Rightarrow> (Ok (Inl (out_of_gas e), used (snd sg') - used (snd sg)), sg')
      | (Panic, sg') \<Rightarrow> (Panic, sg'))"

definition vm_store_get :: "('s, 'z) storage_scheme \<Rightarrow> bytes \<Rightarrow> ('s \<times> gas_meter, bytes option answer, 'e) prog" where
  "vm_store_get st key = metered_call (m_read (\<lambda>s. rd_get st s key))"

definition vm_store_set :: "('s, 'z) storage_scheme \<Rightarrow> bytes \<Rightarrow> bytes \<Rightarrow> ('s \<times> gas_meter, unit answer, 'e) prog" where
  "vm_store_set st key value = metered_call (st_set st key value)"

definition vm_store_remove :: "('s, 'z) storage_scheme \<Rightarrow> bytes \<Rightarrow> ('s \<times> gas_meter, unit answer, 'e) prog" where
  "vm_store_remove st key = metered_call (st_remove st key)"

record vm_iter =
  it_start :: "bytes option"
  it_end :: "bytes option"
  it_order :: Order
  it_finished :: bool

type_synonym vm_iters = "(nat, vm_iter) btree"

definition vm_store_scan ::
  "vm_iters \<Rightarrow> bytes option \<Rightarrow> bytes option \<Rightarrow> Order \<Rightarrow> nat answer \<times> vm_iters" where
  "vm_store_scan iters start end ord =
     (let idx = length iters + 1
      in ((Inr idx, 0),
          bt_insert idx \<lparr>it_start = start, it_end = end, it_order = ord, it_finished = False\<rparr> iters))"

text \<open>The bounds that remain after \<open>k\<close> was returned.\<close>

definition iter_advance :: "vm_iter \<Rightarrow> bytes \<Rightarrow> vm_iter" where
  "iter_advance iter k =
     (case it_order iter of
        Ascending \<Rightarrow> iter\<lparr>it_start := Some (k @ [0])\<rparr>
      | Descending \<Rightarrow> iter\<lparr>it_end := Some k\<rparr>)"

text \<open>Each \<open>next\<close> opens a new range at the remaining bounds and takes its first item.\<close>

definition vm_store_next ::
  "('s, 'z) storage_scheme \<Rightarrow> vm_iters \<Rightarrow> nat \<Rightarrow> ('s \<times> gas_meter, kv option answer \<times> vm_iters, 'e) prog" where
  "vm_store_next st iters iterator_id =
     (case map_of iters iterator_id of
        None \<Rightarrow> m_ret ((Inl (Backend_IteratorDoesNotExist iterator_id), 0), iters)
      | Some iter \<Rightarrow>
          if it_finished iter then m_ret ((Inr None, 0), iters)
          else m_bind (metered_call (m_read (\<lambda>s.
                 m_bind (rd_range st s (it_start iter) (it_end iter) (it_order iter)) (iter_take 1)))) (\<lambda>(r, gas).
               m_ret (case r of
                        Inl e \<Rightarrow> ((Inl e, gas), iters)
                      | Inr [] \<Rightarrow> ((Inr None, gas), bt_insert iterator_id (iter\<lparr>it_finished := True\<rparr>) iters)
                      | Inr ((k, v) # _) \<Rightarrow>
                          ((Inr (Some (k, v)), gas), bt_insert iterator_id (iter_advance iter k) iters))))"

section \<open>The querier\<close>

fun query_error_of :: "(pulsar_error \<Rightarrow> bytes) \<Rightarrow> pulsar_error \<Rightarrow> vm_query_error" where
  "query_error_of str (PE_AccountId _) = Query_Backend Backend_UserErr"
| "query_error_of str (PE_Gas g) = Query_Backend (out_of_gas g)"
| "query_error_of str e = Query_Contract (str e)"

fun encode_error :: "vm_query_error + bytes \<Rightarrow> backend_error + (system_error + (bytes + bytes))" where
  "encode_error (Inr x) = Inr (Inr (Inr x))"
| "encode_error (Inl (Query_Backend e)) = Inl e"
| "encode_error (Inl (Query_System e)) = Inr (Inl e)"
| "encode_error (Inl (Query_Contract e)) = Inr (Inr (Inl e))"

definition query_address :: "crypto \<Rightarrow> bytes \<Rightarrow> (account_id, vm_query_error) outcome" where
  "query_address cr a =
     (case account_id_parse_string cr a of
        Ok i \<Rightarrow> Ok i | Err _ \<Rightarrow> Err (Query_Backend Backend_UserErr) | Panic \<Rightarrow> Panic)"

fun cosmwasm_query_to_layer :: "crypto \<Rightarrow> query_request \<Rightarrow> (contract_query, vm_query_error) outcome" where
  "cosmwasm_query_to_layer cr (Request_Balance address d) =
     o_bind (query_address cr address) (\<lambda>a. Ok (Contract_Bank (Balance a d)))"
| "cosmwasm_query_to_layer cr (Request_AllBalances address) =
     o_bind (query_address cr address) (\<lambda>a. Ok (Contract_Bank (AllBalances a)))"
| "cosmwasm_query_to_layer cr (Request_Supply d) = Ok (Contract_Bank (Supply d))"
| "cosmwasm_query_to_layer cr (Request_Smart contract_addr msg) =
     o_bind (query_address cr contract_addr) (\<lambda>a. Ok (Contract_Wasm (Smart_Query a msg)))"
| "cosmwasm_query_to_layer cr (Request_Raw contract_addr key) =
     o_bind (query_address cr contract_addr) (\<lambda>a. Ok (Contract_Wasm (Raw_Query a key)))"
| "cosmwasm_query_to_layer cr (Request_ContractInfo contract_addr) =
     o_bind (query_address cr contract_addr) (\<lambda>a. Ok (Contract_Wasm (ContractInfo a)))"
| "cosmwasm_query_to_layer cr (Request_CodeInfo code_id) = Ok (Contract_Wasm (CodeInfo code_id False))"
| "cosmwasm_query_to_layer cr Request_Other = Err (Query_System UnsupportedRequest)"

fun layer_response_to_cosmwasm :: "vm \<Rightarrow> contract_query_response \<Rightarrow> (bytes, vm_query_error) outcome" where
  "layer_response_to_cosmwasm v (Contract_Bank_Response (TotalSupplyResponse _)) = Err (Query_System InvalidResponse)"
| "layer_response_to_cosmwasm v (Contract_Bank_Response r) = Ok (vm_bank_json v r)"
| "layer_response_to_cosmwasm v (Contract_Wasm_Response (Resp_Smart_Data data)) = Ok data"
| "layer_response_to_cosmwasm v (Contract_Wasm_Response (Resp_Raw value)) = Ok value"
| "layer_response_to_cosmwasm v (Contract_Wasm_Response (Resp_ContractInfo info)) = Ok (vm_contract_info_json v info)"
| "layer_response_to_cosmwasm v (Contract_Wasm_Response (Resp_CodeInfo info _)) =
     (if length (cd_checksum info) = 32 then Ok (vm_code_info_json v info)
      else Err (Query_System InvalidResponse))"
| "layer_response_to_cosmwasm v (Contract_Wasm_Response _) = Err (Query_System InvalidResponse)"

text \<open>\<open>sm.query\<close> on the storage the contract was called with; \<open>query\<close> stands for that call.\<close>

definition do_query_raw ::
  "crypto \<Rightarrow> vm \<Rightarrow> (contract_query \<Rightarrow> (gas_meter, contract_query_response, pulsar_error) prog)
     \<Rightarrow> bytes \<Rightarrow> (gas_meter, bytes, vm_query_error) prog" where
  "do_query_raw cr v query request =
     m_bind (m_lift (of_option (Query_System InvalidRequest) (vm_parse_request v request))) (\<lambda>cosmos.
     m_bind (m_lift (cosmwasm_query_to_layer cr cosmos)) (\<lambda>q.
     m_bind (m_map_err (query_error_of (vm_error_string v)) (query q)) (\<lambda>response.
     m_lift (layer_response_to_cosmwasm v response))))"

text \<open>\<open>VmQuerier::query_raw\<close>: on a meter of its own when the VM has less gas left than the meter.\<close>

definition query_raw ::
  "crypto \<Rightarrow> vm \<Rightarrow> (contract_query \<Rightarrow> (gas_meter, contract_query_response, pulsar_error) prog)
     \<Rightarrow> bytes \<Rightarrow> nat \<Rightarrow> (gas_meter, (system_error + (bytes + bytes)) answer, 'e) prog" where
  "query_raw cr v query request gas_lim g =
     (let sdk_gas_limit = wasmer_gas_to_sdk gas_lim;
          encode = (\<lambda>r. encode_error (case r of Ok x \<Rightarrow> Inr x | Err e \<Rightarrow> Inl e | Panic \<Rightarrow> Inr []))
      in if sdk_gas_limit < remaining g
         then (case do_query_raw cr v query request (gas_meter_new sdk_gas_limit) of
                 (Panic, _) \<Rightarrow> (Panic, g)
               | (res, sub) \<Rightarrow>
                   (case charge (used sub) g of
                      (Ok _, g') \<Rightarrow> (Ok (encode res, sdk_gas_to_wasmer (used sub)), g')
                    | (Err e, g') \<Rightarrow> (Ok (Inl (out_of_gas e), sdk_gas_to_wasmer (used sub)), g')
                    | (Panic, g') \<Rightarrow> (Panic, g')))
         else (case do_query_raw cr v query request g of
                 (Panic, g') \<Rightarrow> (Panic, g')
               | (res, g') \<Rightarrow> (Ok (encode res, sdk_gas_to_wasmer (used g' - used g)), g')))"

section \<open>Running a contract\<close>

text \<open>The requests of a contract, answered in order.\<close>

primrec run_vm ::
  "'r vm_prog \<Rightarrow> crypto \<Rightarrow> 's storage \<Rightarrow> ('s \<Rightarrow> bytes \<Rightarrow> nat \<Rightarrow> (gas_meter, (system_error + (bytes + bytes)) answer, 'e) prog)
     \<Rightarrow> vm_iters \<Rightarrow> ('s \<times> gas_meter, 'r vm_result \<times> nat, 'e) prog" where
  "run_vm (Vm_Done r gas) = (\<lambda>cr st query iters. m_ret (r, gas))"
| "run_vm (Vm_Get key k) = (\<lambda>cr st query iters.
     m_bind (vm_store_get st key) (\<lambda>a. run_vm (k a) cr st query iters))"
| "run_vm (Vm_Scan start end ord k) = (\<lambda>cr st query iters.
     case vm_store_scan iters start end ord of (a, iters') \<Rightarrow> run_vm (k a) cr st query iters')"
| "run_vm (Vm_Next i k) = (\<lambda>cr st query iters.
     m_bind (vm_store_next st iters i) (\<lambda>(a, iters'). run_vm (k a) cr st query iters'))"
| "run_vm (Vm_Set key value k) = (\<lambda>cr st query iters.
     m_bind (vm_store_set st key value) (\<lambda>a. run_vm (k a) cr st query iters))"
| "run_vm (Vm_Remove key k) = (\<lambda>cr st query iters.
     m_bind (vm_store_remove st key) (\<lambda>a. run_vm (k a) cr st query iters))"
| "run_vm (Vm_Query request gas_lim k) = (\<lambda>cr st query iters.
     m_bind (m_read (\<lambda>s. query s request gas_lim)) (\<lambda>a. run_vm (k a) cr st query iters))"
| "run_vm (Vm_Validate input k) = (\<lambda>cr st query iters.
     m_bind (addr_validate cr input) (\<lambda>a. run_vm (k a) cr st query iters))"
| "run_vm (Vm_Canonicalize human k) = (\<lambda>cr st query iters.
     m_bind (addr_canonicalize cr human) (\<lambda>a. run_vm (k a) cr st query iters))"
| "run_vm (Vm_Humanize canonical k) = (\<lambda>cr st query iters.
     m_bind (addr_humanize cr canonical) (\<lambda>a. run_vm (k a) cr st query iters))"

section \<open>The cache\<close>

definition NAMESPACE_WASM :: bytes where
  "NAMESPACE_WASM = ascii ''wasm''"

definition CODE_BYTES :: bytes where
  "CODE_BYTES = ascii ''code_bytes''"

text \<open>
  The committed bytecode is required even when the module is cached. The meter of the read is a
  fresh infinite one, so nothing is charged.
\<close>

definition ensure_cached ::
  "vm \<Rightarrow> ('s, 'z) reader_scheme \<Rightarrow> bytes \<Rightarrow> 's \<Rightarrow> (gas_meter, unit, vm_error) prog" where
  "ensure_cached v st checksum s g =
     (case map_load (readonly_prefixed_storage st (lp NAMESPACE_WASM)) (vm_bytes v) CODE_BYTES [checksum] s
             gas_meter_infinite of
        (Ok blob, _) \<Rightarrow>
          (if vm_warm v checksum then Ok ()
           else case vm_store_code v blob of
                  None \<Rightarrow> Err Vm_Other
                | Some (derived, _) \<Rightarrow> if derived \<noteq> checksum then Err (vm_of_backend Backend_UserErr) else Ok (), g)
      | (Err _, _) \<Rightarrow> (Err (vm_of_backend Backend_UserErr), g)
      | (Panic, _) \<Rightarrow> (Panic, g))"

text \<open>\<open>PrefixedStorage::multilevel(storage, &[NAMESPACE_WASM, addr])\<close>.\<close>

definition contract_prefix :: "account_id \<Rightarrow> bytes" where
  "contract_prefix addr = lp NAMESPACE_WASM @ lp addr"

definition contract_storage :: "('s, 'z) storage_scheme \<Rightarrow> account_id \<Rightarrow> ('s storage, 'e) outcome" where
  "contract_storage st addr = prefixed_multilevel st [NAMESPACE_WASM, addr]"

text \<open>
  The end of a call: the collected writes are committed when the contract succeeded, and dropped
  otherwise.
\<close>

definition finish_call ::
  "('s, 'z) storage_scheme \<Rightarrow> 'r vm_result \<Rightarrow> nat \<Rightarrow> overlay \<Rightarrow> ('s \<times> gas_meter, 'r vm_result \<times> nat, 'e) prog" where
  "finish_call st result gas_used ls sg =
     (case result of
        Inr (Inr _) \<Rightarrow>
          (case rep_log_commit st (weak_sub_tx_prepare ls) sg of
             (Ok _, sg') \<Rightarrow> (Ok (result, gas_used), sg')
           | (Err e, sg') \<Rightarrow> (Ok (Inl (vm_of_backend (out_of_gas e)), gas_used), sg')
           | (Panic, sg') \<Rightarrow> (Panic, sg'))
      | _ \<Rightarrow> (Ok (result, gas_used), sg))"

text \<open>
  \<open>instantiate\<close>, \<open>execute\<close>, \<open>migrate\<close>, \<open>sudo\<close> and \<open>reply\<close> of \<open>VmCache\<close>, which differ in the
  entry point only. The contract works on a \<open>WeakSubTx\<close> over the storage and queries the storage
  below it, so it does not see its own writes in queries.
\<close>

definition cache_call ::
  "crypto \<Rightarrow> vm \<Rightarrow> 's storage \<Rightarrow> ('s \<Rightarrow> contract_query \<Rightarrow> (gas_meter, contract_query_response, pulsar_error) prog)
     \<Rightarrow> bytes \<Rightarrow> vm_entry \<Rightarrow> account_id \<Rightarrow> ('s \<times> gas_meter, contract_response vm_result \<times> nat, 'e) prog" where
  "cache_call cr v st query checksum entry contract sg =
     (case ensure_cached v st checksum (fst sg) (snd sg) of
        (Err e, _) \<Rightarrow> (Ok (Inl e, 0), sg)
      | (Panic, _) \<Rightarrow> (Panic, sg)
      | (Ok _, _) \<Rightarrow>
          (let prog = vm_call v checksum entry (sdk_gas_to_wasmer (remaining (snd sg)))
           in case (contract_storage (weak_sub_tx st) contract :: (_, 'e) outcome) of
                Ok working \<Rightarrow>
                  (case run_vm prog cr working (\<lambda>so. query_raw cr v (query (fst so))) [] ((fst sg, []), snd sg) of
                     (Ok (result, gas), ((s, ls), g)) \<Rightarrow> finish_call st result (wasmer_gas_to_sdk gas) ls (s, g)
                   | (Err e, ((s, _), g)) \<Rightarrow> (Err e, (s, g))
                   | (Panic, ((s, _), g)) \<Rightarrow> (Panic, (s, g)))
              | _ \<Rightarrow> (Panic, sg)))"

text \<open>\<open>VmCache::query\<close>: on a \<open>ScratchTx\<close> that is always dropped, metered by an \<open>AppMeter\<close>.\<close>

definition cache_query ::
  "crypto \<Rightarrow> vm \<Rightarrow> 's storage \<Rightarrow> ('s \<Rightarrow> contract_query \<Rightarrow> (gas_meter, contract_query_response, pulsar_error) prog)
     \<Rightarrow> bytes \<Rightarrow> contract_env \<Rightarrow> bytes \<Rightarrow> account_id \<Rightarrow> 's \<Rightarrow> (gas_meter, bytes vm_result \<times> nat, 'e) prog" where
  "cache_query cr v st query checksum env msg contract_addr s g =
     (case ensure_cached v st checksum s g of
        (Err e, _) \<Rightarrow> (Ok (Inl e, 0), g)
      | (Panic, _) \<Rightarrow> (Panic, g)
      | (Ok _, _) \<Rightarrow>
          (let prog = vm_smart v checksum env msg (sdk_gas_to_wasmer (remaining g))
           in case (contract_storage (scratch_tx st) contract_addr :: (_, 'e) outcome) of
                Ok unmetered \<Rightarrow>
                  (case run_vm prog cr (app_meter unmetered) (\<lambda>so. query_raw cr v (query (fst so))) [] ((s, []), g) of
                     (Ok (result, gas), (_, g')) \<Rightarrow> (Ok (result, wasmer_gas_to_sdk gas), g')
                   | (Err e, (_, g')) \<Rightarrow> (Err e, g')
                   | (Panic, (_, g')) \<Rightarrow> (Panic, g'))
              | _ \<Rightarrow> (Panic, g)))"

section \<open>What a contract can change\<close>

lemma contract_storage_Ok:
  fixes st :: "('s, 'z) storage_scheme"
  assumes "length addr \<le> 0xFFFF"
  shows "contract_storage st addr = (Ok (prefixed_storage st (contract_prefix addr)) :: ('s storage, 'e) outcome)"
proof -
  have "(to_length_prefixed_nested [NAMESPACE_WASM, addr] :: (bytes, 'e) outcome) = Ok (contract_prefix addr)"
    unfolding to_length_prefixed_nested_Ok using assms by (simp add: contract_prefix_def NAMESPACE_WASM_def ascii_def)
  then show ?thesis
    by (simp only: contract_storage_def prefixed_multilevel_def o_bind_simps)
qed

lemma via_metered_call [via_rules]:
  assumes "via st p"
  shows "via st (metered_call p)"
  unfolding via_def
proof (intro allI impI preservesI; clarify)
  fix I s g r s' g'
  assume keep: "\<forall>k v. preserves (\<lambda>(s, g). I s) (st_set st k v)" "\<forall>k. preserves (\<lambda>(s, g). I s) (st_remove st k)"
    and s: "I s" and run: "metered_call p (s, g) = (r, (s', g'))"
  obtain q s1 g1 where p: "p (s, g) = (q, (s1, g1))" by (metis prod.exhaust)
  have "preserves (\<lambda>(s, g). I s) p" using assms keep by (simp add: via_def)
  from preservesD [OF this _ p] s have "I s1" by simp
  with run p show "I s'" by (cases q) (simp_all add: metered_call_def)
qed

lemma via_answer [via_rules]: "via st (m_answer r cost)"
  by (auto simp: m_answer_def intro!: via_rules split: outcome.split)

lemma via_vm_store [via_rules]:
  "via st (vm_store_get st key)" "via st (vm_store_set st key value)" "via st (vm_store_remove st key)"
  "via st (vm_store_next st iters i)"
  by (auto simp: vm_store_get_def vm_store_set_def vm_store_remove_def vm_store_next_def intro!: via_rules)

lemma via_addr [via_rules]:
  "via st (addr_validate cr x)" "via st (addr_canonicalize cr x)" "via st (addr_humanize cr x)"
  by (simp_all add: addr_validate_def addr_canonicalize_def addr_humanize_def via_rules)

text \<open>A contract reaches the storage through the backend only.\<close>

lemma via_run_vm: "via st (run_vm p cr st query iters)"
  by (induction p arbitrary: iters) (auto intro!: via_rules simp del: split_paired_All split: prod.split)

text \<open>The writes a contract collects are below its own prefix.\<close>

definition below :: "bytes \<Rightarrow> bytes \<Rightarrow> bool" where
  "below p k \<longleftrightarrow> (\<exists>x. k = p @ x)"

lemma below_append [simp]: "below p (p @ x)"
  by (simp add: below_def)

definition keys_below :: "bytes \<Rightarrow> overlay \<Rightarrow> bool" where
  "keys_below p ls \<longleftrightarrow> fst ` set ls \<subseteq> {k. below p k}"

lemma keys_below_simps [simp]:
  "keys_below p []" "keys_below p (bt_insert (p @ k) d ls) \<longleftrightarrow> keys_below p ls"
  by (simp_all add: keys_below_def set_bt_insert_keys del: image_subset_iff)

lemma run_vm_keys:
  assumes "run_vm prog cr (prefixed_storage (weak_sub_tx st) p) query iters ((s, []), g) = (r, ((s', ls), g'))"
  shows "s' = s \<and> keys_below p ls"
proof -
  let ?I = "\<lambda>so. fst so = s \<and> keys_below p (snd so)"
  have "preserves (\<lambda>(so, g). ?I so) (run_vm prog cr (prefixed_storage (weak_sub_tx st) p) query iters)"
  proof (rule viaD [OF via_run_vm])
    fix k v
    show "preserves (\<lambda>(so, g). ?I so) (st_set (prefixed_storage (weak_sub_tx st) p) k v)"
      by (simp add: preserves_def prefixed_storage_def prefixed_set_def weak_sub_tx_def sub_tx_set_run)
    show "preserves (\<lambda>(so, g). ?I so) (st_remove (prefixed_storage (weak_sub_tx st) p) k)"
      by (simp add: preserves_def prefixed_storage_def prefixed_remove_def weak_sub_tx_def sub_tx_remove_run)
  qed
  from preservesD [OF this _ assms] show ?thesis by simp
qed

lemma via_finish_call [via_rules]: "via st (finish_call st result gas ls)"
  unfolding via_def
proof (intro allI impI preservesI; clarify)
  fix I s g r s' g'
  assume keep: "\<forall>k v. preserves (\<lambda>(s, g). I s) (st_set st k v)" "\<forall>k. preserves (\<lambda>(s, g). I s) (st_remove st k)"
    and s: "I s" and run: "finish_call st result gas ls (s, g) = (r, (s', g'))"
  obtain q s1 g1 where p: "rep_log_commit st (weak_sub_tx_prepare ls) (s, g) = (q, (s1, g1))" by (metis prod.exhaust)
  have op: "via st (op_apply st x)" for x by (cases x) (auto intro!: via_rules)
  have "via st (rep_log_commit st (weak_sub_tx_prepare ls))"
    by (auto simp: rep_log_commit_def intro!: via_rules op)
  with keep have "preserves (\<lambda>(s, g). I s) (rep_log_commit st (weak_sub_tx_prepare ls))" by (simp add: via_def)
  from preservesD [OF this _ p] s have "I s1" by simp
  with run p s show "I s'" by (auto simp: finish_call_def split: sum.splits outcome.splits)
qed

lemma cache_call_run:
  fixes q :: "(contract_response vm_result \<times> nat, 'e) outcome"
  assumes "ensure_cached v st checksum s g = (Ok u, h)" "length contract \<le> 0xFFFF"
    and "run_vm (vm_call v checksum entry (sdk_gas_to_wasmer (remaining g))) cr
           (prefixed_storage (weak_sub_tx st) (contract_prefix contract))
           (\<lambda>so. query_raw cr v (query (fst so))) [] ((s, []), g) = (q, ((s1, ls), g1))"
  shows "cache_call cr v st query checksum entry contract (s, g) =
    (case q of
       Ok x \<Rightarrow> finish_call st (fst x) (wasmer_gas_to_sdk (snd x)) ls (s1, g1)
     | Err e \<Rightarrow> (Err e, (s1, g1)) | Panic \<Rightarrow> (Panic, (s1, g1)))"
  using assms by (auto simp: cache_call_def contract_storage_Ok split: outcome.split)

lemma cache_call_Ok:
  fixes r :: "(contract_response vm_result \<times> nat, 'e) outcome"
  assumes call: "cache_call cr v st query checksum entry contract (s, g) = (r, (s', g'))"
    and len: "length contract \<le> 0xFFFF"
  obtains "s' = s" "\<And>x n. r \<noteq> Ok (Inr (Inr x), n)"
  | result gas ls g1 where "keys_below (contract_prefix contract) ls"
      "finish_call st result gas ls (s, g1) = (r, (s', g'))"
proof (cases "ensure_cached v st checksum s g")
  case (Pair e h)
  let ?prog = "vm_call v checksum entry (sdk_gas_to_wasmer (remaining g))"
  let ?w = "prefixed_storage (weak_sub_tx st) (contract_prefix contract)"
  show thesis
  proof (cases e)
    case (Ok u)
    obtain q :: "(contract_response vm_result \<times> nat, 'e) outcome" and s1 ls g1
      where run: "run_vm ?prog cr ?w (\<lambda>so. query_raw cr v (query (fst so))) [] ((s, []), g) = (q, ((s1, ls), g1))"
      by (metis prod.exhaust)
    from run_vm_keys [OF run] have k: "s1 = s" "keys_below (contract_prefix contract) ls" by simp_all
    note eq = cache_call_run [OF Pair [unfolded Ok] len run, unfolded call]
    show thesis
    proof (cases q)
      case (Ok x)
      with eq k that(2) show thesis by simp
    qed (use eq k(1) that(1) in simp_all)
  qed (use call Pair that(1) in \<open>auto simp: cache_call_def\<close>)
qed

text \<open>An address that is too long for a namespace panics before anything is written.\<close>

lemma cache_call_long:
  fixes r :: "(contract_response vm_result \<times> nat, 'e) outcome"
  assumes "cache_call cr v st query checksum entry contract (s, g) = (r, (s', g'))" "\<not> length contract \<le> 0xFFFF"
  shows "s' = s"
proof -
  have "(contract_storage (weak_sub_tx st) contract :: (_, 'e) outcome) \<noteq> Ok w" for w
    unfolding contract_storage_def prefixed_multilevel_def o_bind_Ok to_length_prefixed_nested_Ok using assms(2) by simp
  with assms(1) show ?thesis
    by (auto simp: cache_call_def split: prod.splits outcome.splits)
qed

lemma via_cache_call [via_rules]: "via st (cache_call cr v st query checksum entry contract)"
  unfolding via_def
proof (intro allI impI preservesI; clarify)
  fix I s g r s' g'
  assume keep: "\<forall>k v. preserves (\<lambda>(s, g). I s) (st_set st k v)" "\<forall>k. preserves (\<lambda>(s, g). I s) (st_remove st k)"
    and s: "I s" and run: "cache_call cr v st query checksum entry contract (s, g) = (r, (s', g'))"
  show "I s'"
  proof (cases "length contract \<le> 0xFFFF")
    case True
    with run show ?thesis
    proof (cases rule: cache_call_Ok)
      case (2 result gas ls g1)
      have "preserves (\<lambda>(s, g). I s) (finish_call st result gas ls)"
        using via_finish_call [of st result gas ls] keep unfolding via_def by blast
      from preservesD [OF this _ 2(2)] s show ?thesis by simp
    qed (use s in simp)
  next
    case False
    from cache_call_long [OF run False] s show ?thesis by simp
  qed
qed

context storage_laws
begin

text \<open>Committing writes below a prefix, to the end or not, leaves every other key alone.\<close>

lemma rep_log_commit_frame:
  assumes "keys_below p ls"
  shows "preserves (\<lambda>(s, g). inv s \<and> (\<forall>k. \<not> below p k \<longrightarrow> view s k = m k)) (rep_log_commit rd (weak_sub_tx_prepare ls))"
  using assms
proof (induction ls)
  case Nil
  then show ?case by (simp add: rep_log_commit_def weak_sub_tx_prepare_def reader_wrapper_prepare_def)
next
  case (Cons d ls)
  then have d: "below p (fst d)" and ls: "keys_below p ls" by (simp_all add: keys_below_def)
  let ?I = "\<lambda>(s, g). inv s \<and> (\<forall>k. \<not> below p k \<longrightarrow> view s k = m k)"
  have "preserves ?I (op_apply rd (op_from_delta d))"
  proof (cases d)
    case (Pair k x)
    have w: "inv s' \<and> (\<forall>k. \<not> below p k \<longrightarrow> view s' k = m k)"
      if "st_set rd k v (s, g) = (r, (s', g'))" "inv s" "\<forall>k. \<not> below p k \<longrightarrow> view s k = m k" for s g r s' g' v
      using set_ok [OF that(2), of k v g _ s' g'] set_fail [OF that(1)] that d Pair by (cases r) auto
    have r: "inv s' \<and> (\<forall>k. \<not> below p k \<longrightarrow> view s' k = m k)"
      if "st_remove rd k (s, g) = (r, (s', g'))" "inv s" "\<forall>k. \<not> below p k \<longrightarrow> view s k = m k" for s g r s' g'
      using remove_ok [OF that(2), of k g _ s' g'] remove_fail [OF that(1)] that d Pair by (cases r) auto
    show ?thesis
    proof (rule preservesI; clarify)
      fix s g r s' g'
      assume run: "op_apply rd (op_from_delta d) (s, g) = (r, (s', g'))" and I: "inv s" "\<forall>k. \<not> below p k \<longrightarrow> view s k = m k"
      show "inv s' \<and> (\<forall>k. \<not> below p k \<longrightarrow> view s' k = m k)"
      proof (cases x)
        case (Delta_Set v)
        with run Pair have "st_set rd k v (s, g) = (r, (s', g'))" by simp
        from w [OF this I] show ?thesis .
      next
        case Delta_Delete
        with run Pair have "st_remove rd k (s, g) = (r, (s', g'))" by simp
        from r [OF this I] show ?thesis .
      qed
    qed
  qed
  with Cons.IH [OF ls] show ?case
    by (auto simp: rep_log_commit_def weak_sub_tx_prepare_def ops_of_overlay)
qed

text \<open>Whatever a contract does, a call changes keys below the prefix of the contract only.\<close>

lemma cache_call_frame:
  assumes "cache_call cr v rd query checksum entry contract (s, g) = (r, (s', g'))" "length contract \<le> 0xFFFF" "inv s"
  shows "inv s' \<and> (\<forall>k. \<not> below (contract_prefix contract) k \<longrightarrow> view s' k = view s k)"
  using assms(1,2)
proof (cases rule: cache_call_Ok)
  case (2 result gas ls g1)
  obtain q s1 h where c: "rep_log_commit rd (weak_sub_tx_prepare ls) (s, g1) = (q, (s1, h))" by (metis prod.exhaust)
  from preservesD [OF rep_log_commit_frame [OF 2(1), of "view s"] _ c] assms(3)
  have "inv s1 \<and> (\<forall>k. \<not> below (contract_prefix contract) k \<longrightarrow> view s1 k = view s k)" by simp
  moreover have "s' = s1 \<or> s' = s" using 2(2) c by (auto simp: finish_call_def split: sum.splits outcome.splits)
  ultimately show ?thesis using assms(3) by auto
qed (use assms(3) in simp)

end

section \<open>Warm and cold caches\<close>

definition code_key :: "bytes \<Rightarrow> bytes" where
  "code_key c = lp NAMESPACE_WASM @ lp CODE_BYTES @ c"

text \<open>The stored bytecode of every checksum has that checksum.\<close>

definition code_blobs_ok :: "vm \<Rightarrow> (bytes \<Rightarrow> bytes option) \<Rightarrow> bool" where
  "code_blobs_ok v m \<longleftrightarrow>
     (\<forall>c blob. typed (vm_bytes v) m (code_key c) = Some blob \<longrightarrow> (\<exists>caps. vm_store_code v blob = Some (c, caps)))"

lemma wasm_names [simp]: "length NAMESPACE_WASM = 4" "length CODE_BYTES = 10"
  by (simp_all add: NAMESPACE_WASM_def CODE_BYTES_def ascii_def)

lemma lp_wasm: "lp NAMESPACE_WASM \<noteq> []" "last (lp NAMESPACE_WASM) \<noteq> 255"
  by (simp_all add: lp_def NAMESPACE_WASM_def ascii_def)

lemma code_key_path: "map_key CODE_BYTES [c] = Ok p \<longleftrightarrow> p = lp CODE_BYTES @ c"
  by (simp add: map_key_def path_new_Ok)

context reader_laws
begin

lemma code_load:
  assumes "map_load (readonly_prefixed_storage rd (lp NAMESPACE_WASM)) c CODE_BYTES [checksum] s g = (Ok blob, g')" "inv s"
  shows "typed c (view s) (code_key checksum) = Some blob"
proof -
  have "path_load (readonly_prefixed_storage rd (lp NAMESPACE_WASM)) c (lp CODE_BYTES @ checksum) s g = (Ok blob, g')"
    using assms(1) by (auto simp: map_load_def m_bind_Ok code_key_path)
  from reader_laws.path_load_view [OF readonly_prefixed_laws [OF lp_wasm] this assms(2)]
  show ?thesis by (auto simp: code_key_def typed_def)
qed

lemma ensure_cached_warm:
  assumes "inv s" "code_blobs_ok v (view s)"
  shows "ensure_cached (v\<lparr>vm_warm := w\<rparr>) rd checksum s g = ensure_cached v rd checksum s g"
proof -
  obtain q h where load: "map_load (readonly_prefixed_storage rd (lp NAMESPACE_WASM)) (vm_bytes v) CODE_BYTES [checksum] s
      gas_meter_infinite = (q, h)" by (metis prod.exhaust)
  show ?thesis
  proof (cases q)
    case (Ok blob)
    from code_load [OF load [unfolded Ok] assms(1)] assms(2) obtain caps where "vm_store_code v blob = Some (checksum, caps)" by (auto simp: code_blobs_ok_def)
    with load Ok show ?thesis by (simp add: ensure_cached_def)
  qed (use load in \<open>simp_all add: ensure_cached_def\<close>)
qed

end

lemma query_raw_warm: "query_raw cr (v\<lparr>vm_warm := w\<rparr>) = query_raw cr v"
proof -
  have "layer_response_to_cosmwasm (v\<lparr>vm_warm := w\<rparr>) r = layer_response_to_cosmwasm v r" for r
    by (cases "(v, r)" rule: layer_response_to_cosmwasm.cases) simp_all
  then have "do_query_raw cr (v\<lparr>vm_warm := w\<rparr>) = do_query_raw cr v"
    by (simp add: do_query_raw_def fun_eq_iff)
  then show ?thesis by (intro ext) (simp only: query_raw_def)
qed

section \<open>Properties\<close>


text \<open>A contract that writes one entry and succeeds, and a state that holds its code.\<close>

definition raw_codec :: "bytes codec" where
  "raw_codec = \<lparr>enc = Some, dec = Some\<rparr>"

definition empty_response :: contract_response where
  "empty_response = \<lparr>cr_messages = [], cr_attributes = [], cr_events = [], cr_data = None\<rparr>"

definition test_vm :: "(vm_entry \<Rightarrow> contract_response vm_prog) \<Rightarrow> vm" where
  "test_vm call =
     \<lparr>vm_call = (\<lambda>c e n. call e), vm_smart = (\<lambda>c e m n. Vm_Done (Inr (Inr [])) 0),
      vm_store_code = (\<lambda>b. Some (take 32 (b @ replicate 32 0), [])), vm_warm = (\<lambda>_. True),
      vm_pin = (\<lambda>_. True), vm_unpin = (\<lambda>_. True), vm_parse_request = (\<lambda>_. None), vm_bank_json = (\<lambda>_. []),
      vm_contract_info_json = (\<lambda>_. []), vm_code_info_json = (\<lambda>_. []), vm_bytes = raw_codec,
      vm_error_string = (\<lambda>_. [])\<rparr>"

definition writing_vm :: vm where
  "writing_vm = test_vm (\<lambda>_. Vm_Set [1] [2] (\<lambda>_. Vm_Done (Inr (Inr empty_response)) 0))"

definition test_code :: bytes where
  "test_code = replicate 32 7"

definition test_contract :: account_id where
  "test_contract = replicate 20 5"

definition code_tx :: tx_state where
  "code_tx = ((btree_storage_new, []), [(code_key test_code, Delta_Set test_code)])"

definition test_call where
  "test_call = (cache_call padding_crypto writing_vm tx_store (\<lambda>_ _. m_err (PE_Std ParseErr)) test_code
     (Call_Sudo \<lparr>env_block = test_block, env_contract = []\<rparr> []) test_contract (code_tx, gas_meter_new 100000)
     :: (_, unit) outcome \<times> _)"

lemmas vm_defs [vm_exec] = cache_call_def ensure_cached_def contract_storage_def prefixed_multilevel_def vm_store_set_def
  metered_call_def finish_call_def rep_log_commit_def weak_sub_tx_prepare_def reader_wrapper_prepare_def
  weak_sub_tx_def sdk_gas_to_wasmer_def wasmer_gas_to_sdk_def SDK_TO_WASMER_GAS_FACTOR_def
  NAMESPACE_WASM_def CODE_BYTES_def test_vm_def raw_codec_def code_key_def contract_prefix_def

lemma test_call_ok: "fst test_call = Ok (Inr (Inr empty_response), 0)"
  "tx_view (fst (snd test_call)) (contract_prefix test_contract @ [1]) = Some [2]"
  by (simp_all add: test_call_def writing_vm_def code_tx_def test_code_def test_contract_def vm_exec
      test_exec plus_exec namespace_exec store_exec gas_exec prog_exec Let_def lp_def apply_overlay_def)

lemma code_tx_inv: "tx_inv code_tx"
  by (simp add: code_tx_def btree_storage_new_def)




end
