(* ===== verification/Wasm.thy ===== *)
theory Wasm
  imports Vm
begin

text \<open>
  The wasm module: \<open>packages/app/src/wasm/keeper.rs\<close>, \<open>events.rs\<close> and \<open>utils.rs\<close>.

  The module calls back into the state machine through its \<open>sm: &StateMachine\<close> argument: a
  contract call may dispatch messages, which the state machine executes, which may call contracts
  again. \<open>sm_calls\<close> is the record of the methods reached that way; \<open>State_Machine\<close> ties the knot.
  The fields of \<open>chain\<close> are the encodings and the VM; they do not depend on the storage.
\<close>

named_theorems wasm_exec \<open>definitions to run the wasm module\<close>

section \<open>State and environment\<close>

record contract_data =
  con_code_id :: nat
  con_creator :: account_id
  con_admin :: "account_id option"
  con_label :: bytes
  con_created :: nat

record code_info =
  code_creator :: account_id
  code_checksum :: bytes
  code_pinned :: bool

datatype wasm_msg_data =
    Data_Store nat bytes
  | Data_Execute bytes
  | Data_Instantiate account_id bytes
  | Data_Instantiate2 account_id bytes
  | Data_Migrate bytes
  | Data_Sudo bytes
  | Data_UpdateAdmin
  | Data_ClearAdmin
  | Data_PinCode
  | Data_UnpinCode

datatype msg_data = MsgData_Wasm wasm_msg_data | MsgData_Bank bank_msg_data | MsgData_Ibc ibc_msg_data

record msg_response =
  mr_events :: "event list"
  mr_data :: msg_data

record chain =
  ch_crypto :: crypto
  ch_vm :: vm
  ch_u128 :: "nat codec"
  ch_u64 :: "nat codec"
  ch_bool :: "bool codec"
  ch_empty :: "unit codec"
  ch_account :: "account codec"
  ch_code_info :: "code_info codec"
  ch_contract :: "contract_data codec"
  ch_connection :: "connection_end codec"
  ch_channel :: "channel_end codec"
  ch_packet :: "packet codec"
  ch_packet_json :: "bytes \<Rightarrow> packet_json option"
  ch_string_from_vec :: "bytes \<Rightarrow> bytes option"
  ch_u64_from_vec :: "bytes \<Rightarrow> nat option"
  ch_account_from_vec :: "bytes \<Rightarrow> account_id option"
  ch_cw20_transfer :: "bytes \<Rightarrow> nat \<Rightarrow> bytes option"
  ch_cw20_burn :: "nat \<Rightarrow> bytes option"
  ch_cw20_balance_query :: "bytes \<Rightarrow> bytes option"
  ch_cw20_balance_response :: "bytes \<Rightarrow> nat option"
  ch_cw20_token_info_query :: "bytes option"
  ch_cw20_token_info_response :: "bytes \<Rightarrow> nat option"
  ch_proto_store :: "nat \<Rightarrow> bytes \<Rightarrow> bytes"
  ch_proto_data :: "bytes \<Rightarrow> bytes"
  ch_proto_instantiate :: "bytes \<Rightarrow> bytes \<Rightarrow> bytes"
  ch_ibc_json :: "ibc_msg_data \<Rightarrow> bytes option"
  ch_root_wasm :: bytes
  ch_root_instantiate :: "bytes \<Rightarrow> bytes option"

record 's sm_calls =
  sm_process :: "'s storage \<Rightarrow> account_id \<Rightarrow> block_info \<Rightarrow> msg \<Rightarrow> ('s \<times> gas_meter, msg_response, pulsar_error) prog"
  sm_wasm_sandboxed :: "'s storage \<Rightarrow> block_info \<Rightarrow> account_id \<Rightarrow> wasm_msg \<Rightarrow> ('s \<times> gas_meter, msg_response, pulsar_error) prog"
  sm_wasm_smart :: "'s storage \<Rightarrow> block_info \<Rightarrow> account_id \<Rightarrow> bytes \<Rightarrow> 's \<Rightarrow> (gas_meter, bytes, pulsar_error) prog"
  sm_query :: "'s storage \<Rightarrow> block_info \<Rightarrow> contract_query \<Rightarrow> 's \<Rightarrow> (gas_meter, contract_query_response, pulsar_error) prog"
  sm_dispatch :: "'s storage \<Rightarrow> block_info \<Rightarrow> account_id \<Rightarrow> bytes \<Rightarrow> sub_msg list \<Rightarrow> msg_response \<Rightarrow> bool
     \<Rightarrow> ('s \<times> gas_meter, msg_response, pulsar_error) prog"

text \<open>\<open>sm.bank\<close>, \<open>sm.auth\<close> and \<open>sm.ibc\<close>: the modules with the state machine they call.\<close>

definition bank_of :: "chain \<Rightarrow> 's sm_calls \<Rightarrow> 's bank_env" where
  "bank_of ch sm =
     \<lparr>be_crypto = ch_crypto ch, be_u128 = ch_u128 ch, be_string_from_vec = ch_string_from_vec ch,
      be_cw20_transfer = ch_cw20_transfer ch, be_cw20_burn = ch_cw20_burn ch,
      be_cw20_balance_query = ch_cw20_balance_query ch, be_cw20_balance_response = ch_cw20_balance_response ch,
      be_cw20_token_info_query = ch_cw20_token_info_query ch, be_cw20_token_info_response = ch_cw20_token_info_response ch,
      be_wasm_exec = (\<lambda>st block who m. m_bind (sm_wasm_sandboxed sm st block who m) (\<lambda>_. m_ret ())),
      be_wasm_smart = sm_wasm_smart sm\<rparr>"

definition auth_of :: "chain \<Rightarrow> 's sm_calls \<Rightarrow> 's auth_env" where
  "auth_of ch sm = \<lparr>ae_account = ch_account ch, ae_bank = bank_of ch sm\<rparr>"

definition ibc_of :: "chain \<Rightarrow> 's sm_calls \<Rightarrow> 's ibc_env" where
  "ibc_of ch sm =
     \<lparr>ie_bank = bank_of ch sm, ie_connection = ch_connection ch, ie_channel = ch_channel ch,
      ie_packet = ch_packet ch, ie_packet_json = ch_packet_json ch\<rparr>"

section \<open>Storage\<close>

definition ROOT_ADDR :: bytes where
  "ROOT_ADDR =
     [0x0d, 0xa0, 0x1d, 0xa0, 0x2d, 0xa0, 0x3d, 0xa0, 0x4d, 0xa0,
      0x5d, 0xa0, 0x6d, 0xa0, 0x7d, 0xa0, 0x8d, 0xa0, 0x9d, 0xa0]"

definition LOAD_WASM_GAS :: nat where
  "LOAD_WASM_GAS = 60000"

definition LOAD_PINNED_WASM_GAS :: nat where
  "LOAD_PINNED_WASM_GAS = 2000"

definition CODES :: bytes where
  "CODES = ascii ''codes''"

definition CONTRACTS :: bytes where
  "CONTRACTS = ascii ''contracts''"

definition CONTRACTS_BY_CODE :: bytes where
  "CONTRACTS_BY_CODE = ascii ''contracts_by_code''"

definition PINNED :: bytes where
  "PINNED = ascii ''pinned''"

definition CODE_ID :: bytes where
  "CODE_ID = ascii ''code_id''"

definition CONTRACT_COUNTER :: bytes where
  "CONTRACT_COUNTER = ascii ''contract_count''"

definition wasm_store :: "'s storage \<Rightarrow> 's storage" where
  "wasm_store st = prefixed_storage st (lp NAMESPACE_WASM)"

text \<open>A typed read or write with \<open>PlusError\<close> converted by \<open>?\<close>.\<close>

definition load_contract :: "chain \<Rightarrow> 's storage \<Rightarrow> account_id \<Rightarrow> 's \<Rightarrow> (gas_meter, contract_data, pulsar_error) prog" where
  "load_contract ch st address s =
     m_map_err pulsar_of_plus (map_load (wasm_store st) (ch_contract ch) CONTRACTS [address] s)"

definition save_contract :: "chain \<Rightarrow> 's storage \<Rightarrow> account_id \<Rightarrow> contract_data \<Rightarrow> ('s \<times> gas_meter, unit, pulsar_error) prog" where
  "save_contract ch st address contract =
     m_map_err pulsar_of_plus (map_save (wasm_store st) (ch_contract ch) CONTRACTS [address] contract)"

definition save_contract_by_code :: "chain \<Rightarrow> 's storage \<Rightarrow> account_id \<Rightarrow> contract_data \<Rightarrow> ('s \<times> gas_meter, unit, pulsar_error) prog" where
  "save_contract_by_code ch st address contract =
     m_map_err pulsar_of_plus (map_save (wasm_store st) (ch_bool ch) CONTRACTS_BY_CODE
       [u64_to_be_bytes (con_code_id contract), address] True)"

definition remove_contract_by_code :: "'s storage \<Rightarrow> account_id \<Rightarrow> contract_data \<Rightarrow> ('s \<times> gas_meter, unit, pulsar_error) prog" where
  "remove_contract_by_code st address contract =
     m_map_err PE_Gas (map_remove (wasm_store st) CONTRACTS_BY_CODE
       [u64_to_be_bytes (con_code_id contract), address])"

definition load_code :: "chain \<Rightarrow> 's storage \<Rightarrow> nat \<Rightarrow> 's \<Rightarrow> (gas_meter, code_info, pulsar_error) prog" where
  "load_code ch st i s =
     m_map_err pulsar_of_plus (map_load (wasm_store st) (ch_code_info ch) CODES [u64_to_be_bytes i] s)"

definition save_code :: "chain \<Rightarrow> 's storage \<Rightarrow> nat \<Rightarrow> code_info \<Rightarrow> ('s \<times> gas_meter, unit, pulsar_error) prog" where
  "save_code ch st i info =
     m_map_err pulsar_of_plus (map_save (wasm_store st) (ch_code_info ch) CODES [u64_to_be_bytes i] info)"

text \<open>\<open>next_id\<close> and the first half of \<open>generate_address\<close>: the next value of a counter.\<close>

definition next_count :: "chain \<Rightarrow> 's storage \<Rightarrow> bytes \<Rightarrow> ('s \<times> gas_meter, nat, pulsar_error) prog" where
  "next_count ch st key =
     m_bind (m_map_err pulsar_of_plus (m_read (item_may_load (wasm_store st) (ch_u64 ch) key))) (\<lambda>n.
     m_bind (m_lift (u64_add (case n of None \<Rightarrow> 0 | Some i \<Rightarrow> i) 1)) (\<lambda>next.
     m_bind (m_map_err pulsar_of_plus (item_save (wasm_store st) (ch_u64 ch) key next)) (\<lambda>_.
     m_ret next)))"

definition next_id :: "chain \<Rightarrow> 's storage \<Rightarrow> ('s \<times> gas_meter, nat, pulsar_error) prog" where
  "next_id ch st = next_count ch st CODE_ID"

definition build_instantiate_address :: "crypto \<Rightarrow> bytes \<Rightarrow> nat \<Rightarrow> nat \<Rightarrow> (account_id, pulsar_error) outcome" where
  "build_instantiate_address cr sender code_id counter =
     (case account_id_new (c_sha256 cr (sender @ u64_to_be_bytes code_id @ u64_to_be_bytes counter)) of
        Ok a \<Rightarrow> Ok a | Err e \<Rightarrow> Err (PE_AccountId e) | Panic \<Rightarrow> Panic)"

definition generate_address :: "chain \<Rightarrow> 's storage \<Rightarrow> account_id \<Rightarrow> nat \<Rightarrow> ('s \<times> gas_meter, account_id, pulsar_error) prog" where
  "generate_address ch st sender code_id =
     m_bind (next_count ch st CONTRACT_COUNTER) (\<lambda>counter.
     m_lift (build_instantiate_address (ch_crypto ch) sender code_id counter))"

definition module_hash :: "crypto \<Rightarrow> bytes \<Rightarrow> bytes \<Rightarrow> bytes" where
  "module_hash cr ty key = c_sha256 cr (c_sha256 cr ty @ key)"

definition instantiate_2_key :: "bytes \<Rightarrow> account_id \<Rightarrow> bytes \<Rightarrow> bytes \<Rightarrow> bytes" where
  "instantiate_2_key checksum creator salt msg =
     ascii ''wasm'' @ [0] @ u64_to_be_bytes 32 @ checksum @ u64_to_be_bytes (length creator) @ creator
       @ u64_to_be_bytes (length salt) @ salt @ u64_to_be_bytes (length msg) @ msg"

definition build_instantiate_2_address ::
  "crypto \<Rightarrow> bytes \<Rightarrow> account_id \<Rightarrow> bytes \<Rightarrow> bytes \<Rightarrow> (account_id, pulsar_error) outcome" where
  "build_instantiate_2_address cr checksum creator salt msg =
     (if salt = [] \<or> length salt > 64 then Err (PE_Wasm Instantiate2Error)
      else case account_id_new (module_hash cr (ascii ''module'') (instantiate_2_key checksum creator salt msg)) of
             Ok a \<Rightarrow> Ok a | Err e \<Rightarrow> Err (PE_AccountId e) | Panic \<Rightarrow> Panic)"

text \<open>\<open>Checksum::try_from(..).unwrap()\<close> panics unless the checksum has 32 bytes.\<close>

definition get_checksum_not_executing :: "code_info \<Rightarrow> (bytes, pulsar_error) outcome" where
  "get_checksum_not_executing code = (if length (code_checksum code) = 32 then Ok (code_checksum code) else Panic)"

definition get_checksum_to_execute :: "code_info \<Rightarrow> ('s \<times> gas_meter, bytes, pulsar_error) prog" where
  "get_checksum_to_execute code =
     m_bind (m_charge (if code_pinned code then LOAD_PINNED_WASM_GAS else LOAD_WASM_GAS)) (\<lambda>_.
     m_lift (get_checksum_not_executing code))"

section \<open>Errors and events\<close>

fun map_vm_error :: "vm_error \<Rightarrow> pulsar_error" where
  "map_vm_error GasDepletion = PE_Gas OutOfGas"
| "map_vm_error Vm_Other = PE_Wasm Vm"

fun map_cache_result :: "'a vm_result \<Rightarrow> ('a, pulsar_error) outcome" where
  "map_cache_result (Inl e) = Err (map_vm_error e)"
| "map_cache_result (Inr (Inl e)) = Err (PE_Wasm Contract)"
| "map_cache_result (Inr (Inr x)) = Ok x"

definition CONTRACT_ATTR :: bytes where
  "CONTRACT_ATTR = ascii ''_contract_address''"

definition wasm_event :: "string \<Rightarrow> attribute list \<Rightarrow> event" where
  "wasm_event ty attrs = \<lparr>ev_type = ascii ty, ev_attributes = attrs\<rparr>"

fun validate_attributes :: "attribute list \<Rightarrow> (unit, wasm_error) outcome" where
  "validate_attributes [] = Ok ()"
| "validate_attributes ((key, value) # attrs) =
     (if take 1 key = ascii ''_'' then Err (InvalidAttributeKey key) else validate_attributes attrs)"

fun contract_events :: "bytes \<Rightarrow> event list \<Rightarrow> (event list, wasm_error) outcome" where
  "contract_events addr [] = Ok []"
| "contract_events addr (ev # evs) =
     o_bind (validate_attributes (ev_attributes ev)) (\<lambda>_.
     o_bind (contract_events addr evs) (\<lambda>out.
     Ok (\<lparr>ev_type = ascii ''wasm-'' @ ev_type ev, ev_attributes = (CONTRACT_ATTR, addr) # ev_attributes ev\<rparr> # out)))"

definition build_contract_events :: "crypto \<Rightarrow> account_id \<Rightarrow> event list \<Rightarrow> attribute list \<Rightarrow> (event list, wasm_error) outcome" where
  "build_contract_events cr contract events attributes =
     (let addr = c_bech32_encode cr contract
      in o_bind (contract_events addr events) (\<lambda>out.
         if attributes = [] then Ok out
         else o_bind (validate_attributes attributes) (\<lambda>_.
              Ok (out @ [\<lparr>ev_type = ascii ''wasm'', ev_attributes = (CONTRACT_ATTR, addr) # attributes\<rparr>]))))"

section \<open>Messages of contracts\<close>

definition msg_address :: "crypto \<Rightarrow> bytes \<Rightarrow> (account_id, pulsar_error) outcome" where
  "msg_address cr a =
     (case account_id_parse_string cr a of Ok i \<Rightarrow> Ok i | Err e \<Rightarrow> Err (PE_AccountId e) | Panic \<Rightarrow> Panic)"

fun msg_admin :: "crypto \<Rightarrow> bytes option \<Rightarrow> (account_id option, pulsar_error) outcome" where
  "msg_admin cr None = Ok None"
| "msg_admin cr (Some a) = o_bind (msg_address cr a) (\<lambda>i. Ok (Some i))"

text \<open>The messages of the root contract, sent in its own name.\<close>

fun custom_msg_to_layer :: "crypto \<Rightarrow> custom_root_msg \<Rightarrow> (msg, pulsar_error) outcome" where
  "custom_msg_to_layer cr (Root_Sudo contract_addr m) =
     o_bind (msg_address cr contract_addr) (\<lambda>c. Ok (Msg_Wasm (Sudo ROOT_ADDR c m)))"
| "custom_msg_to_layer cr (Root_ClearAdmin contract_addr) =
     o_bind (msg_address cr contract_addr) (\<lambda>c. Ok (Msg_Wasm (ClearAdmin ROOT_ADDR c)))"
| "custom_msg_to_layer cr (Root_UpdateAdmin contract_addr admin) =
     o_bind (msg_address cr contract_addr) (\<lambda>c.
     o_bind (msg_address cr admin) (\<lambda>a. Ok (Msg_Wasm (UpdateAdmin ROOT_ADDR c a))))"
| "custom_msg_to_layer cr (Root_Pin code_id) = Ok (Msg_Wasm (Pin ROOT_ADDR code_id))"
| "custom_msg_to_layer cr (Root_Unpin code_id) = Ok (Msg_Wasm (Unpin ROOT_ADDR code_id))"
| "custom_msg_to_layer cr (Root_Migrate contract_addr new_code_id m) =
     o_bind (msg_address cr contract_addr) (\<lambda>c. Ok (Msg_Wasm (Migrate ROOT_ADDR c new_code_id m)))"

fun cosmwasm_msg_to_layer :: "crypto \<Rightarrow> cosmos_msg \<Rightarrow> account_id \<Rightarrow> (msg, pulsar_error) outcome" where
  "cosmwasm_msg_to_layer cr (Cosmos_BankSend to_address amount) sender =
     o_bind (msg_address cr to_address) (\<lambda>recipient. Ok (Msg_Bank (Send sender recipient amount)))"
| "cosmwasm_msg_to_layer cr (Cosmos_BankBurn amount) sender = Ok (Msg_Bank (Burn sender amount))"
| "cosmwasm_msg_to_layer cr Cosmos_BankOther sender = Err (PE_Wasm UnsupportedCosmosMsg)"
| "cosmwasm_msg_to_layer cr (Cosmos_Execute contract_addr m funds) sender =
     o_bind (msg_address cr contract_addr) (\<lambda>c. Ok (Msg_Wasm (Execute sender c m funds)))"
| "cosmwasm_msg_to_layer cr (Cosmos_Instantiate admin code_id m funds label) sender =
     o_bind (msg_admin cr admin) (\<lambda>a. Ok (Msg_Wasm (Instantiate sender a code_id m funds label)))"
| "cosmwasm_msg_to_layer cr (Cosmos_Instantiate2 admin code_id label m funds salt) sender =
     o_bind (msg_admin cr admin) (\<lambda>a. Ok (Msg_Wasm (Instantiate2 sender a code_id label m funds salt)))"
| "cosmwasm_msg_to_layer cr (Cosmos_Migrate contract_addr m new_code_id) sender =
     o_bind (msg_address cr contract_addr) (\<lambda>c. Ok (Msg_Wasm (Migrate sender c new_code_id m)))"
| "cosmwasm_msg_to_layer cr (Cosmos_UpdateAdmin contract_addr admin) sender =
     o_bind (msg_address cr contract_addr) (\<lambda>c.
     o_bind (msg_address cr admin) (\<lambda>a. Ok (Msg_Wasm (UpdateAdmin sender c a))))"
| "cosmwasm_msg_to_layer cr (Cosmos_ClearAdmin contract_addr) sender =
     o_bind (msg_address cr contract_addr) (\<lambda>c. Ok (Msg_Wasm (ClearAdmin sender c)))"
| "cosmwasm_msg_to_layer cr Cosmos_WasmOther sender = Err (PE_Wasm UnsupportedCosmosMsg)"
| "cosmwasm_msg_to_layer cr (Cosmos_Custom custom) sender =
     o_bind (o_ensure (sender = ROOT_ADDR) (PE_Wasm NotRoot)) (\<lambda>_. custom_msg_to_layer cr custom)"
| "cosmwasm_msg_to_layer cr (Cosmos_Stargate _) sender = Err (PE_Wasm UnsupportedCosmosMsg)"
| "cosmwasm_msg_to_layer cr (Cosmos_Any _) sender = Err (PE_Wasm UnsupportedCosmosMsg)"
| "cosmwasm_msg_to_layer cr Cosmos_Other sender = Err (PE_Wasm UnsupportedCosmosMsg)"

text \<open>Empty protobuf messages encode to the empty string.\<close>

definition unknown_cosmwasm_response :: "bytes \<times> bytes" where
  "unknown_cosmwasm_response = (ascii ''/cosmos.bank.v1beta1.MsgSend'', [])"

fun encode_cosmwasm_response :: "chain \<Rightarrow> msg_data \<Rightarrow> bytes \<times> bytes" where
  "encode_cosmwasm_response ch (MsgData_Bank Data_Send) = (ascii ''/cosmos.bank.v1beta1.MsgSendResponse'', [])"
| "encode_cosmwasm_response ch (MsgData_Bank Data_Burn) = unknown_cosmwasm_response"
| "encode_cosmwasm_response ch (MsgData_Wasm (Data_Store code_id checksum)) =
     (ascii ''/cosmwasm.wasm.v1.MsgStoreCodeResponse'', ch_proto_store ch code_id checksum)"
| "encode_cosmwasm_response ch (MsgData_Wasm (Data_Execute data)) =
     (ascii ''/cosmwasm.wasm.v1.MsgExecuteContractResponse'', ch_proto_data ch data)"
| "encode_cosmwasm_response ch (MsgData_Wasm (Data_Instantiate contract data)) =
     (ascii ''/cosmwasm.wasm.v1.MsgInstantiateContractResponse'',
      ch_proto_instantiate ch (c_bech32_encode (ch_crypto ch) contract) data)"
| "encode_cosmwasm_response ch (MsgData_Wasm (Data_Instantiate2 contract data)) =
     (ascii ''/cosmwasm.wasm.v1.MsgInstantiateContract2Response'',
      ch_proto_instantiate ch (c_bech32_encode (ch_crypto ch) contract) data)"
| "encode_cosmwasm_response ch (MsgData_Wasm (Data_Migrate data)) =
     (ascii ''/cosmwasm.wasm.v1.MsgMigrateContractResponse'', ch_proto_data ch data)"
| "encode_cosmwasm_response ch (MsgData_Wasm Data_UpdateAdmin) = (ascii ''/cosmwasm.wasm.v1.MsgUpdateAdminResponse'', [])"
| "encode_cosmwasm_response ch (MsgData_Wasm Data_ClearAdmin) = (ascii ''/cosmwasm.wasm.v1.MsgClearAdminResponse'', [])"
| "encode_cosmwasm_response ch (MsgData_Wasm (Data_Sudo _)) = unknown_cosmwasm_response"
| "encode_cosmwasm_response ch (MsgData_Wasm Data_PinCode) = unknown_cosmwasm_response"
| "encode_cosmwasm_response ch (MsgData_Wasm Data_UnpinCode) = unknown_cosmwasm_response"
| "encode_cosmwasm_response ch (MsgData_Ibc ibc) =
     (ascii ''/junoclaw.ibc.v1.MsgResponse'', case ch_ibc_json ch ibc of None \<Rightarrow> [] | Some b \<Rightarrow> b)"

definition maybe_binary :: "bytes \<Rightarrow> bytes option" where
  "maybe_binary data = (if data = [] then None else Some data)"

fun set_data_field :: "msg_data \<Rightarrow> bytes \<Rightarrow> msg_data" where
  "set_data_field (MsgData_Wasm (Data_Execute _)) new = MsgData_Wasm (Data_Execute new)"
| "set_data_field (MsgData_Wasm (Data_Instantiate c _)) new = MsgData_Wasm (Data_Instantiate c new)"
| "set_data_field (MsgData_Wasm (Data_Instantiate2 c _)) new = MsgData_Wasm (Data_Instantiate2 c new)"
| "set_data_field (MsgData_Wasm (Data_Migrate _)) new = MsgData_Wasm (Data_Migrate new)"
| "set_data_field (MsgData_Wasm (Data_Sudo _)) new = MsgData_Wasm (Data_Sudo new)"
| "set_data_field d new = d"

section \<open>Dispatching the messages of a contract\<close>

definition build_env :: "crypto \<Rightarrow> block_info \<Rightarrow> account_id \<Rightarrow> contract_env" where
  "build_env cr block contract = \<lparr>env_block = block, env_contract = c_bech32_encode cr contract\<rparr>"

definition build_info :: "crypto \<Rightarrow> account_id \<Rightarrow> coin list \<Rightarrow> message_info" where
  "build_info cr sender funds = \<lparr>info_sender = c_bech32_encode cr sender, info_funds = funds\<rparr>"

text \<open>One call of the cache: run the contract, charge the gas it used, convert its errors.\<close>

definition vm_execute ::
  "chain \<Rightarrow> 's sm_calls \<Rightarrow> 's storage \<Rightarrow> block_info \<Rightarrow> bytes \<Rightarrow> vm_entry \<Rightarrow> account_id
     \<Rightarrow> ('s \<times> gas_meter, contract_response, pulsar_error) prog" where
  "vm_execute ch sm st block checksum entry contract =
     m_bind (cache_call (ch_crypto ch) (ch_vm ch) st (\<lambda>s q. sm_query sm st block q s) checksum entry contract) (\<lambda>(result, gas).
     m_bind (m_charge gas) (\<lambda>_.
     m_lift (map_cache_result result)))"

definition handles_reply :: "reply_on \<Rightarrow> bool \<Rightarrow> bool" where
  "handles_reply mode is_success =
     (case mode of Reply_Always \<Rightarrow> True | Reply_Success \<Rightarrow> is_success | Reply_Error \<Rightarrow> \<not> is_success | Reply_Never \<Rightarrow> False)"

definition reply_event :: "crypto \<Rightarrow> account_id \<Rightarrow> bool \<Rightarrow> event" where
  "reply_event cr contract is_success =
     wasm_event ''reply'' [(CONTRACT_ATTR, c_bech32_encode cr contract),
       (ascii ''mode'', ascii (if is_success then ''handle_success'' else ''handle_failure''))]"

text \<open>What the reply entry point receives for the result of a sub-message.\<close>

definition reply_result :: "chain \<Rightarrow> pulsar_error + msg_response \<Rightarrow> bytes + sub_msg_response" where
  "reply_result ch msg_result =
     (case msg_result of
        Inr res \<Rightarrow>
          (let (type_url, value) = encode_cosmwasm_response ch (mr_data res)
           in Inr \<lparr>sr_events = mr_events res, sr_data = maybe_binary value, sr_msg_responses = [(type_url, value)]\<rparr>)
      | Inl err \<Rightarrow> Inl (vm_error_string (ch_vm ch) err))"

text \<open>
  One iteration of the loop of \<open>dispatch_response_messages\<close>. The sub-message runs on the storage
  of its caller, on a meter with at most the gas that is left, and its outcome is inspected.
\<close>

definition dispatch_one ::
  "chain \<Rightarrow> 's sm_calls \<Rightarrow> 's storage \<Rightarrow> block_info \<Rightarrow> account_id \<Rightarrow> bytes \<Rightarrow> bool \<Rightarrow> sub_msg \<Rightarrow> msg_response
     \<Rightarrow> ('s \<times> gas_meter, msg_response, pulsar_error) prog" where
  "dispatch_one ch sm st block contract checksum allow_submsg msg parent sg =
     (let left = remaining (snd sg);
          lim = (case sub_gas_limit msg of Some l \<Rightarrow> if l < left then l else left | None \<Rightarrow> left)
      in m_bind (m_lift (cosmwasm_msg_to_layer (ch_crypto ch) (sub_body msg) contract)) (\<lambda>layer_msg.
         m_bind (m_submeter lim (sm_process sm st contract block layer_msg)) (\<lambda>(msg_result, gas_used).
         m_bind (m_charge gas_used) (\<lambda>_.
         let is_success = (case msg_result of Inr _ \<Rightarrow> True | Inl _ \<Rightarrow> False) in
         if handles_reply (sub_reply_on msg) is_success
         then let parent1 = parent\<lparr>mr_events := mr_events parent @ (case msg_result of Inr res \<Rightarrow> mr_events res | Inl _ \<Rightarrow> [])\<rparr>;
                  reply = \<lparr>rp_id = sub_id msg, rp_result = reply_result ch msg_result, rp_gas_used = 0, rp_payload = sub_payload msg\<rparr>
              in m_bind (vm_execute ch sm st block checksum (Call_Reply (build_env (ch_crypto ch) block contract) reply) contract) (\<lambda>result.
                 m_bind (m_map_err PE_Wasm (m_lift (build_contract_events (ch_crypto ch) contract (cr_events result) (cr_attributes result)))) (\<lambda>events.
                 let parent2 = parent1\<lparr>mr_events := mr_events parent1 @ [reply_event (ch_crypto ch) contract is_success] @ events,
                       mr_data := (case cr_data result of None \<Rightarrow> mr_data parent1 | Some d \<Rightarrow> set_data_field (mr_data parent1) d)\<rparr>
                 in if cr_messages result = [] then m_ret parent2
                    else sm_dispatch sm st block contract checksum (cr_messages result) parent2 allow_submsg))
         else (case msg_result of
                 Inl e \<Rightarrow> m_err e
               | Inr res \<Rightarrow> m_ret (parent\<lparr>mr_events := mr_events parent @ mr_events res\<rparr>)))))) sg"

fun dispatch_loop ::
  "chain \<Rightarrow> 's sm_calls \<Rightarrow> 's storage \<Rightarrow> block_info \<Rightarrow> account_id \<Rightarrow> bytes \<Rightarrow> bool \<Rightarrow> sub_msg list \<Rightarrow> msg_response
     \<Rightarrow> ('s \<times> gas_meter, msg_response, pulsar_error) prog" where
  "dispatch_loop ch sm st block contract checksum allow_submsg [] parent = m_ret parent"
| "dispatch_loop ch sm st block contract checksum allow_submsg (m # ms) parent =
     m_bind (dispatch_one ch sm st block contract checksum allow_submsg m parent) (\<lambda>parent'.
     dispatch_loop ch sm st block contract checksum allow_submsg ms parent')"

definition dispatch_response_messages ::
  "chain \<Rightarrow> 's sm_calls \<Rightarrow> 's storage \<Rightarrow> block_info \<Rightarrow> account_id \<Rightarrow> bytes \<Rightarrow> sub_msg list \<Rightarrow> msg_response \<Rightarrow> bool
     \<Rightarrow> ('s \<times> gas_meter, msg_response, pulsar_error) prog" where
  "dispatch_response_messages ch sm st block contract checksum ms parent allow_submsg =
     m_bind (m_ensure (allow_submsg \<or> ms = []) (PE_Wasm SubMsgNotSupported)) (\<lambda>_.
     dispatch_loop ch sm st block contract checksum allow_submsg ms parent)"

text \<open>The common tail of instantiate, execute, migrate and sudo.\<close>

definition run_entry ::
  "chain \<Rightarrow> 's sm_calls \<Rightarrow> 's storage \<Rightarrow> block_info \<Rightarrow> code_info \<Rightarrow> account_id \<Rightarrow> (contract_env \<Rightarrow> vm_entry) \<Rightarrow> event
     \<Rightarrow> (bytes \<Rightarrow> wasm_msg_data) \<Rightarrow> bool \<Rightarrow> ('s \<times> gas_meter, msg_response, pulsar_error) prog" where
  "run_entry ch sm st block code contract entry event mk_data allow_submsg =
     m_bind (get_checksum_to_execute code) (\<lambda>checksum.
     m_bind (vm_execute ch sm st block checksum (entry (build_env (ch_crypto ch) block contract)) contract) (\<lambda>result.
     m_bind (m_map_err PE_Wasm (m_lift (build_contract_events (ch_crypto ch) contract (cr_events result) (cr_attributes result)))) (\<lambda>events.
     let data = MsgData_Wasm (mk_data (case cr_data result of None \<Rightarrow> [] | Some d \<Rightarrow> d))
     in dispatch_response_messages ch sm st block contract checksum (cr_messages result)
          \<lparr>mr_events = event # events, mr_data = data\<rparr> allow_submsg)))"

section \<open>Handlers\<close>

definition do_instantiate ::
  "chain \<Rightarrow> 's sm_calls \<Rightarrow> 's storage \<Rightarrow> block_info \<Rightarrow> account_id \<Rightarrow> account_id \<Rightarrow> nat \<Rightarrow> code_info \<Rightarrow> account_id option
     \<Rightarrow> bytes \<Rightarrow> coin list \<Rightarrow> bytes \<Rightarrow> bool \<Rightarrow> ('s \<times> gas_meter, msg_response, pulsar_error) prog" where
  "do_instantiate ch sm st block sender contract_addr code_id code admin msg funds label allow_submsg =
     m_bind (claim_internal_account (auth_of ch sm) st contract_addr) (\<lambda>_.
     let contract = \<lparr>con_code_id = code_id, con_creator = sender, con_admin = admin, con_label = label,
                     con_created = bi_height block\<rparr> in
     m_bind (save_contract ch st contract_addr contract) (\<lambda>_.
     m_bind (save_contract_by_code ch st contract_addr contract) (\<lambda>_.
     m_bind (if funds \<noteq> [] then bank_transfer (bank_of ch sm) st block sender contract_addr funds else m_ret ()) (\<lambda>_.
     run_entry ch sm st block code contract_addr
       (\<lambda>env. Call_Instantiate env (build_info (ch_crypto ch) sender funds) msg)
       (wasm_event ''instantiate'' [(ascii ''code_id'', show_nat code_id),
          (CONTRACT_ATTR, c_bech32_encode (ch_crypto ch) contract_addr)])
       (Data_Instantiate contract_addr) allow_submsg))))"

definition is_admin :: "contract_data \<Rightarrow> account_id \<Rightarrow> bool" where
  "is_admin contract sender \<longleftrightarrow> con_admin contract = Some sender \<or> sender = ROOT_ADDR"

definition addr_event :: "crypto \<Rightarrow> string \<Rightarrow> account_id \<Rightarrow> event" where
  "addr_event cr ty contract = wasm_event ty [(CONTRACT_ATTR, c_bech32_encode cr contract)]"

definition code_event :: "string \<Rightarrow> nat \<Rightarrow> event" where
  "code_event ty code_id = wasm_event ty [(ascii ''code_id'', show_nat code_id)]"

definition m_cache_ok :: "bool \<Rightarrow> ('s, unit, pulsar_error) prog" where
  "m_cache_ok b = m_ensure b (map_vm_error Vm_Other)"

definition store_code_msg :: "chain \<Rightarrow> 's storage \<Rightarrow> account_id \<Rightarrow> bytes \<Rightarrow> ('s \<times> gas_meter, msg_response, pulsar_error) prog" where
  "store_code_msg ch st sender code =
     m_bind (m_lift (of_option (map_vm_error Vm_Other) (vm_store_code (ch_vm ch) code))) (\<lambda>(checksum, capabilities).
     let info = \<lparr>code_creator = sender, code_checksum = checksum, code_pinned = False\<rparr> in
     m_bind (next_id ch st) (\<lambda>i.
     m_bind (m_map_err pulsar_of_plus
       (map_save (wasm_store st) (vm_bytes (ch_vm ch)) CODE_BYTES [checksum] code)) (\<lambda>_.
     m_bind (save_code ch st i info) (\<lambda>_.
     m_ret \<lparr>mr_events = [wasm_event ''store_code'' ((ascii ''code_id'', show_nat i) # map (\<lambda>c. (ascii ''feature'', c)) capabilities)],
            mr_data = MsgData_Wasm (Data_Store i checksum)\<rparr>))))"

definition migrate_msg ::
  "chain \<Rightarrow> 's sm_calls \<Rightarrow> 's storage \<Rightarrow> block_info \<Rightarrow> account_id \<Rightarrow> account_id \<Rightarrow> nat \<Rightarrow> bytes \<Rightarrow> bool
     \<Rightarrow> ('s \<times> gas_meter, msg_response, pulsar_error) prog" where
  "migrate_msg ch sm st block sender contract_addr new_code_id msg allow_submsg =
     m_bind (m_read (load_contract ch st contract_addr)) (\<lambda>contract.
     m_bind (m_ensure (is_admin contract sender) (PE_Wasm Unauthorized_Wasm)) (\<lambda>_.
     m_bind (remove_contract_by_code st contract_addr contract) (\<lambda>_.
     m_bind (m_read (load_code ch st new_code_id)) (\<lambda>code.
     let contract' = contract\<lparr>con_code_id := new_code_id\<rparr> in
     m_bind (save_contract ch st contract_addr contract') (\<lambda>_.
     m_bind (save_contract_by_code ch st contract_addr contract') (\<lambda>_.
     run_entry ch sm st block code contract_addr (\<lambda>env. Call_Migrate env msg)
       (wasm_event ''migrate'' [(ascii ''code_id'', show_nat new_code_id),
          (CONTRACT_ATTR, c_bech32_encode (ch_crypto ch) contract_addr)])
       Data_Migrate allow_submsg))))))"

definition set_admin_msg ::
  "chain \<Rightarrow> 's storage \<Rightarrow> account_id \<Rightarrow> account_id \<Rightarrow> account_id option \<Rightarrow> event \<Rightarrow> wasm_msg_data
     \<Rightarrow> ('s \<times> gas_meter, msg_response, pulsar_error) prog" where
  "set_admin_msg ch st sender contract_addr admin event data =
     m_bind (m_read (load_contract ch st contract_addr)) (\<lambda>contract.
     m_bind (m_ensure (is_admin contract sender) (PE_Wasm Unauthorized_Wasm)) (\<lambda>_.
     m_bind (save_contract ch st contract_addr (contract\<lparr>con_admin := admin\<rparr>)) (\<lambda>_.
     m_ret \<lparr>mr_events = [event], mr_data = MsgData_Wasm data\<rparr>)))"

definition pin_msg :: "chain \<Rightarrow> 's storage \<Rightarrow> nat \<Rightarrow> ('s \<times> gas_meter, msg_response, pulsar_error) prog" where
  "pin_msg ch st code_id =
     m_bind (m_read (load_code ch st code_id)) (\<lambda>code.
     m_bind (if code_pinned code then m_ret ()
             else let code' = code\<lparr>code_pinned := True\<rparr> in
                  m_bind (save_code ch st code_id code') (\<lambda>_.
                  m_bind (m_lift (get_checksum_not_executing code')) (\<lambda>checksum.
                  m_bind (m_map_err map_vm_error (m_read (ensure_cached (ch_vm ch) st checksum))) (\<lambda>_.
                  m_bind (m_cache_ok (vm_pin (ch_vm ch) checksum)) (\<lambda>_.
                  m_map_err pulsar_of_plus (map_save (wasm_store st) (ch_empty ch) PINNED [u64_to_be_bytes code_id] ())))))) (\<lambda>_.
     m_ret \<lparr>mr_events = [code_event ''pin_code'' code_id], mr_data = MsgData_Wasm Data_PinCode\<rparr>))"

definition unpin_msg :: "chain \<Rightarrow> 's storage \<Rightarrow> nat \<Rightarrow> ('s \<times> gas_meter, msg_response, pulsar_error) prog" where
  "unpin_msg ch st code_id =
     m_bind (m_read (load_code ch st code_id)) (\<lambda>code.
     m_bind (if \<not> code_pinned code then m_ret ()
             else let code' = code\<lparr>code_pinned := False\<rparr> in
                  m_bind (save_code ch st code_id code') (\<lambda>_.
                  m_bind (m_lift (get_checksum_not_executing code')) (\<lambda>checksum.
                  m_bind (m_cache_ok (vm_unpin (ch_vm ch) checksum)) (\<lambda>_.
                  m_map_err PE_Gas (map_remove (wasm_store st) PINNED [u64_to_be_bytes code_id]))))) (\<lambda>_.
     m_ret \<lparr>mr_events = [code_event ''unpin_code'' code_id], mr_data = MsgData_Wasm Data_UnpinCode\<rparr>))"

text \<open>\<open>Wasm::_process_msg\<close>. \<open>Sudo\<close>, \<open>Pin\<close> and \<open>Unpin\<close> compare the sender with the root account only.\<close>

fun wasm_process_msg ::
  "chain \<Rightarrow> 's sm_calls \<Rightarrow> 's storage \<Rightarrow> block_info \<Rightarrow> account_id \<Rightarrow> wasm_msg \<Rightarrow> bool
     \<Rightarrow> ('s \<times> gas_meter, msg_response, pulsar_error) prog" where
  "wasm_process_msg ch sm st block who (StoreCode sender code) allow_submsg =
     m_bind (m_ensure (who = sender) (PE_Wasm SenderMismatch)) (\<lambda>_. store_code_msg ch st sender code)"
| "wasm_process_msg ch sm st block who (Instantiate sender admin code_id msg funds label) allow_submsg =
     m_bind (m_ensure (who = sender) (PE_Wasm SenderMismatch)) (\<lambda>_.
     m_bind (m_read (load_code ch st code_id)) (\<lambda>code.
     m_bind (generate_address ch st sender code_id) (\<lambda>contract_addr.
     do_instantiate ch sm st block who contract_addr code_id code admin msg funds label allow_submsg)))"
| "wasm_process_msg ch sm st block who (Instantiate2 sender admin code_id label msg funds salt) allow_submsg =
     m_bind (m_ensure (who = sender) (PE_Wasm SenderMismatch)) (\<lambda>_.
     m_bind (m_read (load_code ch st code_id)) (\<lambda>code.
     m_bind (m_ensure (length (code_checksum code) = 32) (PE_Wasm Checksum)) (\<lambda>_.
     m_bind (m_lift (build_instantiate_2_address (ch_crypto ch) (code_checksum code) sender salt [])) (\<lambda>contract_addr.
     do_instantiate ch sm st block who contract_addr code_id code admin msg funds label allow_submsg))))"
| "wasm_process_msg ch sm st block who (Execute sender contract_addr msg funds) allow_submsg =
     m_bind (m_ensure (who = sender) (PE_Wasm SenderMismatch)) (\<lambda>_.
     m_bind (m_read (load_contract ch st contract_addr)) (\<lambda>contract.
     m_bind (m_read (load_code ch st (con_code_id contract))) (\<lambda>code.
     m_bind (if funds \<noteq> [] then bank_transfer (bank_of ch sm) st block sender contract_addr funds else m_ret ()) (\<lambda>_.
     run_entry ch sm st block code contract_addr
       (\<lambda>env. Call_Execute env (build_info (ch_crypto ch) sender funds) msg)
       (addr_event (ch_crypto ch) ''execute'' contract_addr) Data_Execute allow_submsg))))"
| "wasm_process_msg ch sm st block who (Migrate sender contract_addr new_code_id msg) allow_submsg =
     m_bind (m_ensure (who = sender) (PE_Wasm SenderMismatch)) (\<lambda>_.
     migrate_msg ch sm st block sender contract_addr new_code_id msg allow_submsg)"
| "wasm_process_msg ch sm st block who (ClearAdmin sender contract_addr) allow_submsg =
     m_bind (m_ensure (who = sender) (PE_Wasm SenderMismatch)) (\<lambda>_.
     set_admin_msg ch st sender contract_addr None (addr_event (ch_crypto ch) ''clear_admin'' contract_addr) Data_ClearAdmin)"
| "wasm_process_msg ch sm st block who (UpdateAdmin sender contract_addr admin) allow_submsg =
     m_bind (m_ensure (who = sender) (PE_Wasm SenderMismatch)) (\<lambda>_.
     set_admin_msg ch st sender contract_addr (Some admin)
       (wasm_event ''update_admin'' [(CONTRACT_ATTR, c_bech32_encode (ch_crypto ch) contract_addr),
          (ascii ''admin'', c_bech32_encode (ch_crypto ch) admin)]) Data_UpdateAdmin)"
| "wasm_process_msg ch sm st block who (Sudo sender contract_addr msg) allow_submsg =
     m_bind (m_ensure (sender = ROOT_ADDR) (PE_Wasm NotRoot)) (\<lambda>_.
     m_bind (m_read (load_contract ch st contract_addr)) (\<lambda>contract.
     m_bind (m_read (load_code ch st (con_code_id contract))) (\<lambda>code.
     run_entry ch sm st block code contract_addr (\<lambda>env. Call_Sudo env msg)
       (addr_event (ch_crypto ch) ''sudo'' contract_addr) Data_Sudo allow_submsg)))"
| "wasm_process_msg ch sm st block who (Pin sender code_id) allow_submsg =
     m_bind (m_ensure (sender = ROOT_ADDR) (PE_Wasm NotRoot)) (\<lambda>_. pin_msg ch st code_id)"
| "wasm_process_msg ch sm st block who (Unpin sender code_id) allow_submsg =
     m_bind (m_ensure (sender = ROOT_ADDR) (PE_Wasm NotRoot)) (\<lambda>_. unpin_msg ch st code_id)"

text \<open>\<open>Wasm::init\<close> installs the root contract and instantiates it at its fixed address.\<close>

definition wasm_init ::
  "chain \<Rightarrow> 's sm_calls \<Rightarrow> 's storage \<Rightarrow> block_info \<Rightarrow> bytes \<Rightarrow> ('s \<times> gas_meter, unit, pulsar_error) prog" where
  "wasm_init ch sm st block gov =
     m_bind (m_lift (msg_address (ch_crypto ch) gov)) (\<lambda>gov_account.
     m_bind (m_lift (of_option (map_vm_error Vm_Other) (vm_store_code (ch_vm ch) (ch_root_wasm ch)))) (\<lambda>(checksum, _).
     let info = \<lparr>code_creator = gov_account, code_checksum = checksum, code_pinned = True\<rparr> in
     m_bind (next_id ch st) (\<lambda>code_id.
     m_bind (save_code ch st code_id info) (\<lambda>_.
     m_bind (m_map_err pulsar_of_plus
       (map_save (wasm_store st) (vm_bytes (ch_vm ch)) CODE_BYTES [checksum] (ch_root_wasm ch))) (\<lambda>_.
     m_bind (m_lift (get_checksum_not_executing info)) (\<lambda>pinned.
     m_bind (m_cache_ok (vm_pin (ch_vm ch) pinned)) (\<lambda>_.
     m_bind (m_map_err pulsar_of_plus (map_save (wasm_store st) (ch_empty ch) PINNED [u64_to_be_bytes code_id] ())) (\<lambda>_.
     m_bind (m_lift (of_option (PE_Std SerializeErr) (ch_root_instantiate ch (c_bech32_encode (ch_crypto ch) gov_account)))) (\<lambda>msg.
     m_bind (do_instantiate ch sm st block gov_account ROOT_ADDR code_id info (Some gov_account) msg [] (ascii ''Root Contract'') True) (\<lambda>_.
     m_ret ()))))))))))"

section \<open>Queries\<close>

definition smart_query ::
  "chain \<Rightarrow> 's sm_calls \<Rightarrow> 's storage \<Rightarrow> block_info \<Rightarrow> account_id \<Rightarrow> bytes \<Rightarrow> 's \<Rightarrow> (gas_meter, bytes, pulsar_error) prog" where
  "smart_query ch sm st block contract_addr msg s =
     m_bind (load_contract ch st contract_addr s) (\<lambda>contract.
     m_bind (load_code ch st (con_code_id contract) s) (\<lambda>code.
     m_bind (m_map_err PE_Gas (charge (if code_pinned code then LOAD_PINNED_WASM_GAS else LOAD_WASM_GAS))) (\<lambda>_.
     m_bind (m_lift (get_checksum_not_executing code)) (\<lambda>checksum.
     m_bind (cache_query (ch_crypto ch) (ch_vm ch) st (\<lambda>s q. sm_query sm st block q s) checksum
               (build_env (ch_crypto ch) block contract_addr) msg contract_addr s) (\<lambda>(result, gas).
     m_bind (m_map_err PE_Gas (charge gas)) (\<lambda>_.
     m_lift (map_cache_result result)))))))"

definition code_response :: "nat \<Rightarrow> code_info \<Rightarrow> code_info_response" where
  "code_response code_id code =
     \<lparr>cd_code_id = code_id, cd_creator = code_creator code, cd_checksum = code_checksum code, cd_pinned = code_pinned code\<rparr>"

fun wasm_do_query ::
  "chain \<Rightarrow> 's sm_calls \<Rightarrow> 's storage \<Rightarrow> block_info \<Rightarrow> wasm_query \<Rightarrow> 's \<Rightarrow> (gas_meter, wasm_query_response, pulsar_error) prog" where
  "wasm_do_query ch sm st block (Smart_Query contract_addr msg) s =
     m_bind (smart_query ch sm st block contract_addr msg s) (\<lambda>data. m_ret (Resp_Smart_Data data))"
| "wasm_do_query ch sm st block (Raw_Query contract_addr key) s =
     m_bind (m_lift (contract_storage st contract_addr)) (\<lambda>sub_store.
     m_bind (m_map_err PE_Gas (rd_get sub_store s key)) (\<lambda>data.
     m_ret (Resp_Raw (case data of None \<Rightarrow> [] | Some d \<Rightarrow> d))))"
| "wasm_do_query ch sm st block (ContractInfo contract_addr) s =
     m_bind (load_contract ch st contract_addr s) (\<lambda>contract.
     m_bind (load_code ch st (con_code_id contract) s) (\<lambda>code.
     m_ret (Resp_ContractInfo
       \<lparr>ci_address = contract_addr, ci_code_id = con_code_id contract, ci_creator = con_creator contract,
        ci_admin = con_admin contract, ci_label = con_label contract, ci_pinned = code_pinned code,
        ci_ibc_port = None, ci_created = con_created contract\<rparr>)))"
| "wasm_do_query ch sm st block (CodeInfo code_id include_wasm) s =
     m_bind (load_code ch st code_id s) (\<lambda>code.
     m_bind (m_ensure (length (code_checksum code) = 32) (PE_Wasm Checksum)) (\<lambda>_.
     m_bind (if include_wasm
             then m_map_err (\<lambda>_. PE_Wasm Vm) (map_load (wasm_store st) (vm_bytes (ch_vm ch)) CODE_BYTES [code_checksum code] s)
             else m_ret []) (\<lambda>data.
     m_ret (Resp_CodeInfo (code_response code_id code) data))))"
| "wasm_do_query ch sm st block (ListCodes from lim) s =
     (let start = map_option (\<lambda>f. Inclusive (u64_to_be_bytes f)) from;
          max_page = (case lim of None \<Rightarrow> 100 | Some n \<Rightarrow> n)
      in m_bind (m_lift (u64_add (case from of None \<Rightarrow> 0 | Some f \<Rightarrow> f) max_page)) (\<lambda>end_id.
         m_bind (m_lift (prefix_new CODES [])) (\<lambda>prefix.
         m_bind (m_map_err pulsar_of_plus (prefix_range (wasm_store st) (ch_u64_from_vec ch) (ch_code_info ch) prefix
                   start (Some (Exclusive (u64_to_be_bytes end_id))) Ascending s)) (\<lambda>codes.
         m_ret (Resp_ListCodes (map (\<lambda>(k, v). code_response k v) codes))))))"
| "wasm_do_query ch sm st block (ContractsByCode code_id) s =
     m_bind (m_map_err pulsar_of_plus (map_prefix_range (wasm_store st) (ch_account_from_vec ch) (ch_bool ch)
               CONTRACTS_BY_CODE [u64_to_be_bytes code_id] s)) (\<lambda>contracts.
     m_ret (Resp_ContractsByCode (map fst contracts)))"

section \<open>Everything goes through the storage\<close>

text \<open>What the module relies on: the state machine it calls writes through the storage it is given.\<close>

definition sm_via :: "'s sm_calls \<Rightarrow> bool" where
  "sm_via sm \<longleftrightarrow>
     (\<forall>st who block m. via st (sm_process sm st who block m)) \<and>
     (\<forall>st block who m. via st (sm_wasm_sandboxed sm st block who m)) \<and>
     (\<forall>st block c h ms p b. via st (sm_dispatch sm st block c h ms p b))"

lemma sm_viaD:
  assumes "sm_via sm"
  shows "via st (sm_process sm st who block m)" "via st (sm_wasm_sandboxed sm st block who wm)"
    "via st (sm_dispatch sm st block c h ms p b)" "bank_env_via (bank_of ch sm) st"
  using assms by (auto simp: sm_via_def bank_env_via_def bank_of_def intro!: via_rules)

lemma via_wasm_store: "via (wasm_store st) p \<Longrightarrow> via st p"
  by (auto simp: wasm_store_def intro: via_prefixed)

lemma via_wasm_raw [via_rules]:
  "via st (map_save (wasm_store st) cd n ks x)" "via st (map_remove (wasm_store st) n ks)"
  "via st (item_save (wasm_store st) cn k n')"
  by (rule via_wasm_store, rule via_rules)+

lemma via_wasm_save [via_rules]:
  "via st (save_contract ch st a c)" "via st (save_contract_by_code ch st a c)" "via st (remove_contract_by_code st a c)"
  "via st (save_code ch st i info)"
  unfolding save_contract_def save_contract_by_code_def remove_contract_by_code_def save_code_def
  by (intro via_rules)+

lemma via_wasm_helpers [via_rules]:
  "via st (next_count ch st k)" "via st (generate_address ch st sender code_id)" "via st (get_checksum_to_execute code)"
  "via st (next_id ch st)" "via st (m_cache_ok b)"
  by (auto simp: next_count_def generate_address_def get_checksum_to_execute_def next_id_def m_cache_ok_def intro!: via_rules)

lemma via_vm_execute [via_rules]: "via st (vm_execute ch sm st block h e c)"
  by (auto simp: vm_execute_def intro!: via_rules)

lemma via_apply: "(\<And>sg0. via st (f sg0)) \<Longrightarrow> via st (\<lambda>sg. f sg sg)"
  unfolding via_def preserves_def by blast

lemma via_dispatch_one:
  assumes "sm_via sm"
  shows "via st (dispatch_one ch sm st block c h b m p)"
  unfolding dispatch_one_def Let_def
  by (rule via_apply, intro via_rules sm_viaD [OF assms])

lemma via_dispatch [via_rules]:
  assumes "sm_via sm"
  shows "via st (dispatch_response_messages ch sm st block c h ms p b)"
proof -
  have "via st (dispatch_loop ch sm st block c h b ms p)" for p
    by (induction ms arbitrary: p) (auto intro!: via_rules via_dispatch_one [OF assms])
  then show ?thesis by (auto simp: dispatch_response_messages_def intro!: via_rules)
qed

lemma via_run_entry:
  assumes "sm_via sm"
  shows "via st (run_entry ch sm st block code c e ev mk b)"
  unfolding run_entry_def by (intro via_rules assms)

lemma via_do_instantiate:
  assumes "sm_via sm"
  shows "via st (do_instantiate ch sm st block sender c code_id code admin m funds label b)"
  unfolding do_instantiate_def
  by (intro via_rules via_claim_internal via_transfer via_run_entry sm_viaD(4) assms)

lemma via_handlers [via_rules]:
  assumes "sm_via sm"
  shows "via st (store_code_msg ch st sender code)" "via st (migrate_msg ch sm st block sender c i m b)"
    "via st (set_admin_msg ch st sender c admin ev d)" "via st (pin_msg ch st i)" "via st (unpin_msg ch st i)"
  unfolding store_code_msg_def migrate_msg_def set_admin_msg_def pin_msg_def unpin_msg_def
  by (intro via_rules via_run_entry [OF assms])+

lemma via_wasm_process_msg:
  assumes "sm_via sm"
  shows "via st (wasm_process_msg ch sm st block who m b)"
  by (cases m) (auto intro!: via_rules via_transfer via_run_entry via_do_instantiate sm_viaD(4) assms)

lemma via_wasm_init:
  assumes "sm_via sm"
  shows "via st (wasm_init ch sm st block gov)"
  unfolding wasm_init_def by (intro via_rules via_do_instantiate [OF assms])

lemma u64_bytes_roundtrip: "n \<le> u64_max \<Longrightarrow> u64_from_be_bytes (u64_to_be_bytes n) = n"
proof -
  assume n: "n \<le> u64_max"
  have step: "256 * (n div (2 ^ (8 * Suc i))) + n div 2 ^ (8 * i) mod 256 = n div 2 ^ (8 * i)" for i :: nat
  proof -
    have "n div (2 ^ (8 * Suc i)) = n div 2 ^ (8 * i) div 256" by (simp add: div_mult2_eq [symmetric] power_add mult.commute)
    then show ?thesis by simp
  qed
  have "n div 2 ^ 64 = 0" using n by (simp add: u64_max_def)
  with step [of 7] step [of 6] step [of 5] step [of 4] step [of 3] step [of 2] step [of 1] step [of 0] show ?thesis
    by (simp add: u64_from_be_bytes_def u64_to_be_bytes_def upt_rec unat_of_nat)
qed

lemma u64_bytes_inject: "\<lbrakk>a \<le> u64_max; b \<le> u64_max; u64_to_be_bytes a = u64_to_be_bytes b\<rbrakk> \<Longrightarrow> a = b"
  by (metis u64_bytes_roundtrip)

section \<open>What the handlers mean\<close>

definition contract_key :: "account_id \<Rightarrow> bytes" where
  "contract_key a = lp NAMESPACE_WASM @ lp CONTRACTS @ a"

definition stored_contract :: "contract_data codec \<Rightarrow> (bytes \<Rightarrow> bytes option) \<Rightarrow> account_id \<Rightarrow> contract_data option" where
  "stored_contract c m a = typed c m (contract_key a)"

lemma contracts_length [simp]: "length CONTRACTS = 9"
  by (simp add: CONTRACTS_def ascii_def)

lemma contracts_path: "map_key CONTRACTS [a] = Ok p \<longleftrightarrow> p = lp CONTRACTS @ a"
  by (simp add: map_key_def path_new_Ok)

lemma contract_key_inject [simp]: "contract_key a = contract_key b \<longleftrightarrow> a = b"
  by (simp add: contract_key_def)

lemma stored_contract_upd:
  "codec_ok c \<Longrightarrow> enc c x = Some b \<Longrightarrow> stored_contract c (m(contract_key a \<mapsto> b)) = (stored_contract c m)(a \<mapsto> x)"
  by (auto simp: stored_contract_def fun_eq_iff typed_upd)

text \<open>The value of a counter of the module, and the string that an address is the hash of.\<close>

definition counter :: "chain \<Rightarrow> (bytes \<Rightarrow> bytes option) \<Rightarrow> bytes \<Rightarrow> nat" where
  "counter ch m key = (case typed (ch_u64 ch) m (lp NAMESPACE_WASM @ key) of None \<Rightarrow> 0 | Some n \<Rightarrow> n)"

definition address_input :: "account_id \<Rightarrow> nat \<Rightarrow> nat \<Rightarrow> bytes" where
  "address_input sender code_id n = sender @ u64_to_be_bytes code_id @ u64_to_be_bytes n"

context storage_laws
begin

lemma wasm_store_laws: "storage_laws (wasm_store rd) (\<lambda>s k. view s (lp NAMESPACE_WASM @ k)) inv"
  unfolding wasm_store_def by (rule prefixed_laws [OF lp_wasm])

lemma load_contract_view:
  assumes "load_contract ch rd a s g = (Ok c, g')" "inv s"
  shows "stored_contract (ch_contract ch) (view s) a = Some c"
proof -
  have "path_load (wasm_store rd) (ch_contract ch) (lp CONTRACTS @ a) s g = (Ok c, g')"
    using assms(1) by (auto simp: load_contract_def m_map_err_Ok map_load_def m_bind_Ok contracts_path)
  from reader_laws.path_load_view [OF storage_laws.axioms(1) [OF wasm_store_laws] this assms(2)]
  show ?thesis by (simp add: stored_contract_def contract_key_def typed_def)
qed

lemma save_contract_fail:
  assumes "save_contract ch rd a c (s, g) = (r, (s', g'))" "r \<noteq> Ok ()"
  shows "s' = s"
proof -
  have "\<exists>r'. map_save (wasm_store rd) (ch_contract ch) CONTRACTS [a] c (s, g) = (r', (s', g')) \<and> r' \<noteq> Ok ()"
    using assms by (auto simp: save_contract_def m_map_err_def split: prod.splits outcome.splits)
  then obtain r' where r': "map_save (wasm_store rd) (ch_contract ch) CONTRACTS [a] c (s, g) = (r', (s', g'))" "r' \<noteq> Ok ()"
    by blast
  show ?thesis
  proof (cases "map_key CONTRACTS [a] :: (bytes, plus_error) outcome")
    case (Ok p)
    with r' have "path_save (wasm_store rd) (ch_contract ch) p c (s, g) = (r', (s', g'))"
      by (simp add: map_save_def m_bind_def m_lift_def)
    from storage_laws.path_save_fail [OF wasm_store_laws this r'(2)] show ?thesis .
  qed (use r' in \<open>auto simp: map_save_def m_bind_def m_lift_def\<close>)
qed

lemma save_contract_view:
  assumes "save_contract ch rd a c (s, g) = (Ok u, (s', g'))" "inv s" "codec_ok (ch_contract ch)"
  shows "inv s'" "stored_contract (ch_contract ch) (view s') = (stored_contract (ch_contract ch) (view s))(a \<mapsto> c)"
    "k \<noteq> contract_key a \<Longrightarrow> view s' k = view s k"
proof -
  from assms(1) obtain b where b: "enc (ch_contract ch) c = Some b"
    and set: "st_set rd (contract_key a) b (s, g) = (Ok (), (s', g'))"
    by (auto simp: save_contract_def m_map_err_Ok map_save_def path_save_def m_bind_Ok contracts_path plus_simps to_json_vec_def
        wasm_store_def prefixed_storage_def prefixed_set_def contract_key_def split: option.splits)
  from set_ok [OF assms(2) set] b assms(3) show "inv s'"
    "stored_contract (ch_contract ch) (view s') = (stored_contract (ch_contract ch) (view s))(a \<mapsto> c)"
    "k \<noteq> contract_key a \<Longrightarrow> view s' k = view s k"
    by (simp_all add: stored_contract_upd)
qed

text \<open>A handler that starts by loading the contract and checking the sender against its admin.\<close>

lemma admin_guard:
  assumes run: "m_bind (m_ensure (who = sender) e) (\<lambda>_. m_bind (m_read (load_contract ch rd a)) (\<lambda>c.
      m_bind (m_ensure (is_admin c sender) e') (\<lambda>_. f c))) (s, g) = (r, (s', g'))" and "inv s"
  obtains (refused) "s' = s" "\<not> (\<exists>x. r = Ok x)"
    | (granted) c g1 where "stored_contract (ch_contract ch) (view s) a = Some c" "who = sender" "is_admin c who"
        "f c (s, g1) = (r, (s', g'))"
proof -
  obtain q g1 where load: "load_contract ch rd a s g = (q, g1)" by (metis prod.exhaust)
  show thesis
  proof (cases "who = sender \<and> (\<exists>c. q = Ok c \<and> is_admin c who)")
    case True
    then obtain c where c: "q = Ok c" "is_admin c who" "who = sender" by blast
    from load_contract_view [OF load [unfolded c(1)] assms(2)] have "stored_contract (ch_contract ch) (view s) a = Some c" .
    moreover have "f c (s, g1) = (r, (s', g'))" using run load c by (simp add: m_bind_def m_ensure_def m_ret_def m_read_def)
    ultimately show thesis using granted c by blast
  next
    case False
    with run load have "s' = s \<and> \<not> (\<exists>x. r = Ok x)"
      by (cases q) (auto simp: m_bind_def m_ensure_def m_ret_def m_err_def m_read_def split: if_splits)
    with refused show thesis by blast
  qed
qed

lemma set_admin_view:
  assumes run: "m_bind (m_ensure (who = sender) e) (\<lambda>_. set_admin_msg ch rd sender a adm ev d) (s, g) = (r, (s', g'))"
    and "inv s" "codec_ok (ch_contract ch)"
  obtains (refused) "s' = s" "\<not> (\<exists>x. r = Ok x)"
    | (granted) c where "stored_contract (ch_contract ch) (view s) a = Some c" "who = sender" "is_admin c who"
        "stored_contract (ch_contract ch) (view s') a = Some (c\<lparr>con_admin := adm\<rparr>)"
        "\<forall>k. k \<noteq> contract_key a \<longrightarrow> view s' k = view s k"
  using run [unfolded set_admin_msg_def] assms(2)
proof (cases rule: admin_guard)
  case refused
  then show thesis by (rule that(1))
next
  case (granted c g1)
  obtain q s2 g2 where q: "save_contract ch rd a (c\<lparr>con_admin := adm\<rparr>) (s, g1) = (q, (s2, g2))" by (metis prod.exhaust)
  show thesis
  proof (cases "q = Ok ()")
    case True
    with granted(4) q have "s' = s2" by (simp add: m_bind_def m_ret_def)
    with save_contract_view [OF q [unfolded True] assms(2,3)] granted show thesis by (intro that(2)) simp_all
  next
    case False
    with granted(4) q have "s' = s2 \<and> \<not> (\<exists>x. r = Ok x)" by (cases q) (auto simp: m_bind_def)
    with save_contract_fail [OF q False] show thesis by (intro that(1)) simp_all
  qed
qed

lemma next_count_view:
  assumes "next_count ch rd key (s, g) = (Ok n, (s', g'))" "inv s" "codec_ok (ch_u64 ch)"
  shows "inv s'" "n = counter ch (view s) key + 1" "n \<le> u64_max" "counter ch (view s') key = n"
proof -
  from assms(1) obtain old g1 where load: "item_may_load (wasm_store rd) (ch_u64 ch) key s g = (Ok old, g1)"
    and n: "n = (case old of None \<Rightarrow> 0 | Some i \<Rightarrow> i) + 1" "n \<le> u64_max"
    and save: "item_save (wasm_store rd) (ch_u64 ch) key n (s, g1) = (Ok (), (s', g'))"
    unfolding next_count_def by (fastforce simp: m_bind_Ok m_map_err_Ok m_lift_run)
  from save obtain b where b: "enc (ch_u64 ch) n = Some b"
    and set: "st_set rd (lp NAMESPACE_WASM @ key) b (s, g1) = (Ok (), (s', g'))"
    by (auto simp: item_save_def m_bind_Ok plus_simps to_json_vec_def wasm_store_def prefixed_storage_def prefixed_set_def
        split: option.splits)
  have "path_may_load (wasm_store rd) (ch_u64 ch) key s g = (Ok old, g1)"
    using load by (simp add: item_may_load_def path_may_load_def)
  from reader_laws.path_may_load_view [OF storage_laws.axioms(1) [OF wasm_store_laws] this assms(2)]
  have "old = typed (ch_u64 ch) (view s) (lp NAMESPACE_WASM @ key)" by (simp add: typed_def)
  with n show "n = counter ch (view s) key + 1" "n \<le> u64_max" by (simp_all add: counter_def)
  from set_ok [OF assms(2) set] b assms(3) show "inv s'" "counter ch (view s') key = n"
    by (simp_all add: counter_def typed_upd)
qed

lemma generate_address_view:
  assumes "generate_address ch rd sender code_id (s, g) = (Ok a, (s', g'))" "inv s" "codec_ok (ch_u64 ch)"
  shows "counter ch (view s') CONTRACT_COUNTER = counter ch (view s) CONTRACT_COUNTER + 1"
    "counter ch (view s') CONTRACT_COUNTER \<le> u64_max"
    "a = c_sha256 (ch_crypto ch) (address_input sender code_id (counter ch (view s') CONTRACT_COUNTER))"
proof -
  from assms(1) obtain n where n: "next_count ch rd CONTRACT_COUNTER (s, g) = (Ok n, (s', g'))"
    and a: "build_instantiate_address (ch_crypto ch) sender code_id n = Ok a"
    by (auto simp: generate_address_def m_bind_Ok m_lift_run)
  have "a = c_sha256 (ch_crypto ch) (address_input sender code_id n)"
    using a by (auto simp: build_instantiate_address_def address_input_def account_id_new_def split: outcome.splits if_splits)
  with next_count_view [OF n assms(2,3)] show "counter ch (view s') CONTRACT_COUNTER = counter ch (view s) CONTRACT_COUNTER + 1"
    "counter ch (view s') CONTRACT_COUNTER \<le> u64_max"
    "a = c_sha256 (ch_crypto ch) (address_input sender code_id (counter ch (view s') CONTRACT_COUNTER))" by simp_all
qed

end

section \<open>Properties\<close>

text \<open>
  C37. Only the admin of a contract, or the root contract, can migrate it or change its admin. An
  admin message of anybody else is refused and changes nothing; a successful change of the admin
  replaces the admin in the contract's record, and no other entry of the state.
\<close>

theorem contract_admin_only:
  assumes run: "wasm_process_msg ch sm tx_store blk who m b (so, g) = (r, (so', g'))" and inv: "tx_inv so"
    and ok: "codec_ok (ch_contract ch)"
    and m: "m \<in> {Migrate sender a i x, ClearAdmin sender a, UpdateAdmin sender a n}"
  shows "case stored_contract (ch_contract ch) (tx_view so) a of
      Some c \<Rightarrow>
        if who = sender \<and> is_admin c who
        then m = Migrate sender a i x \<or> so' = so \<and> \<not> (\<exists>resp. r = Ok resp) \<or>
          stored_contract (ch_contract ch) (tx_view so') a =
            Some (c\<lparr>con_admin := if m = ClearAdmin sender a then None else Some n\<rparr>) \<and>
          (\<forall>k. k \<noteq> contract_key a \<longrightarrow> tx_view so' k = tx_view so k)
        else so' = so \<and> \<not> (\<exists>resp. r = Ok resp)
    | None \<Rightarrow> so' = so \<and> \<not> (\<exists>resp. r = Ok resp)"
proof -
  let ?claim = "\<lambda>adm. so' = so \<and> \<not> (\<exists>resp. r = Ok resp) \<or> (\<exists>c. stored_contract (ch_contract ch) (tx_view so) a = Some c \<and>
      who = sender \<and> is_admin c who \<and> stored_contract (ch_contract ch) (tx_view so') a = Some (c\<lparr>con_admin := adm\<rparr>) \<and>
      (\<forall>k. k \<noteq> contract_key a \<longrightarrow> tx_view so' k = tx_view so k))"
  have set: "?claim adm" if "m_bind (m_ensure (who = sender) e) (\<lambda>_. set_admin_msg ch tx_store sender a adm ev d) (so, g) = (r, (so', g'))"
    for e ev d adm
    using that inv ok by (cases rule: metered_tx.set_admin_view) auto
  from m consider "m = Migrate sender a i x" | "m = ClearAdmin sender a" | "m = UpdateAdmin sender a n" by blast
  then show ?thesis
  proof cases
    case 1
    from run [unfolded 1 wasm_process_msg.simps migrate_msg_def] inv show ?thesis
      by (cases rule: metered_tx.admin_guard) (use 1 in \<open>auto split: option.split\<close>)
  next
    case 2
    from set [OF run [unfolded 2 wasm_process_msg.simps]] 2 show ?thesis by (auto split: option.split)
  next
    case 3
    from set [OF run [unfolded 3 wasm_process_msg.simps]] 3 show ?thesis by (auto split: option.split)
  qed
qed

text \<open>A chain with readable codecs around a VM.\<close>

definition contract_bytes :: "contract_data \<Rightarrow> bytes" where
  "contract_bytes c = fields_enc [replicate (con_code_id c) 0, con_creator c,
     (case con_admin c of None \<Rightarrow> [0] | Some a \<Rightarrow> 1 # a), con_label c, replicate (con_created c) 0]"

definition test_contract_codec :: "contract_data codec" where
  "test_contract_codec =
     \<lparr>enc = (\<lambda>c. Some (contract_bytes c)),
      dec = (\<lambda>b. case fields_dec 5 b of
         [i, cr, ad, l, n] \<Rightarrow> Some \<lparr>con_code_id = length i, con_creator = cr,
            con_admin = (if hd ad = 0 then None else Some (tl ad)), con_label = l, con_created = length n\<rparr>
       | _ \<Rightarrow> None)\<rparr>"

definition code_bytes :: "code_info \<Rightarrow> bytes" where
  "code_bytes c = fields_enc [code_creator c, code_checksum c, if code_pinned c then [1] else []]"

definition test_code_codec :: "code_info codec" where
  "test_code_codec =
     \<lparr>enc = (\<lambda>c. Some (code_bytes c)),
      dec = (\<lambda>b. case fields_dec 3 b of
         [a, h, p] \<Rightarrow> Some \<lparr>code_creator = a, code_checksum = h, code_pinned = (p \<noteq> [])\<rparr> | _ \<Rightarrow> None)\<rparr>"

lemma test_codecs [simp]:
  "enc test_contract_codec c = Some (contract_bytes c)" "dec test_contract_codec (contract_bytes c) = Some c"
  "enc test_code_codec i = Some (code_bytes i)" "dec test_code_codec (code_bytes i) = Some i"
  by (simp_all add: test_contract_codec_def contract_bytes_def test_code_codec_def code_bytes_def fields_enc_def
      eval_nat_numeral split: option.split)

lemma test_codec_lengths [simp]:
  "length (contract_bytes c) = 2 * (con_code_id c + length (con_creator c) +
     (case con_admin c of None \<Rightarrow> 1 | Some a \<Rightarrow> Suc (length a)) + length (con_label c) + con_created c) + 5"
  "length (code_bytes i) = 2 * (length (code_creator i) + length (code_checksum i) + (if code_pinned i then 1 else 0)) + 3"
  by (simp_all add: contract_bytes_def code_bytes_def fields_enc_length split: option.split)

lemma test_contract_codec_ok: "codec_ok test_contract_codec"
  by (simp add: codec_ok_def)

definition null_codec :: "'a codec" where
  "null_codec = \<lparr>enc = \<lambda>_. None, dec = \<lambda>_. None\<rparr>"

definition test_chain :: "vm \<Rightarrow> chain" where
  "test_chain v =
     \<lparr>ch_crypto = padding_crypto, ch_vm = v, ch_u128 = unary_codec, ch_u64 = unary_codec,
      ch_bool = \<lparr>enc = \<lambda>b. Some (if b then [1] else []), dec = \<lambda>x. Some (x \<noteq> [])\<rparr>,
      ch_empty = \<lparr>enc = \<lambda>_. Some [], dec = \<lambda>_. Some ()\<rparr>, ch_account = account_codec,
      ch_code_info = test_code_codec, ch_contract = test_contract_codec,
      ch_connection = null_codec, ch_channel = null_codec, ch_packet = null_codec, ch_packet_json = (\<lambda>_. None),
      ch_string_from_vec = Some, ch_u64_from_vec = (\<lambda>b. Some (u64_from_be_bytes b)), ch_account_from_vec = Some,
      ch_cw20_transfer = (\<lambda>_ _. Some []), ch_cw20_burn = (\<lambda>_. Some []), ch_cw20_balance_query = (\<lambda>_. Some []),
      ch_cw20_balance_response = (\<lambda>_. Some 0), ch_cw20_token_info_query = Some [],
      ch_cw20_token_info_response = (\<lambda>_. Some 0), ch_proto_store = (\<lambda>_ x. x), ch_proto_data = (\<lambda>x. x),
      ch_proto_instantiate = (\<lambda>_ x. x), ch_ibc_json = (\<lambda>_. Some []), ch_root_wasm = test_code,
      ch_root_instantiate = (\<lambda>_. Some [])\<rparr>"

definition idle_sm :: "'s sm_calls" where
  "idle_sm =
     \<lparr>sm_process = (\<lambda>_ _ _ _. m_panic), sm_wasm_sandboxed = (\<lambda>_ _ _ _. m_panic), sm_wasm_smart = (\<lambda>_ _ _ _ _. m_panic),
      sm_query = (\<lambda>_ _ _ _. m_panic), sm_dispatch = (\<lambda>_ _ _ _ _ _ _. m_panic)\<rparr>"

text \<open>The test contract, created and administered by the account \<open>[9]\<close>, and its code.\<close>

definition contract_tx :: tx_state where
  "contract_tx = ((btree_storage_new,
     [(lp NAMESPACE_WASM @ lp CODES @ u64_to_be_bytes 1,
         Delta_Set (code_bytes \<lparr>code_creator = [9], code_checksum = test_code, code_pinned = False\<rparr>)),
      (contract_key test_contract, Delta_Set (contract_bytes \<lparr>con_code_id = 1, con_creator = [9], con_admin = Some [9], con_label = [], con_created = 0\<rparr>))]),
     [(code_key test_code, Delta_Set test_code)])"

lemmas wasm_defs [wasm_exec] = null_codec_def test_chain_def idle_sm_def
  contract_tx_def test_contract_def test_code_def contract_key_def code_key_def
  CODES_def CONTRACTS_def CODE_BYTES_def NAMESPACE_WASM_def wasm_store_def load_contract_def save_contract_def load_code_def
  set_admin_msg_def is_admin_def m_charge_def

definition update_admin_run where
  "update_admin_run = wasm_process_msg (test_chain writing_vm) idle_sm tx_store test_block [9]
     (UpdateAdmin [9] test_contract [8]) True (contract_tx, gas_meter_new 100000)"

lemma update_admin_ok: "\<exists>resp. fst update_admin_run = Ok resp"
  by (simp add: update_admin_run_def wasm_exec vm_exec test_exec plus_exec namespace_exec store_exec gas_exec prog_exec
      Let_def lp_def apply_overlay_def)

theorem contract_admin_only_witness:
  "con_admin (the (stored_contract test_contract_codec (tx_view (fst (snd update_admin_run))) test_contract)) = Some [8]"
proof -
  obtain resp where "fst update_admin_run = Ok resp" using update_admin_ok by blast
  then have run: "wasm_process_msg (test_chain writing_vm) idle_sm tx_store test_block [9] (UpdateAdmin [9] test_contract [8]) True
      (contract_tx, gas_meter_new 100000) = (Ok resp, (fst (snd update_admin_run), snd (snd update_admin_run)))"
    by (metis prod.collapse update_admin_run_def)
  have ch: "ch_contract (test_chain writing_vm) = test_contract_codec" by (simp add: test_chain_def)
  have inv: "tx_inv contract_tx"
    by (simp add: contract_tx_def btree_storage_new_def lp_def NAMESPACE_WASM_def CODES_def CONTRACTS_def ascii_def contract_key_def)
  have stored: "stored_contract test_contract_codec (tx_view contract_tx) test_contract =
      Some \<lparr>con_code_id = 1, con_creator = [9], con_admin = Some [9], con_label = [], con_created = 0\<rparr>"
    by (simp add: stored_contract_def typed_def apply_overlay_def contract_tx_def contract_key_def code_key_def lp_def CODES_def
        CONTRACTS_def CODE_BYTES_def ascii_def)
  from contract_admin_only [OF run inv, unfolded ch, OF test_contract_codec_ok, of "[9]" test_contract 0 "[]" "[8]"] stored
  show ?thesis by (simp add: is_admin_def)
qed


definition first_address where
  "first_address = generate_address (test_chain writing_vm) tx_store [1, 2, 3, 4] 1 (contract_tx, gas_meter_new 100000)"

definition second_address where
  "second_address = generate_address (test_chain writing_vm) tx_store [1, 2, 3, 4] 1 (fst (snd first_address), gas_meter_new 100000)"

lemma contract_tx_inv: "tx_inv contract_tx"
  by (simp add: contract_tx_def btree_storage_new_def lp_def NAMESPACE_WASM_def CODES_def CONTRACTS_def ascii_def contract_key_def)

lemma addresses_ok: "\<exists>a. fst first_address = Ok a" "\<exists>a. fst second_address = Ok a"
   "tx_inv (fst (snd first_address))"
  by (simp_all add: second_address_def first_address_def generate_address_def next_count_def build_instantiate_address_def CONTRACT_COUNTER_def
      u64_to_be_bytes_def account_id_new_def VALID_ADDR_LENGTH_def
      wasm_exec vm_exec test_exec plus_exec namespace_exec store_exec gas_exec prog_exec Let_def lp_def apply_overlay_def)


text \<open>
  C39. An instantiation never takes over an account: when the address of the new contract already
  has an account, of whatever kind, the instantiation fails and writes nothing.
\<close>

theorem instantiate_never_overwrites:
  assumes "do_instantiate ch sm tx_store blk sender a i code adm msg funds label b (so, g) = (r, (so', g'))"
    and "tx_inv so" "auth_account (ch_account ch) (tx_view so) a \<noteq> None"
  shows "so' = so \<and> (\<exists>e. r = Err e \<or> r = Panic)"
proof -
  obtain q g1 where load: "map_may_load (auth_store tx_store) (ch_account ch) ACCOUNTS [a] so g = (q, g1)" by (metis prod.exhaust)
  show ?thesis
  proof (cases q)
    case (Ok acc)
    from metered_tx.account_may_load [OF load [unfolded Ok] assms(2)] assms(3) have "acc \<noteq> None" by simp
    with assms(1) load Ok show ?thesis
      by (auto simp: do_instantiate_def claim_internal_account_def auth_of_def prog_exec m_read_def)
  qed (use assms(1) load in \<open>auto simp: do_instantiate_def claim_internal_account_def auth_of_def prog_exec m_read_def\<close>)
qed

text \<open>The same instantiation twice.\<close>

definition taken_tx :: tx_state where
  "taken_tx = ((btree_storage_new, [(account_key test_contract, Delta_Set [1])]), [])"

theorem instantiate_never_overwrites_witness:
  "fst (snd (do_instantiate (test_chain writing_vm) idle_sm tx_store test_block [9] test_contract 1
     \<lparr>code_creator = [9], code_checksum = test_code, code_pinned = False\<rparr> None [] [] [] True
     (taken_tx, gas_meter_new 100000))) = taken_tx"
proof -
  have "auth_account account_codec (tx_view taken_tx) test_contract \<noteq> None"
    by (simp add: auth_account_def typed_def taken_tx_def account_codec_def apply_overlay_def)
  moreover have "tx_inv taken_tx" by (simp add: taken_tx_def btree_storage_new_def account_key_def lp_def)
  moreover have "ch_account (test_chain writing_vm) = account_codec" by (simp add: test_chain_def)
  ultimately show ?thesis
    using instantiate_never_overwrites [of "test_chain writing_vm" idle_sm test_block "[9]" test_contract] by (metis prod.collapse)
qed

end
