(* ===== verification/State_Machine.thy ===== *)
theory State_Machine
  imports Wasm
begin

text \<open>
  The state machine, \<open>packages/app/src/sm.rs\<close>: it routes messages and queries to the modules and
  is what the modules call back into.

  The recursion state machine -> wasm -> state machine is as deep as the contracts make it. A call
  beyond the end of the thread's stack aborts the process, so the model has the number of nested
  calls that fit, and a call deeper than that panics. \<open>depth_irrelevant\<close> shows that the number
  does not matter otherwise: a call that does not hit the end gives the same with any larger one.
\<close>

section \<open>Messages and queries\<close>

definition sm_process_msg ::
  "chain \<Rightarrow> 's sm_calls \<Rightarrow> 's storage \<Rightarrow> account_id \<Rightarrow> block_info \<Rightarrow> msg \<Rightarrow> ('s \<times> gas_meter, msg_response, pulsar_error) prog" where
  "sm_process_msg ch sm st sender block m =
     (case m of
        Msg_Bank bank \<Rightarrow>
          m_bind (bank_process_msg (bank_of ch sm) (app_meter st) block sender bank) (\<lambda>(events, data).
          m_ret \<lparr>mr_events = events, mr_data = MsgData_Bank data\<rparr>)
      | Msg_Wasm wasm \<Rightarrow> wasm_process_msg ch sm (app_meter st) block sender wasm True
      | Msg_Ibc ibc \<Rightarrow>
          m_bind (ibc_process_msg (ibc_of ch sm) (app_meter st) block sender ibc) (\<lambda>(events, data).
          m_ret \<lparr>mr_events = events, mr_data = MsgData_Ibc data\<rparr>))"

definition contract_do_query ::
  "chain \<Rightarrow> 's sm_calls \<Rightarrow> 's storage \<Rightarrow> block_info \<Rightarrow> contract_query \<Rightarrow> 's \<Rightarrow> (gas_meter, contract_query_response, pulsar_error) prog" where
  "contract_do_query ch sm st block q s =
     (case q of
        Contract_Bank b \<Rightarrow> m_bind (bank_do_query (bank_of ch sm) st block b s) (\<lambda>r. m_ret (Contract_Bank_Response r))
      | Contract_Wasm w \<Rightarrow> m_bind (wasm_do_query ch sm st block w s) (\<lambda>r. m_ret (Contract_Wasm_Response r)))"

primrec sm_at :: "nat \<Rightarrow> chain \<Rightarrow> 's sm_calls" where
  "sm_at 0 ch =
     \<lparr>sm_process = (\<lambda>_ _ _ _. m_panic), sm_wasm_sandboxed = (\<lambda>_ _ _ _. m_panic), sm_wasm_smart = (\<lambda>_ _ _ _ _. m_panic),
      sm_query = (\<lambda>_ _ _ _. m_panic), sm_dispatch = (\<lambda>_ _ _ _ _ _ _. m_panic)\<rparr>"
| "sm_at (Suc n) ch =
     \<lparr>sm_process = sm_process_msg ch (sm_at n ch),
      sm_wasm_sandboxed = (\<lambda>st block who m. wasm_process_msg ch (sm_at n ch) st block who m False),
      sm_wasm_smart = smart_query ch (sm_at n ch),
      sm_query = contract_do_query ch (sm_at n ch),
      sm_dispatch = dispatch_response_messages ch (sm_at n ch)\<rparr>"

section \<open>Transactions and blocks\<close>

definition GAS_COST_TX_BYTE :: nat where
  "GAS_COST_TX_BYTE = 10"

definition PROPOSER_KEY :: bytes where
  "PROPOSER_KEY = ascii ''_proposer''"

record tx_response =
  tr_data :: "msg_data list"
  tr_events :: "event list list"

record gas_info =
  gas_used :: nat
  gas_wanted :: nat

record tx_result =
  txr_gas :: gas_info
  txr_result :: "pulsar_error + tx_response"

definition gas_info_from_meter :: "gas_meter \<Rightarrow> gas_info" where
  "gas_info_from_meter g = \<lparr>gas_used = used g, gas_wanted = limit g\<rparr>"

definition gas_info_zero :: gas_info where
  "gas_info_zero = \<lparr>gas_used = 0, gas_wanted = 0\<rparr>"

definition tx_response_of :: "msg_response list \<Rightarrow> tx_response" where
  "tx_response_of resps = \<lparr>tr_data = map mr_data resps, tr_events = map mr_events resps\<rparr>"

definition sm_validate_tx ::
  "chain \<Rightarrow> 's sm_calls \<Rightarrow> 's storage \<Rightarrow> block_info \<Rightarrow> signed_tx \<Rightarrow> ('s \<times> gas_meter, tx_data, pulsar_error) prog" where
  "sm_validate_tx ch sm st block tx = auth_validate_tx (auth_of ch sm) (app_meter st) block tx True"

definition sm_query_simulate ::
  "chain \<Rightarrow> 's sm_calls \<Rightarrow> 's storage \<Rightarrow> block_info \<Rightarrow> signed_tx \<Rightarrow> ('s \<times> gas_meter, tx_response, pulsar_error) prog" where
  "sm_query_simulate ch sm st block tx =
     m_bind (m_lift (u64_mul (tx_len tx) GAS_COST_TX_BYTE)) (\<lambda>tx_byte_gas.
     m_bind (auth_validate_tx (auth_of ch sm) (app_meter st) block tx False) (\<lambda>data.
     m_bind (m_charge 6000) (\<lambda>_.
     m_bind (m_charge tx_byte_gas) (\<lambda>_.
     m_bind (m_collect (sm_process_msg ch sm st (td_signer data) block) (td_msgs data)) (\<lambda>resps.
     m_ret (tx_response_of resps))))))"

record block =
  blk_txs :: "signed_tx list"
  blk_height :: nat
  blk_time :: nat
  blk_proposer :: bytes

definition sm_begin_block :: "chain \<Rightarrow> 's storage \<Rightarrow> block \<Rightarrow> ('s \<times> gas_meter, event list, pulsar_error) prog" where
  "sm_begin_block ch st b =
     m_bind (m_map_err pulsar_of_plus (item_save st (vm_bytes (ch_vm ch)) PROPOSER_KEY (blk_proposer b))) (\<lambda>_. m_ret [])"

definition coin_list_string :: "coin list \<Rightarrow> bytes" where
  "coin_list_string cs =
     (case map (\<lambda>c. show_nat (coin_amount c) @ coin_denom c) cs of
        [] \<Rightarrow> [] | x # xs \<Rightarrow> x @ concat (map (\<lambda>y. ascii '', '' @ y) xs))"

definition sm_end_block ::
  "chain \<Rightarrow> 's sm_calls \<Rightarrow> 's storage \<Rightarrow> block_info \<Rightarrow> ('s \<times> gas_meter, event list, pulsar_error) prog" where
  "sm_end_block ch sm st block =
     m_bind (m_map_err pulsar_of_plus (m_read (item_may_load st (vm_bytes (ch_vm ch)) PROPOSER_KEY))) (\<lambda>p.
     let proposer_bytes = (case p of None \<Rightarrow> [] | Some b \<Rightarrow> b) in
     if proposer_bytes = [] then m_ret []
     else (case account_id_new proposer_bytes of
             Ok proposer \<Rightarrow>
               m_bind (distribute_fees (bank_of ch sm) st block fee_collector_account proposer) (\<lambda>distributed.
               m_ret (if distributed = [] then []
                      else [wasm_event ''fee_distribution'' [(ascii ''proposer'', c_bech32_encode (ch_crypto ch) proposer),
                              (ascii ''amount'', coin_list_string distributed)]]))
           | _ \<Rightarrow> m_ret []))"

record genesis_state =
  gen_bank :: "bank_account list"
  gen_gov_account :: bytes

definition sm_init ::
  "chain \<Rightarrow> 's sm_calls \<Rightarrow> 's storage \<Rightarrow> block_info \<Rightarrow> genesis_state \<Rightarrow> ('s \<times> gas_meter, unit, pulsar_error) prog" where
  "sm_init ch sm st block genesis =
     m_bind (bank_init (bank_of ch sm) st (gen_bank genesis)) (\<lambda>_.
     wasm_init ch sm st block (gen_gov_account genesis))"

text \<open>The queries of a client. A simulation runs on a \<open>ScratchTx\<close> over the storage.\<close>

datatype query =
    Query_Raw bytes
  | Query_Auth account_id
  | Query_Bank bank_query
  | Query_Simulate signed_tx
  | Query_Wasm wasm_query

datatype query_response =
    Response_Raw bytes bytes
  | Response_Auth account_response
  | Response_Bank bank_response
  | Response_Simulate tx_result
  | Response_Wasm wasm_query_response

definition sm_query_all ::
  "chain \<Rightarrow> nat \<Rightarrow> 's storage \<Rightarrow> block_info \<Rightarrow> query \<Rightarrow> 's \<Rightarrow> (gas_meter, query_response, pulsar_error) prog" where
  "sm_query_all ch n st block q s =
     (case q of
        Query_Raw key \<Rightarrow>
          m_bind (m_map_err PE_Gas (rd_get st s key)) (\<lambda>v.
          m_bind (m_lift (of_option (PE_Std NotFound) v)) (\<lambda>value. m_ret (Response_Raw key value)))
      | Query_Bank b \<Rightarrow> m_bind (bank_do_query (bank_of ch (sm_at n ch)) st block b s) (\<lambda>r. m_ret (Response_Bank r))
      | Query_Auth a \<Rightarrow> m_bind (auth_query (auth_of ch (sm_at n ch)) st a s) (\<lambda>r. m_ret (Response_Auth r))
      | Query_Wasm w \<Rightarrow> m_bind (wasm_do_query ch (sm_at n ch) st block w s) (\<lambda>r. m_ret (Response_Wasm r))
      | Query_Simulate tx \<Rightarrow> (\<lambda>g.
          (case sm_query_simulate ch (sm_at n ch) (scratch_tx st) block tx ((s, []), g) of
             (Ok r, (_, g')) \<Rightarrow> (Ok (Response_Simulate \<lparr>txr_gas = gas_info_from_meter g', txr_result = Inr r\<rparr>), g')
           | (Err e, (_, g')) \<Rightarrow> (Ok (Response_Simulate \<lparr>txr_gas = gas_info_from_meter g', txr_result = Inl e\<rparr>), g')
           | (Panic, (_, g')) \<Rightarrow> (Panic, g'))))"

section \<open>Everything goes through the storage\<close>

lemma via_sm_process_msg:
  assumes "sm_via sm"
  shows "via st (sm_process_msg ch sm st who block m)"
proof (cases m)
  case (Msg_Bank b)
  have "via (app_meter st) (bank_process_msg (bank_of ch sm) (app_meter st) block who b)"
    by (rule via_bank_process_msg [OF sm_viaD(4) [OF assms]])
  with Msg_Bank show ?thesis by (auto simp: sm_process_msg_def intro!: via_rules intro: via_app_meter)
next
  case (Msg_Wasm w)
  with via_wasm_process_msg [OF assms] show ?thesis by (auto simp: sm_process_msg_def intro: via_app_meter)
next
  case (Msg_Ibc i)
  have "bank_env_via (ie_bank (ibc_of ch sm)) (app_meter st)"
    using sm_viaD(4) [OF assms] by (simp add: ibc_of_def)
  from via_ibc_process_msg [OF this] Msg_Ibc show ?thesis
    by (auto simp: sm_process_msg_def intro!: via_rules intro: via_app_meter)
qed

lemma sm_via_at: "sm_via (sm_at n ch)"
proof (induction n)
  case 0
  show ?case by (simp add: sm_via_def via_rules)
next
  case (Suc n)
  then show ?case by (simp add: sm_via_def via_sm_process_msg via_wasm_process_msg via_dispatch)
qed

lemmas sm_at_via = sm_viaD [OF sm_via_at]

lemma via_sm_validate_tx:
  assumes "sm_via sm"
  shows "via st (sm_validate_tx ch sm st block tx)"
proof -
  have "bank_env_via (ae_bank (auth_of ch sm)) (app_meter st)" using sm_viaD(4) [OF assms] by (simp add: auth_of_def)
  from via_app_meter [OF via_auth_validate_tx [OF this]] show ?thesis by (simp add: sm_validate_tx_def)
qed

lemma via_sm_blocks:
  assumes "sm_via sm"
  shows "via st (sm_begin_block ch st b)" "via st (sm_end_block ch sm st blk)" "via st (sm_init ch sm st blk gen)"
  unfolding sm_begin_block_def sm_end_block_def sm_init_def
  by (auto intro!: via_rules via_distribute_fees via_bank_init via_wasm_init sm_viaD(4) assms split: outcome.split)

end
