(* ===== verification/Depth.thy ===== *)
theory Depth
  imports State_Machine
begin

text \<open>
  The depth of the recursion through the state machine: a call that does not panic gives the same
  result at every larger depth. \<open>agrees p q\<close> says that \<open>q\<close> agrees with \<open>p\<close> wherever \<open>p\<close> does not
  panic; every combinator is monotone in it, because a panic is never caught.
\<close>

definition agrees :: "('s, 'a, 'e) prog \<Rightarrow> ('s, 'a, 'e) prog \<Rightarrow> bool" where
  "agrees p q \<longleftrightarrow> (\<forall>s. fst (p s) = Panic \<or> q s = p s)"

named_theorems agrees_rules

section \<open>Combinators\<close>

lemma agrees_refl [agrees_rules]: "agrees p p"
  by (simp add: agrees_def)

lemma agrees_panic [agrees_rules]: "agrees m_panic q"
  by (simp add: agrees_def m_panic_def)

lemma agrees_bind [agrees_rules]:
  assumes "agrees p q" "\<And>a. agrees (f a) (h a)"
  shows "agrees (m_bind p f) (m_bind q h)"
  unfolding agrees_def
proof
  fix s
  obtain r t where p: "p s = (r, t)" by (cases "p s")
  with assms(1) have q: "r = Panic \<or> q s = (r, t)" by (metis fst_conv agrees_def)
  show "fst (m_bind p f s) = Panic \<or> m_bind q h s = m_bind p f s"
  proof (cases r)
    case (Ok a)
    with p q assms(2) [of a] show ?thesis by (auto simp: m_bind_def agrees_def)
  qed (use p q in \<open>auto simp: m_bind_def\<close>)
qed

lemma agreesE:
  assumes "agrees p q" "p s = (r, t)"
  obtains "r = Panic" | "r \<noteq> Panic" "q s = (r, t)"
  using assms by (metis agrees_def fst_conv)

lemma agreesI: "(\<And>s r t. \<lbrakk>p s = (r, t); r \<noteq> Panic\<rbrakk> \<Longrightarrow> q s = (r, t)) \<Longrightarrow> agrees p q"
  unfolding agrees_def by (metis prod.collapse)

lemma agrees_map_err [agrees_rules]:
  assumes "agrees p q"
  shows "agrees (m_map_err c p) (m_map_err c q)"
proof (rule agreesI)
  fix s r t
  assume run: "m_map_err c p s = (r, t)" "r \<noteq> Panic"
  obtain r1 t1 where p: "p s = (r1, t1)" by (cases "p s")
  from assms p show "m_map_err c q s = (r, t)"
    by (rule agreesE) (use run p in \<open>simp_all add: m_map_err_def\<close>)
qed

lemma agrees_read [agrees_rules]:
  assumes "\<And>s. agrees (f s) (h s)"
  shows "agrees (m_read f) (m_read h)"
proof (rule agreesI)
  fix sg r t
  assume run: "m_read f sg = (r, t)" "r \<noteq> Panic"
  obtain r1 t1 where p: "f (fst sg) (snd sg) = (r1, t1)" by (metis prod.exhaust)
  from assms p show "m_read h sg = (r, t)"
    by (rule agreesE) (use run p in \<open>simp_all add: m_read_def\<close>)
qed

lemma agrees_submeter [agrees_rules]:
  fixes p q :: "('s \<times> gas_meter, 'a, 'e) prog"
  assumes "agrees p q"
  shows "agrees (m_submeter lim p :: ('s \<times> gas_meter, _, 'f) prog) (m_submeter lim q)"
proof (rule agreesI)
  fix sg t and r :: "(('e + 'a) \<times> nat, 'f) outcome"
  assume run: "m_submeter lim p sg = (r, t)" "r \<noteq> Panic"
  obtain r1 t1 where p: "p (fst sg, gas_meter_new lim) = (r1, t1)" by (metis prod.exhaust)
  from assms p show "m_submeter lim q sg = (r, t)"
    by (rule agreesE) (use run p in \<open>cases t1; simp_all add: m_submeter_def\<close>)+
qed

lemma agrees_each [agrees_rules]: "(\<And>x. agrees (f x) (h x)) \<Longrightarrow> agrees (m_each f xs) (m_each h xs)"
  by (induction xs) (auto intro!: agrees_rules)

lemma agrees_if [agrees_rules]: "\<lbrakk>agrees p q; agrees p' q'\<rbrakk> \<Longrightarrow> agrees (if b then p else p') (if b then q else q')"
  by simp

lemma agrees_prod [agrees_rules]: "(\<And>a b. agrees (f a b) (h a b)) \<Longrightarrow> agrees (case x of (a, b) \<Rightarrow> f a b) (case x of (a, b) \<Rightarrow> h a b)"
  by (simp split: prod.split)

lemma agrees_sum [agrees_rules]:
  "\<lbrakk>\<And>a. agrees (f a) (h a); \<And>b. agrees (f' b) (h' b)\<rbrakk> \<Longrightarrow>
     agrees (case x of Inl a \<Rightarrow> f a | Inr b \<Rightarrow> f' b) (case x of Inl a \<Rightarrow> h a | Inr b \<Rightarrow> h' b)"
  by (simp split: sum.split)

lemma agrees_denom [agrees_rules]:
  "\<lbrakk>\<And>a. agrees (f a) (h a); \<And>b. agrees (f' b) (h' b)\<rbrakk> \<Longrightarrow>
     agrees (case x of Native a \<Rightarrow> f a | Cw20 b \<Rightarrow> f' b) (case x of Native a \<Rightarrow> h a | Cw20 b \<Rightarrow> h' b)"
  by (simp split: typed_denom.split)

lemma agrees_let [agrees_rules]: "agrees (f a) (h a) \<Longrightarrow> agrees (let x = a in f x) (let x = a in h x)"
  by simp

lemma agrees_apply: "(\<And>sg0. agrees (f sg0) (h sg0)) \<Longrightarrow> agrees (\<lambda>sg. f sg sg) (\<lambda>sg. h sg sg)"
  unfolding agrees_def by blast

section \<open>The modules\<close>

definition sm_agrees :: "'s sm_calls \<Rightarrow> 's sm_calls \<Rightarrow> bool" where
  "sm_agrees sm sm' \<longleftrightarrow>
     (\<forall>st who block m. agrees (sm_process sm st who block m) (sm_process sm' st who block m)) \<and>
     (\<forall>st block who m. agrees (sm_wasm_sandboxed sm st block who m) (sm_wasm_sandboxed sm' st block who m)) \<and>
     (\<forall>st block c m s. agrees (sm_wasm_smart sm st block c m s) (sm_wasm_smart sm' st block c m s)) \<and>
     (\<forall>st block q s. agrees (sm_query sm st block q s) (sm_query sm' st block q s)) \<and>
     (\<forall>st block c h ms p b. agrees (sm_dispatch sm st block c h ms p b) (sm_dispatch sm' st block c h ms p b))"

lemma sm_agreesD:
  assumes "sm_agrees sm sm'"
  shows "agrees (sm_process sm st who block m) (sm_process sm' st who block m)"
    "agrees (sm_wasm_sandboxed sm st block who wm) (sm_wasm_sandboxed sm' st block who wm)"
    "agrees (sm_wasm_smart sm st block c b s) (sm_wasm_smart sm' st block c b s)"
    "agrees (sm_query sm st block q s) (sm_query sm' st block q s)"
    "agrees (sm_dispatch sm st block c h ms p al) (sm_dispatch sm' st block c h ms p al)"
  using assms by (simp_all add: sm_agrees_def)

lemma bank_of_fields:
  "be_crypto (bank_of ch sm) = ch_crypto ch" "be_u128 (bank_of ch sm) = ch_u128 ch"
  "be_string_from_vec (bank_of ch sm) = ch_string_from_vec ch" "be_cw20_transfer (bank_of ch sm) = ch_cw20_transfer ch"
  "be_cw20_burn (bank_of ch sm) = ch_cw20_burn ch" "be_cw20_balance_query (bank_of ch sm) = ch_cw20_balance_query ch"
  "be_cw20_balance_response (bank_of ch sm) = ch_cw20_balance_response ch"
  "be_cw20_token_info_query (bank_of ch sm) = ch_cw20_token_info_query ch"
  "be_cw20_token_info_response (bank_of ch sm) = ch_cw20_token_info_response ch"
  "be_wasm_exec (bank_of ch sm) = (\<lambda>st block who m. m_bind (sm_wasm_sandboxed sm st block who m) (\<lambda>_. m_ret ()))"
  "be_wasm_smart (bank_of ch sm) = sm_wasm_smart sm"
  by (simp_all add: bank_of_def)

lemma agrees_bank_native [agrees_rules]:
  "agrees (send_native (bank_of ch sm) bst f t c) (send_native (bank_of ch sm') bst f t c)"
  "agrees (burn_native (bank_of ch sm) bst f c) (burn_native (bank_of ch sm') bst f c)"
  "agrees (get_all_balances (bank_of ch sm) rst a s) (get_all_balances (bank_of ch sm') rst a s)"
  "agrees (get_balance (bank_of ch sm) rst a d s) (get_balance (bank_of ch sm') rst a d s)"
  "agrees (get_supply (bank_of ch sm) rst d s) (get_supply (bank_of ch sm') rst d s)"
  by (simp_all add: send_native_def burn_native_def get_all_balances_def get_balance_def get_supply_def bank_of_fields agrees_refl)

lemma agrees_bank:
  assumes "sm_agrees sm sm'"
  shows "agrees (bank_transfer (bank_of ch sm) st blk f t cs) (bank_transfer (bank_of ch sm') st blk f t cs)"
    "agrees (bank_burn (bank_of ch sm) st blk f cs) (bank_burn (bank_of ch sm') st blk f cs)"
  unfolding bank_transfer_def bank_burn_def send_cw20_def burn_cw20_def bank_of_fields
  by (intro agrees_rules sm_agreesD [OF assms])+

lemma agrees_distribute:
  assumes "sm_agrees sm sm'"
  shows "agrees (distribute_fees (bank_of ch sm) st blk f t) (distribute_fees (bank_of ch sm') st blk f t)"
proof -
  have "agrees (distribute_coins (bank_of ch sm) st blk f t cs) (distribute_coins (bank_of ch sm') st blk f t cs)" for cs
    by (induction cs) (auto intro!: agrees_rules agrees_bank [OF assms])
  then show ?thesis unfolding distribute_fees_def by (intro agrees_rules)
qed

lemma agrees_bank_query:
  assumes "sm_agrees sm sm'"
  shows "agrees (bank_do_query (bank_of ch sm) st blk q s) (bank_do_query (bank_of ch sm') st blk q s)"
proof (cases q)
  case (Balance a d)
  show ?thesis unfolding Balance bank_do_query.simps get_cw20_balance_def bank_of_fields
    by (intro agrees_rules sm_agreesD [OF assms])
next
  case (Supply d)
  show ?thesis unfolding Supply bank_do_query.simps get_cw20_supply_def bank_of_fields
    by (intro agrees_rules sm_agreesD [OF assms])
qed (simp_all only: bank_do_query.simps bank_of_fields, (intro agrees_rules)+)

lemma agrees_bank_process:
  assumes "sm_agrees sm sm'"
  shows "agrees (bank_process_msg (bank_of ch sm) st blk who m) (bank_process_msg (bank_of ch sm') st blk who m)"
  by (cases m) (simp_all only: bank_process_msg.simps bank_of_fields, (intro agrees_rules agrees_bank [OF assms])+)

lemma env_of_fields:
  "ie_bank (ibc_of ch sm) = bank_of ch sm" "ie_connection (ibc_of ch sm) = ch_connection ch"
  "ie_channel (ibc_of ch sm) = ch_channel ch" "ie_packet (ibc_of ch sm) = ch_packet ch"
  "ie_packet_json (ibc_of ch sm) = ch_packet_json ch"
  "ae_account (auth_of ch sm) = ch_account ch" "ae_bank (auth_of ch sm) = bank_of ch sm"
  by (simp_all add: ibc_of_def auth_of_def)

lemma agrees_ibc_packets:
  assumes "sm_agrees sm sm'"
  shows "agrees (ibc_transfer (ibc_of ch sm) st blk a p c t r h ts) (ibc_transfer (ibc_of ch sm') st blk a p c t r h ts)"
    "agrees (ibc_timeout (ibc_of ch sm) st blk p c n) (ibc_timeout (ibc_of ch sm') st blk p c n)"
  unfolding ibc_transfer_def ibc_timeout_def env_of_fields bank_of_fields
  by (intro agrees_rules agrees_bank [OF assms])+

lemma ibc_handshake_same:
  "conn_open_init (ibc_of ch sm) = conn_open_init (ibc_of ch sm')" "conn_open_ack (ibc_of ch sm) = conn_open_ack (ibc_of ch sm')"
  "chan_open_init (ibc_of ch sm) = chan_open_init (ibc_of ch sm')" "chan_open_ack (ibc_of ch sm) = chan_open_ack (ibc_of ch sm')"
  by (simp_all add: fun_eq_iff conn_open_init_def conn_open_ack_def chan_open_init_def chan_open_ack_def env_of_fields)

lemma agrees_ibc_process:
  assumes "sm_agrees sm sm'"
  shows "agrees (ibc_process_msg (ibc_of ch sm) st blk who m) (ibc_process_msg (ibc_of ch sm') st blk who m)"
  by (cases m) (simp_all only: ibc_process_msg.simps env_of_fields bank_of_fields ibc_handshake_same [of ch sm sm'],
    (intro agrees_rules agrees_ibc_packets [OF assms])+)

lemma claim_internal_same: "claim_internal_account (auth_of ch sm) = claim_internal_account (auth_of ch sm')"
  by (simp add: fun_eq_iff claim_internal_account_def env_of_fields)

section \<open>Contracts\<close>

lemma agrees_query_raw:
  assumes "\<And>q. agrees (query q) (query' q)"
  shows "agrees (query_raw cr v query request lim) (query_raw cr v query' request lim)"
proof (rule agreesI)
  fix g r t
  assume run: "query_raw cr v query request lim g = (r, t)" "r \<noteq> Panic"
  have inner: "agrees (do_query_raw cr v query request) (do_query_raw cr v query' request)"
    unfolding do_query_raw_def by (intro agrees_rules assms)
  define g0 where "g0 = (if wasmer_gas_to_sdk lim < remaining g then gas_meter_new (wasmer_gas_to_sdk lim) else g)"
  obtain r1 t1 where p: "do_query_raw cr v query request g0 = (r1, t1)" by (metis prod.exhaust)
  have "do_query_raw cr v query' request g0 = (r1, t1)"
    using inner p by (rule agreesE) (use run p in \<open>simp_all add: query_raw_def g0_def Let_def split: if_splits\<close>)
  with run p show "query_raw cr v query' request lim g = (r, t)"
    by (simp add: query_raw_def g0_def Let_def split: if_splits)
qed

lemma agrees_run_vm:
  assumes "\<And>s q l. agrees (query s q l) (query' s q l)"
  shows "agrees (run_vm p cr st query iters) (run_vm p cr st query' iters)"
proof (induction p arbitrary: iters)
  case (Vm_Scan a b ord k)
  then show ?case by (cases "vm_store_scan iters a b ord") (auto intro: Vm_Scan)
qed (auto intro!: agrees_rules assms)

lemma agrees_cache_call:
  fixes query :: "'s \<Rightarrow> contract_query \<Rightarrow> (gas_meter, contract_query_response, pulsar_error) prog"
  assumes "\<And>s q. agrees (query s q) (query' s q)"
  shows "agrees (cache_call cr v st query checksum entry contract :: ('s \<times> gas_meter, _, 'e) prog)
    (cache_call cr v st query' checksum entry contract)"
proof (rule agreesI)
  fix sg t and r :: "(contract_response vm_result \<times> nat, 'e) outcome"
  assume run: "cache_call cr v st query checksum entry contract sg = (r, t)" "r \<noteq> Panic"
  have inner: "agrees (run_vm p cr work (\<lambda>so. query_raw cr v (query (fst so))) [])
      (run_vm p cr work (\<lambda>so. query_raw cr v (query' (fst so))) [])" for p and work :: "('s \<times> overlay) storage"
    by (rule agrees_run_vm, rule agrees_query_raw, rule assms)
  obtain a b where cached: "ensure_cached v st checksum (fst sg) (snd sg) = (a, b)" by (metis prod.exhaust)
  show "cache_call cr v st query' checksum entry contract sg = (r, t)"
  proof (cases "a = Ok () \<and> (\<exists>w. (contract_storage (weak_sub_tx st) contract :: (_, 'e) outcome) = Ok w)")
    case True
    then obtain w where w: "(contract_storage (weak_sub_tx st) contract :: (_, 'e) outcome) = Ok w" and a: "a = Ok ()" by blast
    let ?s = "((fst sg, []), snd sg)" and ?p = "vm_call v checksum entry (sdk_gas_to_wasmer (remaining (snd sg)))"
    obtain r1 :: "(contract_response vm_result \<times> nat, 'e) outcome" and s1 ls g1
      where p: "run_vm ?p cr w (\<lambda>so. query_raw cr v (query (fst so))) [] ?s = (r1, ((s1, ls), g1))" by (metis prod.exhaust)
    from inner [of ?p w] p show ?thesis
      by (rule agreesE) (use run p w a cached in \<open>simp_all add: cache_call_def Let_def\<close>)
  next
    case False
    with run cached show ?thesis
      by (cases a; cases "contract_storage (weak_sub_tx st) contract :: (_, 'e) outcome") (simp_all add: cache_call_def)
  qed
qed

lemma agrees_cache_query:
  fixes query :: "'s \<Rightarrow> contract_query \<Rightarrow> (gas_meter, contract_query_response, pulsar_error) prog"
  assumes "\<And>s q. agrees (query s q) (query' s q)"
  shows "agrees (cache_query cr v st query checksum env msg contract s :: (gas_meter, _, 'e) prog)
    (cache_query cr v st query' checksum env msg contract s)"
proof (rule agreesI)
  fix g t and r :: "(bytes vm_result \<times> nat, 'e) outcome"
  assume run: "cache_query cr v st query checksum env msg contract s g = (r, t)" "r \<noteq> Panic"
  have inner: "agrees (run_vm p cr work (\<lambda>so. query_raw cr v (query (fst so))) [])
      (run_vm p cr work (\<lambda>so. query_raw cr v (query' (fst so))) [])" for p and work :: "('s \<times> overlay) storage"
    by (rule agrees_run_vm, rule agrees_query_raw, rule assms)
  obtain a b where cached: "ensure_cached v st checksum s g = (a, b)" by (metis prod.exhaust)
  show "cache_query cr v st query' checksum env msg contract s g = (r, t)"
  proof (cases "a = Ok () \<and> (\<exists>w. (contract_storage (scratch_tx st) contract :: (_, 'e) outcome) = Ok w)")
    case True
    then obtain w where w: "(contract_storage (scratch_tx st) contract :: (_, 'e) outcome) = Ok w" and a: "a = Ok ()" by blast
    let ?p = "vm_smart v checksum env msg (sdk_gas_to_wasmer (remaining g))"
    obtain r1 :: "(bytes vm_result \<times> nat, 'e) outcome" and s1 g1
      where p: "run_vm ?p cr (app_meter w) (\<lambda>so. query_raw cr v (query (fst so))) [] ((s, []), g) = (r1, (s1, g1))"
      by (metis prod.exhaust)
    from inner [of ?p "app_meter w"] p show ?thesis
      by (rule agreesE) (use run p w a cached in \<open>simp_all add: cache_query_def Let_def\<close>)
  next
    case False
    with run cached show ?thesis
      by (cases a; cases "contract_storage (scratch_tx st) contract :: (_, 'e) outcome") (simp_all add: cache_query_def)
  qed
qed

lemma agrees_vm_execute:
  assumes "sm_agrees sm sm'"
  shows "agrees (vm_execute ch sm st block h e c) (vm_execute ch sm' st block h e c)"
  unfolding vm_execute_def by (intro agrees_rules agrees_cache_call sm_agreesD [OF assms])

lemma agrees_dispatch_one:
  assumes "sm_agrees sm sm'"
  shows "agrees (dispatch_one ch sm st block c h b m p) (dispatch_one ch sm' st block c h b m p)"
  unfolding dispatch_one_def Let_def
  by (rule agrees_apply, intro agrees_rules agrees_vm_execute [OF assms] sm_agreesD [OF assms])

lemma agrees_dispatch:
  assumes "sm_agrees sm sm'"
  shows "agrees (dispatch_response_messages ch sm st block c h ms p b) (dispatch_response_messages ch sm' st block c h ms p b)"
proof -
  have "agrees (dispatch_loop ch sm st block c h b ms p) (dispatch_loop ch sm' st block c h b ms p)" for p
    by (induction ms arbitrary: p) (auto intro!: agrees_rules agrees_dispatch_one [OF assms])
  then show ?thesis unfolding dispatch_response_messages_def by (intro agrees_rules)
qed

lemma agrees_run_entry:
  assumes "sm_agrees sm sm'"
  shows "agrees (run_entry ch sm st block code c e ev mk b) (run_entry ch sm' st block code c e ev mk b)"
  unfolding run_entry_def by (intro agrees_rules agrees_vm_execute [OF assms] agrees_dispatch [OF assms])

lemma agrees_do_instantiate:
  assumes "sm_agrees sm sm'"
  shows "agrees (do_instantiate ch sm st block sender c i code admin m funds label b)
    (do_instantiate ch sm' st block sender c i code admin m funds label b)"
  unfolding do_instantiate_def claim_internal_same [of ch sm sm']
  by (intro agrees_rules agrees_bank [OF assms] agrees_run_entry [OF assms])

lemma agrees_wasm_process:
  assumes "sm_agrees sm sm'"
  shows "agrees (wasm_process_msg ch sm st block who m b) (wasm_process_msg ch sm' st block who m b)"
  by (cases m) (simp_all only: wasm_process_msg.simps migrate_msg_def,
    (intro agrees_rules agrees_bank [OF assms] agrees_run_entry [OF assms] agrees_do_instantiate [OF assms])+)

lemma agrees_smart_query:
  assumes "sm_agrees sm sm'"
  shows "agrees (smart_query ch sm st block c m s) (smart_query ch sm' st block c m s)"
  unfolding smart_query_def by (intro agrees_rules agrees_cache_query sm_agreesD [OF assms])

lemma agrees_wasm_query:
  assumes "sm_agrees sm sm'"
  shows "agrees (wasm_do_query ch sm st block q s) (wasm_do_query ch sm' st block q s)"
  by (cases q) (simp_all only: wasm_do_query.simps, (intro agrees_rules agrees_smart_query [OF assms])+)

section \<open>The state machine\<close>

lemma agrees_process_msg:
  assumes "sm_agrees sm sm'"
  shows "agrees (sm_process_msg ch sm st who block m) (sm_process_msg ch sm' st who block m)"
  unfolding sm_process_msg_def
  by (cases m) (auto intro!: agrees_rules agrees_bank_process agrees_ibc_process agrees_wasm_process assms)

lemma agrees_contract_query:
  assumes "sm_agrees sm sm'"
  shows "agrees (contract_do_query ch sm st block q s) (contract_do_query ch sm' st block q s)"
  unfolding contract_do_query_def
  by (cases q) (auto intro!: agrees_rules agrees_bank_query agrees_wasm_query assms)

lemma agrees_at: "sm_agrees (sm_at n ch) (sm_at (Suc n) ch)"
proof (induction n)
  case 0
  show ?case by (simp add: sm_agrees_def agrees_panic)
next
  case (Suc n)
  note step = agrees_process_msg [OF Suc] agrees_wasm_process [OF Suc] agrees_smart_query [OF Suc]
    agrees_contract_query [OF Suc] agrees_dispatch [OF Suc]
  show ?case using step unfolding sm_agrees_def by (simp only: sm_at.simps sm_calls.simps) simp
qed

lemma agrees_trans: "\<lbrakk>agrees p q; agrees q r\<rbrakk> \<Longrightarrow> agrees p r"
  unfolding agrees_def by metis

lemma sm_agrees_trans:
  assumes "sm_agrees a b" "sm_agrees b c"
  shows "sm_agrees a c"
  unfolding sm_agrees_def
  by (intro conjI allI; rule agrees_trans; rule sm_agreesD [OF assms(1)] sm_agreesD [OF assms(2)])

lemma agrees_at_le: "n \<le> m \<Longrightarrow> sm_agrees (sm_at n ch) (sm_at m ch)"
proof (induction rule: dec_induct)
  case base
  show ?case by (simp add: sm_agrees_def agrees_refl)
next
  case (step m)
  from step.IH agrees_at show ?case by (rule sm_agrees_trans)
qed

lemma agrees_validate:
  assumes "sm_agrees sm sm'"
  shows "agrees (auth_validate_tx (auth_of ch sm) st block tx b) (auth_validate_tx (auth_of ch sm') st block tx b)"
proof -
  have "signer_pubkey (auth_of ch sm) st tx b = signer_pubkey (auth_of ch sm') st tx b"
    unfolding signer_pubkey_def env_of_fields bank_of_fields by (rule refl)
  moreover have "agrees (charge_fee (auth_of ch sm) st block tx) (charge_fee (auth_of ch sm') st block tx)"
    unfolding charge_fee_def env_of_fields by (cases "fee (tx_fee tx)") (auto intro!: agrees_rules agrees_bank [OF assms])
  ultimately show ?thesis unfolding auth_validate_tx_def env_of_fields bank_of_fields
    by (auto intro!: agrees_rules)
qed


lemmas sm_defs [wasm_exec] = sm_process_msg_def run_entry_def get_checksum_to_execute_def get_checksum_not_executing_def
  LOAD_WASM_GAS_def vm_execute_def build_env_def build_info_def build_contract_events_def addr_event_def wasm_event_def
  dispatch_response_messages_def writing_vm_def bank_of_def empty_response_def

text \<open>A call of the test contract with room for \<open>n\<close> nested calls.\<close>

definition execute_run where
  "execute_run n = sm_process (sm_at n (test_chain writing_vm)) tx_store [9] test_block
     (Msg_Wasm (Execute [9] test_contract [] [])) (contract_tx, gas_meter_new 1000000)"

lemma execute_ok: "\<exists>resp. fst (execute_run (Suc 0)) = Ok resp"
  by (simp add: execute_run_def wasm_exec vm_exec
      test_exec plus_exec namespace_exec store_exec gas_exec prog_exec Let_def lp_def apply_overlay_def u64_to_be_bytes_def)


end
