(* ===== verification/App.thy ===== *)
theory App
  imports Snapshot Depth
begin

text \<open>
  The application, \<open>packages/app/src/app.rs\<close>: loading and genesis, mempool checks, simulation, the
  execution of a block, sidecar records and their pruning, state roots, proofs and snapshots.

  The persistent storage is the memory store of \<open>packages/storage\<close>. A method that takes
  \<open>&mut self\<close> is a function from an application to a result and the application afterwards, a
  method that takes \<open>&self\<close> one to a result. Methods that need the inner data panic when neither
  \<open>init\<close> nor \<open>load_from_storage\<close> has set it.
\<close>

named_theorems app_exec \<open>definitions to run the application\<close>

section \<open>Constants and state\<close>

definition DEFAULT_QUERY_GAS :: nat where
  "DEFAULT_QUERY_GAS = 4000000"

definition DEFAULT_SIMULATE_GAS :: nat where
  "DEFAULT_SIMULATE_GAS = 10000000"

definition MAX_VALIDATE_GAS :: nat where
  "MAX_VALIDATE_GAS = 200000"

definition MAX_BEGIN_BLOCK_GAS :: nat where
  "MAX_BEGIN_BLOCK_GAS = 10000000"

definition MAX_END_BLOCK_GAS :: nat where
  "MAX_END_BLOCK_GAS = 10000000"

text \<open>\<open>price\<close> is a \<open>Decimal\<close>, a number of \<open>10\<^sup>-\<^sup>1\<^sup>8\<close> units in a \<open>u128\<close>.\<close>

record min_gas_price =
  mgp_atomics :: nat
  mgp_denom :: bytes

record block_params =
  bp_max_bytes :: nat
  bp_max_gas :: "nat option"

record inner_data =
  id_block :: block_info
  id_chain_id :: bytes
  id_params :: block_params

record app_state =
  as_chain_id :: bytes
  as_params :: block_params

record app =
  app_storage :: btree_storage
  app_min_gas_price :: "min_gas_price option"
  app_root_index :: "root_index option"
  app_data :: "inner_data option"

text \<open>
  The state machine of an application: the chain it runs, the nested calls the stack has room for,
  and the encodings of the application's own records.
\<close>

record app_env =
  ap_chain :: chain
  ap_depth :: nat
  ap_block :: "block_info codec"
  ap_state :: "app_state codec"
  ap_root :: "bytes codec"
  ap_genesis :: "bytes \<Rightarrow> genesis_state option"
  ap_decimal :: "bytes \<Rightarrow> nat option"

abbreviation ap_sha256 :: "app_env \<Rightarrow> hash_fun" where
  "ap_sha256 env \<equiv> c_sha256 (ch_crypto (ap_chain env))"

abbreviation ap_bytes :: "app_env \<Rightarrow> bytes codec" where
  "ap_bytes env \<equiv> vm_bytes (ch_vm (ap_chain env))"

abbreviation ap_u64 :: "app_env \<Rightarrow> nat codec" where
  "ap_u64 env \<equiv> ch_u64 (ap_chain env)"

definition NAMESPACE_APP :: bytes where
  "NAMESPACE_APP = ascii ''app''"

definition APP_STATE :: bytes where
  "APP_STATE = ascii ''state''"

definition LAST_BLOCK :: bytes where
  "LAST_BLOCK = ascii ''_last_block''"

definition BLOCK_CERTIFICATE_KEY_PREFIX :: bytes where
  "BLOCK_CERTIFICATE_KEY_PREFIX = ascii ''_cert/''"

definition BLOCK_PROPOSAL_KEY_PREFIX :: bytes where
  "BLOCK_PROPOSAL_KEY_PREFIX = ascii ''_proposal/''"

definition BLOCK_TIMESTAMP_KEY_PREFIX :: bytes where
  "BLOCK_TIMESTAMP_KEY_PREFIX = ascii ''_ts/''"

definition BLOCK_PAYLOAD_KEY_PREFIX :: bytes where
  "BLOCK_PAYLOAD_KEY_PREFIX = ascii ''_payload/''"

definition TX_RESPONSE_KEY_PREFIX :: bytes where
  "TX_RESPONSE_KEY_PREFIX = ascii ''_txres/''"

definition PRUNE_FLOOR :: bytes where
  "PRUNE_FLOOR = ascii ''_prune_floor''"

definition FINALITY_PRUNE_FLOOR :: bytes where
  "FINALITY_PRUNE_FLOOR = ascii ''_finality_prune_floor''"

definition STATE_ROOT :: bytes where
  "STATE_ROOT = ascii ''_state_root''"

text \<open>\<open>format!("{}{}", prefix, height)\<close>.\<close>

definition height_key :: "bytes \<Rightarrow> nat \<Rightarrow> bytes" where
  "height_key prefix h = prefix @ show_nat h"

section \<open>Minimum gas price\<close>

text \<open>\<open>parse\<close> after \<open>trim\<close>: the longest run of digits and dots is the price, the rest the denomination.\<close>

definition min_gas_price_parse :: "app_env \<Rightarrow> bytes \<Rightarrow> min_gas_price option" where
  "min_gas_price_parse env s =
     (let numeric = (\<lambda>c. is_digit_byte c \<or> c = 0x2E);
          price_str = takeWhile numeric s; d = dropWhile numeric s
      in if d = [] then None
         else if price_str = [] then Some \<lparr>mgp_atomics = 0, mgp_denom = d\<rparr>
         else map_option (\<lambda>p. \<lparr>mgp_atomics = p, mgp_denom = d\<rparr>) (ap_decimal env price_str))"

definition required_fee :: "min_gas_price \<Rightarrow> nat \<Rightarrow> (nat, tx_error) outcome" where
  "required_fee mgp gas_lim =
     (let frac = 10 ^ 18; prod = min (mgp_atomics mgp * gas_lim) u128_max
      in if prod + (frac - 1) > u128_max then Panic else Ok ((prod + (frac - 1)) div frac))"

definition min_gas_price_check :: "min_gas_price \<Rightarrow> coin option \<Rightarrow> nat \<Rightarrow> (unit, tx_error) outcome" where
  "min_gas_price_check mgp f gas_lim =
     o_bind (required_fee mgp gas_lim) (\<lambda>required.
     let provided = (case f of None \<Rightarrow> 0 | Some c \<Rightarrow> coin_amount c);
         denom_ok = (case f of None \<Rightarrow> False | Some c \<Rightarrow> coin_denom c = mgp_denom mgp)
     in if required = 0 \<or> (denom_ok \<and> provided \<ge> required) then Ok ()
        else Err (InsufficientFee required provided (mgp_denom mgp) gas_lim))"

section \<open>Reading and writing the store\<close>

text \<open>An operation on a reader, with a meter of its own that does not run out.\<close>

definition app_read :: "app \<Rightarrow> (btree_storage \<Rightarrow> (gas_meter, 'a, 'e) prog) \<Rightarrow> ('a, 'e) outcome" where
  "app_read a p = fst (p (app_storage a) gas_meter_infinite)"

text \<open>\<open>item.may_load(&reader, &meter).ok().flatten()\<close>.\<close>

definition app_item :: "'a codec \<Rightarrow> bytes \<Rightarrow> app \<Rightarrow> ('a option, 'e) outcome" where
  "app_item c key a =
     (case app_read a (item_may_load memory_reader c key) of Ok v \<Rightarrow> Ok v | Err _ \<Rightarrow> Ok None | Panic \<Rightarrow> Panic)"

text \<open>\<open>writer.commit(&meter)?\<close> at the end of a block or of a sidecar write.\<close>

definition commit_writer :: "app_env \<Rightarrow> overlay \<Rightarrow> gas_meter \<Rightarrow> app \<Rightarrow> (unit, pulsar_error) outcome \<times> app" where
  "commit_writer env ls g a =
     (case memory_writer_commit (ap_sha256 env) ls (app_storage a, g) of
        (Ok _, (s', _)) \<Rightarrow> (Ok (), a\<lparr>app_storage := s'\<rparr>)
      | (Err e, (s', _)) \<Rightarrow> (Err (PE_Gas e), a\<lparr>app_storage := s'\<rparr>)
      | (Panic, (s', _)) \<Rightarrow> (Panic, a\<lparr>app_storage := s'\<rparr>))"

text \<open>Open a writer, run an operation on it and commit; nothing is written when the operation fails.\<close>

definition app_write ::
  "app_env \<Rightarrow> ((btree_storage \<times> overlay) \<times> gas_meter, 'a, pulsar_error) prog \<Rightarrow> app \<Rightarrow> ('a, pulsar_error) outcome \<times> app" where
  "app_write env p a =
     (case p ((app_storage a, []), gas_meter_infinite) of
        (Ok x, ((_, ls), g)) \<Rightarrow>
          (case commit_writer env ls g a of
             (Ok _, a') \<Rightarrow> (Ok x, a') | (Err e, a') \<Rightarrow> (Err e, a') | (Panic, a') \<Rightarrow> (Panic, a'))
      | (Err e, _) \<Rightarrow> (Err e, a)
      | (Panic, _) \<Rightarrow> (Panic, a))"

definition save_item :: "'s storage \<Rightarrow> 'a codec \<Rightarrow> bytes \<Rightarrow> 'a \<Rightarrow> ('s \<times> gas_meter, unit, pulsar_error) prog" where
  "save_item st c key x = m_map_err pulsar_of_plus (item_save st c key x)"

section \<open>Creation\<close>

definition app_new :: "btree_storage \<Rightarrow> app" where
  "app_new storage = \<lparr>app_storage = storage, app_min_gas_price = None, app_root_index = None, app_data = None\<rparr>"

definition set_min_gas_price :: "min_gas_price option \<Rightarrow> app \<Rightarrow> app" where
  "set_min_gas_price mgp a = a\<lparr>app_min_gas_price := mgp\<rparr>"

datatype app_load_error = NoStoredState | InvalidState plus_error

definition load_from_storage :: "app_env \<Rightarrow> app \<Rightarrow> (unit, app_load_error) outcome \<times> app" where
  "load_from_storage env a =
     (let a' = a\<lparr>app_root_index := None\<rparr>;
          load = m_bind (item_may_load memory_reader (ap_block env) LAST_BLOCK (app_storage a)) (\<lambda>b.
                 m_bind (item_may_load (readonly_prefixed_storage memory_reader (lp NAMESPACE_APP)) (ap_state env) APP_STATE
                           (app_storage a)) (\<lambda>s.
                 m_ret (s, b)))
      in case fst (m_map_err InvalidState load gas_meter_infinite) of
           Ok (Some state, Some block) \<Rightarrow>
             (Ok (), a'\<lparr>app_data := Some \<lparr>id_block = block, id_chain_id = as_chain_id state, id_params = as_params state\<rparr>\<rparr>)
         | Ok _ \<Rightarrow> (Err NoStoredState, a')
         | Err e \<Rightarrow> (Err e, a')
         | Panic \<Rightarrow> (Panic, a'))"

section \<open>State root\<close>

definition app_state_root :: "app_env \<Rightarrow> app \<Rightarrow> (bytes option, 'e) outcome" where
  "app_state_root env a = app_item (ap_root env) STATE_ROOT a"

definition app_hash :: "app_env \<Rightarrow> app \<Rightarrow> (bytes, 'e) outcome" where
  "app_hash env a =
     o_bind (app_state_root env a) (\<lambda>r. Ok (case r of Some root \<Rightarrow> root | None \<Rightarrow> bts_hash (app_storage a)))"

definition compute_state_root :: "app_env \<Rightarrow> app \<Rightarrow> (bytes, pulsar_error) outcome" where
  "compute_state_root env a = state_root_over (ap_sha256 env) memory_reader (app_storage a)"

definition rebuild_root_index :: "app_env \<Rightarrow> app \<Rightarrow> (unit, pulsar_error) outcome \<times> app" where
  "rebuild_root_index env a =
     (case app_read a (\<lambda>s. m_map_err PE_Gas (m_bind (consensus_entries memory_reader s) iter_collect)) of
        Ok entries \<Rightarrow>
          (Ok (), a\<lparr>app_root_index :=
             Some (fold (\<lambda>(key, value). bt_insert key (leaf_hash (ap_sha256 env) key value)) entries [])\<rparr>)
      | Err e \<Rightarrow> (Err e, a)
      | Panic \<Rightarrow> (Panic, a))"

definition ensure_root_index :: "app_env \<Rightarrow> app \<Rightarrow> (unit, pulsar_error) outcome \<times> app" where
  "ensure_root_index env a =
     (case app_root_index a of None \<Rightarrow> rebuild_root_index env a | Some _ \<Rightarrow> (Ok (), a))"

definition store_state_root :: "app_env \<Rightarrow> app \<Rightarrow> (unit, pulsar_error) outcome \<times> app" where
  "store_state_root env a =
     (case ensure_root_index env a of
        (Ok _, a1) \<Rightarrow>
          (case app_root_index a1 of
             Some index \<Rightarrow>
               app_write env (save_item memory_writer (ap_root env) STATE_ROOT
                 (root_with_pending (ap_sha256 env) index [])) a1
           | None \<Rightarrow> (Panic, a1))
      | (Err e, a1) \<Rightarrow> (Err e, a1)
      | (Panic, a1) \<Rightarrow> (Panic, a1))"

section \<open>Genesis\<close>

text \<open>The request without the fields that are only echoed, the validators and the other parameters.\<close>

record init_request =
  ir_time :: nat
  ir_chain_id :: bytes
  ir_params :: block_params
  ir_app_state :: bytes
  ir_initial_height :: nat

definition init_writes :: "app_env \<Rightarrow> init_request \<Rightarrow> block_info \<Rightarrow> ((btree_storage \<times> overlay) \<times> gas_meter, unit, pulsar_error) prog" where
  "init_writes env request last_block =
     m_bind (m_lift (of_option (PE_Std ParseErr) (ap_genesis env (ir_app_state request)))) (\<lambda>genesis.
     m_bind (sm_init (ap_chain env) (sm_at (ap_depth env) (ap_chain env)) memory_writer last_block genesis) (\<lambda>_.
     m_bind (save_item memory_writer (ap_block env) LAST_BLOCK last_block) (\<lambda>_.
     save_item (prefixed_storage memory_writer (lp NAMESPACE_APP)) (ap_state env) APP_STATE
       \<lparr>as_chain_id = ir_chain_id request, as_params = ir_params request\<rparr>)))"

text \<open>The response echoes the request; what is computed is the app hash.\<close>

definition app_init :: "app_env \<Rightarrow> init_request \<Rightarrow> app \<Rightarrow> (bytes, pulsar_error) outcome \<times> app" where
  "app_init env request a =
     (let last_block = \<lparr>bi_height = ir_initial_height request - 1, bi_time = ir_time request, bi_chain_id = ir_chain_id request\<rparr>
      in case app_write env (init_writes env request last_block) a of
           (Ok _, a1) \<Rightarrow>
             (case store_state_root env (a1\<lparr>app_data := Some \<lparr>id_block = last_block, id_chain_id = ir_chain_id request,
                     id_params = ir_params request\<rparr>, app_root_index := None\<rparr>) of
                (Ok _, a2) \<Rightarrow> (app_hash env a2, a2)
              | (Err e, a2) \<Rightarrow> (Err e, a2)
              | (Panic, a2) \<Rightarrow> (Panic, a2))
         | (Err e, a1) \<Rightarrow> (Err e, a1)
         | (Panic, a1) \<Rightarrow> (Panic, a1))"

section \<open>Queries and mempool checks\<close>

definition app_info :: "app \<Rightarrow> block_info option" where
  "app_info a = map_option id_block (app_data a)"

definition block_gas_meter :: "inner_data \<Rightarrow> gas_meter" where
  "block_gas_meter d = (case bp_max_gas (id_params d) of Some n \<Rightarrow> gas_meter_new n | None \<Rightarrow> gas_meter_infinite)"

definition simulate_gas_meter :: "inner_data \<Rightarrow> gas_meter" where
  "simulate_gas_meter d = gas_meter_new (case bp_max_gas (id_params d) of Some n \<Rightarrow> n | None \<Rightarrow> DEFAULT_SIMULATE_GAS)"

definition query_gas_meter :: gas_meter where
  "query_gas_meter = gas_meter_new DEFAULT_QUERY_GAS"

text \<open>
  A query gets a reader. The model passes the storage with the same two read operations; no query
  writes to it, a simulation writes to a \<open>ScratchTx\<close> on top.
\<close>

definition app_query :: "app_env \<Rightarrow> app \<Rightarrow> query \<Rightarrow> (query_response, pulsar_error) outcome" where
  "app_query env a request =
     (case app_data a of
        None \<Rightarrow> Panic
      | Some d \<Rightarrow>
          fst (sm_query_all (ap_chain env) (ap_depth env) btree_storage (id_block d) request (app_storage a)
            (case request of Query_Simulate _ \<Rightarrow> simulate_gas_meter d | _ \<Rightarrow> query_gas_meter)))"

definition tx_failure :: "pulsar_error \<Rightarrow> tx_result" where
  "tx_failure e = \<lparr>txr_gas = gas_info_zero, txr_result = Inl e\<rparr>"

definition check_tx :: "app_env \<Rightarrow> app \<Rightarrow> signed_tx \<Rightarrow> (tx_result, 'e) outcome" where
  "check_tx env a tx =
     (case app_data a of
        None \<Rightarrow> Panic
      | Some d \<Rightarrow>
          (case atomic (scratch_tx memory_reader) PE_Gas
                  (sm_validate_tx (ap_chain env) (sm_at (ap_depth env) (ap_chain env)) (sub_tx (scratch_tx memory_reader))
                    (id_block d) tx)
                  ((app_storage a, []), gas_meter_new MAX_VALIDATE_GAS) of
             (Ok data, (_, meter)) \<Rightarrow>
               (let accepted = Ok \<lparr>txr_gas = \<lparr>gas_used = used meter, gas_wanted = td_gas_wanted data\<rparr>,
                                   txr_result = Inr \<lparr>tr_data = [], tr_events = []\<rparr>\<rparr>
                in case app_min_gas_price a of
                     None \<Rightarrow> accepted
                   | Some mgp \<Rightarrow>
                       (case min_gas_price_check mgp (fee (tx_fee tx)) (td_gas_wanted data) of
                          Ok _ \<Rightarrow> accepted
                        | Err e \<Rightarrow> Ok (tx_failure (PE_Tx e))
                        | Panic \<Rightarrow> Panic))
           | (Err e, _) \<Rightarrow> Ok (tx_failure e)
           | (Panic, _) \<Rightarrow> Panic))"

definition app_simulate :: "app_env \<Rightarrow> app \<Rightarrow> signed_tx \<Rightarrow> (tx_result, 'e) outcome" where
  "app_simulate env a tx =
     (case app_data a of
        None \<Rightarrow> Panic
      | Some d \<Rightarrow>
          (case sm_query_simulate (ap_chain env) (sm_at (ap_depth env) (ap_chain env)) (scratch_tx memory_reader)
                  (id_block d) tx ((app_storage a, []), simulate_gas_meter d) of
             (Ok r, (_, meter)) \<Rightarrow> Ok \<lparr>txr_gas = gas_info_from_meter meter, txr_result = Inr r\<rparr>
           | (Err e, (_, meter)) \<Rightarrow> Ok \<lparr>txr_gas = gas_info_from_meter meter, txr_result = Inl e\<rparr>
           | (Panic, _) \<Rightarrow> Panic))"

section \<open>Executing a transaction\<close>

text \<open>
  The meter of the state is the block's. \<open>m_own g p\<close> runs \<open>p\<close> on the meter \<open>g\<close> and returns its
  result and that meter, \<open>m_fresh g p\<close> the same with errors propagated and the meter dropped.
\<close>

definition m_own :: "gas_meter \<Rightarrow> ('s \<times> gas_meter, 'a, 'e) prog \<Rightarrow> ('s \<times> gas_meter, ('e + 'a) \<times> gas_meter, 'f) prog" where
  "m_own g p sg =
     (case p (fst sg, g) of
        (Ok a, (s', g')) \<Rightarrow> (Ok (Inr a, g'), (s', snd sg))
      | (Err e, (s', g')) \<Rightarrow> (Ok (Inl e, g'), (s', snd sg))
      | (Panic, (s', g')) \<Rightarrow> (Panic, (s', snd sg)))"

definition m_fresh :: "gas_meter \<Rightarrow> ('s \<times> gas_meter, 'a, 'e) prog \<Rightarrow> ('s \<times> gas_meter, 'a, 'e) prog" where
  "m_fresh g p sg = (case p (fst sg, g) of (r, (s', _)) \<Rightarrow> (r, (s', snd sg)))"

text \<open>\<open>let _ = block_meter.charge(cost)\<close>.\<close>

definition charge_ignored :: "nat \<Rightarrow> ('s \<times> gas_meter, unit, 'e) prog" where
  "charge_ignored cost = m_meter (\<lambda>g. case charge cost g of (Panic, g') \<Rightarrow> (Panic, g') | (_, g') \<Rightarrow> (Ok (), g'))"

definition m_remaining :: "('s \<times> gas_meter, nat, 'e) prog" where
  "m_remaining = m_meter (\<lambda>g. (Ok (remaining g), g))"

definition execute_msgs ::
  "app_env \<Rightarrow> 's storage \<Rightarrow> block_info \<Rightarrow> tx_data \<Rightarrow> ('s \<times> gas_meter, msg_response list, pulsar_error) prog" where
  "execute_msgs env st block data =
     atomic st PE_Gas (m_collect (\<lambda>m. sm_process_msg (ap_chain env) (sm_at (ap_depth env) (ap_chain env)) (sub_tx st)
       (td_signer data) block m) (td_msgs data))"

text \<open>What happens after the validation: the declared gas must cover it and fit in the block.\<close>

definition run_validated ::
  "app_env \<Rightarrow> 's storage \<Rightarrow> block_info \<Rightarrow> gas_meter \<Rightarrow> nat \<Rightarrow> tx_data \<Rightarrow> ('s \<times> gas_meter, tx_result, 'e) prog" where
  "run_validated env st block val_meter tx_byte_gas data =
     m_bind (m_lift (u64_add (used val_meter) tx_byte_gas)) (\<lambda>cost.
     case charge cost (gas_meter_new (td_gas_wanted data)) of
       (Panic, _) \<Rightarrow> m_panic
     | (Err e, meter) \<Rightarrow>
         m_bind (charge_ignored (used val_meter)) (\<lambda>_.
         m_ret \<lparr>txr_gas = gas_info_from_meter meter, txr_result = Inl (PE_Gas e)\<rparr>)
     | (Ok _, meter) \<Rightarrow>
         m_bind m_remaining (\<lambda>left.
         if td_gas_wanted data > left
         then m_ret \<lparr>txr_gas = gas_info_from_meter meter,
                     txr_result = Inl (ExceedsRemainingBlockGas (td_gas_wanted data) left)\<rparr>
         else m_bind (m_own meter (execute_msgs env st block data)) (\<lambda>(resps, meter').
              m_bind (charge_ignored (used meter')) (\<lambda>_.
              m_ret \<lparr>txr_gas = gas_info_from_meter meter',
                     txr_result = (case resps of Inl e \<Rightarrow> Inl e | Inr rs \<Rightarrow> Inr (tx_response_of rs))\<rparr>))))"

definition execute_tx :: "app_env \<Rightarrow> 's storage \<Rightarrow> block_info \<Rightarrow> signed_tx \<Rightarrow> ('s \<times> gas_meter, tx_result, 'e) prog" where
  "execute_tx env st block tx =
     m_bind (m_lift (u64_mul (tx_len tx) GAS_COST_TX_BYTE)) (\<lambda>tx_byte_gas.
     m_bind (m_own (gas_meter_new MAX_VALIDATE_GAS) (atomic st PE_Gas
       (sm_validate_tx (ap_chain env) (sm_at (ap_depth env) (ap_chain env)) (sub_tx st) block tx))) (\<lambda>(val_res, val_meter).
     case val_res of
       Inl e \<Rightarrow>
         m_bind (charge_ignored (used val_meter)) (\<lambda>_.
         m_ret \<lparr>txr_gas = gas_info_from_meter val_meter, txr_result = Inl e\<rparr>)
     | Inr data \<Rightarrow> run_validated env st block val_meter tx_byte_gas data))"

section \<open>Executing a block\<close>

abbreviation block_store :: "((btree_storage \<times> overlay) \<times> pending) storage" where
  "block_store \<equiv> tracking_writer memory_writer"

text \<open>The response without the two fields that are always empty.\<close>

record finalize_response =
  fr_events :: "event list"
  fr_tx_results :: "tx_result list"
  fr_app_hash :: bytes

text \<open>Begin block, the transactions and end block, each group on meters of its own.\<close>

definition run_block ::
  "app_env \<Rightarrow> 's storage \<Rightarrow> inner_data \<Rightarrow> block_info \<Rightarrow> block \<Rightarrow> ('s \<times> gas_meter, event list \<times> tx_result list, pulsar_error) prog" where
  "run_block env st data block full_block =
     m_bind (m_fresh (gas_meter_new MAX_BEGIN_BLOCK_GAS) (sm_begin_block (ap_chain env) st full_block)) (\<lambda>events.
     m_bind (m_fresh (block_gas_meter data) (m_collect (execute_tx env st block) (blk_txs full_block))) (\<lambda>tx_results.
     m_bind (m_fresh (gas_meter_new MAX_END_BLOCK_GAS)
       (sm_end_block (ap_chain env) (sm_at (ap_depth env) (ap_chain env)) st block)) (\<lambda>end_events.
     m_ret (events @ end_events, tx_results))))"

text \<open>The records written at the end of a block; the root is over the writes tracked so far.\<close>

definition seal_block ::
  "app_env \<Rightarrow> root_index \<Rightarrow> block_info \<Rightarrow> bytes option
     \<Rightarrow> (((btree_storage \<times> overlay) \<times> pending) \<times> gas_meter, bytes, pulsar_error) prog" where
  "seal_block env index block payload =
     m_bind (save_item block_store (ap_block env) LAST_BLOCK block) (\<lambda>_.
     m_bind (case payload of
               Some b \<Rightarrow> save_item block_store (ap_bytes env) (height_key BLOCK_PAYLOAD_KEY_PREFIX (bi_height block)) b
             | None \<Rightarrow> m_ret ()) (\<lambda>_.
     m_bind (\<lambda>sg. (Ok (root_with_pending (ap_sha256 env) index (snd (fst sg))), sg)) (\<lambda>root.
     m_bind (save_item block_store (ap_root env) STATE_ROOT root) (\<lambda>_.
     m_ret root))))"

definition block_program ::
  "app_env \<Rightarrow> root_index \<Rightarrow> inner_data \<Rightarrow> block_info \<Rightarrow> block \<Rightarrow> bytes option
     \<Rightarrow> (((btree_storage \<times> overlay) \<times> pending) \<times> gas_meter, finalize_response, pulsar_error) prog" where
  "block_program env index data block full_block payload =
     m_bind (run_block env block_store data block full_block) (\<lambda>(events, tx_results).
     m_bind (seal_block env index block payload) (\<lambda>root.
     m_ret \<lparr>fr_events = events, fr_tx_results = tx_results, fr_app_hash = root\<rparr>))"

text \<open>Fold the writes of a block into the leaf index.\<close>

definition index_op :: "hash_fun \<Rightarrow> bytes \<times> bytes option \<Rightarrow> root_index \<Rightarrow> root_index" where
  "index_op sha256 p index =
     (case snd p of Some v \<Rightarrow> bt_insert (fst p) (leaf_hash sha256 (fst p) v) index | None \<Rightarrow> bt_remove (fst p) index)"

definition finalize_block_impl ::
  "app_env \<Rightarrow> block \<Rightarrow> bytes option \<Rightarrow> bool \<Rightarrow> app \<Rightarrow> (finalize_response, pulsar_error) outcome \<times> app" where
  "finalize_block_impl env full_block payload commit a =
     (case app_data a of
        None \<Rightarrow> (Panic, a)
      | Some data \<Rightarrow>
          (let block = \<lparr>bi_height = blk_height full_block, bi_time = blk_time full_block, bi_chain_id = id_chain_id data\<rparr>;
               old_block = id_block data
           in if bi_height old_block + 1 > u64_max then (Panic, a)
              else if bi_height block \<noteq> bi_height old_block + 1
              then (Err (BadBlockHeight (bi_height block) (bi_height old_block)), a)
              else if bi_time block < bi_time old_block
              then (Err (DescendingBlockTime (bi_time old_block) (bi_time block)), a)
              else case ensure_root_index env a of
                (Err e, a1) \<Rightarrow> (Err e, a1)
              | (Panic, a1) \<Rightarrow> (Panic, a1)
              | (Ok _, a1) \<Rightarrow>
                  (case app_root_index a1 of
                     None \<Rightarrow> (Panic, a1)
                   | Some index \<Rightarrow>
                       (case block_program env index data block full_block payload
                               (((app_storage a1, []), []), gas_meter_infinite) of
                          (Err e, _) \<Rightarrow> (Err e, a1)
                        | (Panic, _) \<Rightarrow> (Panic, a1)
                        | (Ok resp, (((_, ls), dirty), g)) \<Rightarrow>
                            if commit
                            then (case commit_writer env ls g a1 of
                                    (Ok _, a2) \<Rightarrow>
                                      (Ok resp, a2\<lparr>app_root_index := Some (fold (index_op (ap_sha256 env)) dirty index),
                                                    app_data := Some (data\<lparr>id_block := block\<rparr>)\<rparr>)
                                  | (Err e, a2) \<Rightarrow> (Err e, a2)
                                  | (Panic, a2) \<Rightarrow> (Panic, a2))
                            else (Ok resp, a1)))))"

definition finalize_block :: "app_env \<Rightarrow> block \<Rightarrow> app \<Rightarrow> (finalize_response, pulsar_error) outcome \<times> app" where
  "finalize_block env full_block = finalize_block_impl env full_block None True"

definition finalize_block_with_payload ::
  "app_env \<Rightarrow> block \<Rightarrow> bytes option \<Rightarrow> app \<Rightarrow> (finalize_response, pulsar_error) outcome \<times> app" where
  "finalize_block_with_payload env full_block payload = finalize_block_impl env full_block payload True"

definition simulate_finalize_block :: "app_env \<Rightarrow> block \<Rightarrow> app \<Rightarrow> (finalize_response, pulsar_error) outcome \<times> app" where
  "simulate_finalize_block env full_block = finalize_block_impl env full_block None False"

section \<open>Sidecar records\<close>

text \<open>One record per height, in one commit; the writers and readers differ in the key and the type only.\<close>

definition set_record :: "app_env \<Rightarrow> 'a codec \<Rightarrow> bytes \<Rightarrow> 'a \<Rightarrow> app \<Rightarrow> (unit, pulsar_error) outcome \<times> app" where
  "set_record env c key x = app_write env (save_item memory_writer c key x)"

definition set_block_certificate :: "app_env \<Rightarrow> nat \<Rightarrow> bytes \<Rightarrow> app \<Rightarrow> (unit, pulsar_error) outcome \<times> app" where
  "set_block_certificate env h certificate = set_record env (ap_bytes env) (height_key BLOCK_CERTIFICATE_KEY_PREFIX h) certificate"

definition get_block_certificate :: "app_env \<Rightarrow> nat \<Rightarrow> app \<Rightarrow> (bytes option, 'e) outcome" where
  "get_block_certificate env h = app_item (ap_bytes env) (height_key BLOCK_CERTIFICATE_KEY_PREFIX h)"

definition set_block_proposal :: "app_env \<Rightarrow> nat \<Rightarrow> bytes \<Rightarrow> app \<Rightarrow> (unit, pulsar_error) outcome \<times> app" where
  "set_block_proposal env h proposal = set_record env (ap_bytes env) (height_key BLOCK_PROPOSAL_KEY_PREFIX h) proposal"

definition get_block_proposal :: "app_env \<Rightarrow> nat \<Rightarrow> app \<Rightarrow> (bytes option, 'e) outcome" where
  "get_block_proposal env h = app_item (ap_bytes env) (height_key BLOCK_PROPOSAL_KEY_PREFIX h)"

definition set_block_timestamp :: "app_env \<Rightarrow> nat \<Rightarrow> nat \<Rightarrow> app \<Rightarrow> (unit, pulsar_error) outcome \<times> app" where
  "set_block_timestamp env h nanos = set_record env (ap_u64 env) (height_key BLOCK_TIMESTAMP_KEY_PREFIX h) nanos"

definition get_block_timestamp :: "app_env \<Rightarrow> nat \<Rightarrow> app \<Rightarrow> (nat option, 'e) outcome" where
  "get_block_timestamp env h = app_item (ap_u64 env) (height_key BLOCK_TIMESTAMP_KEY_PREFIX h)"

definition finality_writes :: "app_env \<Rightarrow> nat \<Rightarrow> bytes \<Rightarrow> bytes \<Rightarrow> nat \<Rightarrow> ((btree_storage \<times> overlay) \<times> gas_meter, unit, pulsar_error) prog" where
  "finality_writes env h certificate proposal nanos =
     m_bind (save_item memory_writer (ap_bytes env) (height_key BLOCK_CERTIFICATE_KEY_PREFIX h) certificate) (\<lambda>_.
     m_bind (save_item memory_writer (ap_bytes env) (height_key BLOCK_PROPOSAL_KEY_PREFIX h) proposal) (\<lambda>_.
     save_item memory_writer (ap_u64 env) (height_key BLOCK_TIMESTAMP_KEY_PREFIX h) nanos))"

definition set_block_finality :: "app_env \<Rightarrow> nat \<Rightarrow> bytes \<Rightarrow> bytes \<Rightarrow> nat \<Rightarrow> app \<Rightarrow> (unit, pulsar_error) outcome \<times> app" where
  "set_block_finality env h certificate proposal nanos = app_write env (finality_writes env h certificate proposal nanos)"

definition set_block_payload :: "app_env \<Rightarrow> nat \<Rightarrow> bytes \<Rightarrow> app \<Rightarrow> (unit, pulsar_error) outcome \<times> app" where
  "set_block_payload env h payload = set_record env (ap_bytes env) (height_key BLOCK_PAYLOAD_KEY_PREFIX h) payload"

definition get_block_payload :: "app_env \<Rightarrow> nat \<Rightarrow> app \<Rightarrow> (bytes option, 'e) outcome" where
  "get_block_payload env h = app_item (ap_bytes env) (height_key BLOCK_PAYLOAD_KEY_PREFIX h)"

definition set_tx_response :: "app_env \<Rightarrow> bytes \<Rightarrow> bytes \<Rightarrow> app \<Rightarrow> (unit, pulsar_error) outcome \<times> app" where
  "set_tx_response env txhash encoded = set_record env (ap_bytes env) (TX_RESPONSE_KEY_PREFIX @ txhash) encoded"

definition get_tx_response :: "app_env \<Rightarrow> bytes \<Rightarrow> app \<Rightarrow> (bytes option, 'e) outcome" where
  "get_tx_response env txhash = app_item (ap_bytes env) (TX_RESPONSE_KEY_PREFIX @ txhash)"

section \<open>Pruning\<close>

definition prune_floor :: "app_env \<Rightarrow> app \<Rightarrow> (nat, 'e) outcome" where
  "prune_floor env a = o_bind (app_item (ap_u64 env) PRUNE_FLOOR a) (\<lambda>f. Ok (case f of None \<Rightarrow> 0 | Some n \<Rightarrow> n))"

definition finality_prune_floor :: "app_env \<Rightarrow> app \<Rightarrow> (nat, 'e) outcome" where
  "finality_prune_floor env a = o_bind (app_item (ap_u64 env) FINALITY_PRUNE_FLOOR a) (\<lambda>f. Ok (case f of None \<Rightarrow> 0 | Some n \<Rightarrow> n))"

definition remove_keys :: "bytes list \<Rightarrow> ((btree_storage \<times> overlay) \<times> gas_meter, unit, pulsar_error) prog" where
  "remove_keys keys = m_each (\<lambda>key. m_map_err PE_Gas (item_remove memory_writer key)) keys"

definition sidecar_keys :: "nat list \<Rightarrow> bytes list \<Rightarrow> bytes list" where
  "sidecar_keys heights txhashes =
     concat (map (\<lambda>h. [height_key BLOCK_PAYLOAD_KEY_PREFIX h, height_key BLOCK_TIMESTAMP_KEY_PREFIX h]) heights)
       @ map (\<lambda>t. TX_RESPONSE_KEY_PREFIX @ t) txhashes"

definition prune_sidecars :: "app_env \<Rightarrow> nat list \<Rightarrow> bytes list \<Rightarrow> nat \<Rightarrow> app \<Rightarrow> (nat, pulsar_error) outcome \<times> app" where
  "prune_sidecars env heights txhashes new_floor =
     app_write env
       (m_bind (remove_keys (sidecar_keys heights txhashes)) (\<lambda>_.
        m_bind (save_item memory_writer (ap_u64 env) PRUNE_FLOOR new_floor) (\<lambda>_.
        m_ret (length (sidecar_keys heights txhashes)))))"

definition finality_keys :: "nat list \<Rightarrow> bytes list" where
  "finality_keys heights =
     concat (map (\<lambda>h. [height_key BLOCK_CERTIFICATE_KEY_PREFIX h, height_key BLOCK_PROPOSAL_KEY_PREFIX h]) heights)"

definition prune_finality :: "app_env \<Rightarrow> nat list \<Rightarrow> nat \<Rightarrow> app \<Rightarrow> (nat, pulsar_error) outcome \<times> app" where
  "prune_finality env heights new_floor =
     app_write env
       (m_bind (remove_keys (finality_keys heights)) (\<lambda>_.
        m_bind (save_item memory_writer (ap_u64 env) FINALITY_PRUNE_FLOOR new_floor) (\<lambda>_.
        m_ret (length (finality_keys heights)))))"

section \<open>Proofs and snapshots\<close>

record state_proof_data =
  sp_state_height :: nat
  sp_key :: bytes
  sp_value :: bytes
  sp_leaf_index :: nat
  sp_siblings :: "bytes option list"

text \<open>The height of the last block and the entries, from one reader and on one meter.\<close>

definition committed_entries :: "app_env \<Rightarrow> app \<Rightarrow> (nat \<times> kv list, pulsar_error) outcome" where
  "committed_entries env a =
     app_read a (\<lambda>s.
       m_bind (m_map_err pulsar_of_plus (item_may_load memory_reader (ap_block env) LAST_BLOCK s)) (\<lambda>b.
       m_bind (m_map_err PE_Gas (m_bind (consensus_entries memory_reader s) iter_collect)) (\<lambda>entries.
       m_ret (case b of None \<Rightarrow> 0 | Some b' \<Rightarrow> bi_height b', entries))))"

text \<open>The loop's \<open>found\<close>: the position and the value of the key, the last one when there are several.\<close>

fun find_entry :: "bytes \<Rightarrow> kv list \<Rightarrow> nat \<Rightarrow> (nat \<times> bytes) option \<Rightarrow> (nat \<times> bytes) option" where
  "find_entry key [] i found = found"
| "find_entry key ((k, v) # entries) i found = find_entry key entries (i + 1) (if k = key then Some (i, v) else found)"

definition state_proof :: "app_env \<Rightarrow> bytes \<Rightarrow> app \<Rightarrow> (state_proof_data option, pulsar_error) outcome" where
  "state_proof env key a =
     o_bind (committed_entries env a) (\<lambda>(state_height, all).
     let entries = filter (\<lambda>(k, _). \<not> is_sidecar k) all;
         leaves = map (\<lambda>(k, v). leaf_hash (ap_sha256 env) k v) entries
     in case find_entry key entries 0 None of
          None \<Rightarrow> Ok None
        | Some (leaf_index, value) \<Rightarrow>
            Ok (Some \<lparr>sp_state_height = state_height, sp_key = key, sp_value = value, sp_leaf_index = leaf_index,
                      sp_siblings = merkle_path (ap_sha256 env) leaves leaf_index\<rparr>))"

record snapshot_export_data =
  sx_height :: nat
  sx_state_root :: bytes
  sx_format :: nat
  sx_chunks :: "snapshot_chunk list"

definition snapshot_export :: "app_env \<Rightarrow> app \<Rightarrow> (snapshot_export_data, pulsar_error) outcome" where
  "snapshot_export env a =
     o_bind (committed_entries env a) (\<lambda>(h, entries).
     case snapshot_chunks (ap_sha256 env) entries of (leaves, chunks) \<Rightarrow>
     Ok \<lparr>sx_height = h, sx_state_root = merkle_root (ap_sha256 env) leaves, sx_format = SNAPSHOT_FORMAT_V1, sx_chunks = chunks\<rparr>)"

definition import_writes ::
  "app_env \<Rightarrow> block_info \<Rightarrow> kv list \<Rightarrow> bytes \<Rightarrow> ((btree_storage \<times> overlay) \<times> gas_meter, unit, pulsar_error) prog" where
  "import_writes env block records tip_payload =
     m_bind (m_each (\<lambda>(k, v). m_map_err PE_Gas (st_set memory_writer k v)) records) (\<lambda>_.
     m_bind (save_item memory_writer (ap_block env) LAST_BLOCK block) (\<lambda>_.
     save_item memory_writer (ap_bytes env) (height_key BLOCK_PAYLOAD_KEY_PREFIX (bi_height block)) tip_payload))"

definition snapshot_import ::
  "app_env \<Rightarrow> block_info \<Rightarrow> kv list \<Rightarrow> bytes \<Rightarrow> bytes \<Rightarrow> app \<Rightarrow> (unit, pulsar_error) outcome \<times> app" where
  "snapshot_import env block records expected_root tip_payload a =
     (if \<not> verify_snapshot_root (ap_sha256 env) records expected_root then (Err (PE_Std GenericErr), a)
      else case app_write env (import_writes env block records tip_payload) a of
             (Ok _, a1) \<Rightarrow>
               (case load_from_storage env a1 of
                  (Ok _, a2) \<Rightarrow> store_state_root env (a2\<lparr>app_root_index := None\<rparr>)
                | (Err _, a2) \<Rightarrow> (Err (PE_Std GenericErr), a2)
                | (Panic, a2) \<Rightarrow> (Panic, a2))
           | (Err e, a1) \<Rightarrow> (Err e, a1)
           | (Panic, a1) \<Rightarrow> (Panic, a1))"

end
