(* ===== verification/App_Block.thy ===== *)
theory App_Block
  imports App
begin

text \<open>
  The execution of a block, \<open>packages/app/src/app.rs\<close>: all writes of a block go through the tracking
  writer, the root it announces is the root of what it commits, a dry run predicts it, and a
  transaction is atomic.
\<close>

section \<open>Everything a block writes goes through the tracking writer\<close>

lemma via_own [via_rules]:
  assumes "via st p"
  shows "via st (m_own g p)"
  unfolding via_def
proof (intro allI impI preservesI; clarify)
  fix I s h r s' h'
  assume keep: "\<forall>k v. preserves (\<lambda>(s, g). I s) (st_set st k v)" "\<forall>k. preserves (\<lambda>(s, g). I s) (st_remove st k)"
    and s: "I s" and run: "m_own g p (s, h) = (r, (s', h'))"
  obtain q s1 g1 where p: "p (s, g) = (q, (s1, g1))" by (metis prod.exhaust)
  have "preserves (\<lambda>(s, g). I s) p" using assms keep by (simp add: via_def)
  from preservesD [OF this _ p] s have "I s1" by simp
  with run p show "I s'" by (cases q) (simp_all add: m_own_def)
qed

lemma via_fresh [via_rules]:
  assumes "via st p"
  shows "via st (m_fresh g p)"
  unfolding via_def
proof (intro allI impI preservesI; clarify)
  fix I s h r s' h'
  assume keep: "\<forall>k v. preserves (\<lambda>(s, g). I s) (st_set st k v)" "\<forall>k. preserves (\<lambda>(s, g). I s) (st_remove st k)"
    and s: "I s" and run: "m_fresh g p (s, h) = (r, (s', h'))"
  obtain q s1 g1 where p: "p (s, g) = (q, (s1, g1))" by (metis prod.exhaust)
  have "preserves (\<lambda>(s, g). I s) p" using assms keep by (simp add: via_def)
  from preservesD [OF this _ p] s have "I s1" by simp
  with run p show "I s'" by (simp add: m_fresh_def)
qed

lemma via_ignored [via_rules]: "via st (charge_ignored n)" "via st m_remaining" "via st (save_item st c k x)"
  by (auto simp: charge_ignored_def m_remaining_def save_item_def intro!: via_rules)

lemma via_charge_case:
  assumes "\<And>e h. via st (f e h)" "\<And>u h. via st (q u h)"
  shows "via st (case charge n g of (Ok u, h) \<Rightarrow> q u h | (Err e, h) \<Rightarrow> f e h | (Panic, h) \<Rightarrow> m_panic)"
proof -
  obtain r h where "charge n g = (r, h)" by (cases "charge n g")
  with assms show ?thesis by (cases r) (simp_all add: via_basic)
qed

lemma via_read_state: "via st (\<lambda>sg. (Ok (f sg), sg))"
  unfolding via_def by (intro allI impI preservesI) simp

lemma via_execute_msgs [via_rules]: "via st (execute_msgs env st block data)"
  unfolding execute_msgs_def by (intro via_rules via_sm_process_msg sm_via_at)

lemma via_execute_tx [via_rules]: "via st (execute_tx env st block tx)"
  unfolding execute_tx_def run_validated_def by (intro via_rules via_charge_case via_sm_validate_tx sm_via_at)

lemma via_run_block [via_rules]: "via st (run_block env st data block full_block)"
  unfolding run_block_def by (intro via_rules via_sm_blocks [OF sm_via_at])

lemma via_seal_block [via_rules]: "via block_store (seal_block env index block payload)"
  unfolding seal_block_def by (intro via_rules via_read_state)

section \<open>What the application keeps\<close>

text \<open>The entries the state root commits to, in key order, and the root.\<close>

definition consensus_data :: "app \<Rightarrow> kv list" where
  "consensus_data a = filter (\<lambda>(k, v). \<not> is_sidecar k) (bts_data (app_storage a))"

definition app_root :: "app_env \<Rightarrow> app \<Rightarrow> bytes" where
  "app_root env a = merkle_root (ap_sha256 env) (leaves_of (ap_sha256 env) (consensus_data a))"

text \<open>The data is sorted, and a leaf index that is present belongs to it.\<close>

definition app_inv :: "app_env \<Rightarrow> app \<Rightarrow> bool" where
  "app_inv env a \<longleftrightarrow> bts_inv (app_storage a) \<and>
     (\<forall>index. app_root_index a = Some index \<longrightarrow> index_of (ap_sha256 env) (bts_view (app_storage a)) index)"

lemma consensus_data_range:
  assumes "bts_inv (app_storage a)"
  shows "is_range (consensus_map (bts_view (app_storage a))) None None Ascending (consensus_data a)"
proof -
  have "map_of (filter (\<lambda>(k, v). \<not> is_sidecar k) m) k = consensus_map (map_of m) k" for m :: "kv list" and k
    by (induction m) (auto simp: consensus_map_def)
  moreover have "sorted_wrt (<) (map fst (filter P m))" if "bt_inv m" for m :: "kv list" and P
    using that by (simp add: bt_inv_def sorted_wrt_map sorted_wrt_filter)
  ultimately show ?thesis using assms by (simp add: is_range_def consensus_data_def key_lt_funs in_bounds_def)
qed

lemma app_root_pending:
  assumes "bts_inv (app_storage a')" "index_of (ap_sha256 env) m index" "pending_inv d"
    and "consensus_map (bts_view (app_storage a')) = consensus_map (with_pending d m)"
  shows "root_with_pending (ap_sha256 env) index d = app_root env a'"
  unfolding app_root_def
  using root_with_pending_correct [OF assms(2,3)] consensus_data_range [OF assms(1)] assms(4) by simp

lemma index_of_consensus: "consensus_map m = consensus_map m' \<Longrightarrow> index_of sha256 m index \<longleftrightarrow> index_of sha256 m' index"
  by (simp add: index_of_def)

lemma index_op_inv: "bt_inv index \<Longrightarrow> bt_inv (index_op sha256 p index)"
  by (simp add: index_op_def bt_inv_insert bt_inv_remove split: option.split)

lemma index_fold:
  assumes "bt_inv index" "bt_inv d"
  shows "bt_inv (fold (index_op sha256) d index) \<and> map_of (fold (index_op sha256) d index) k =
     (case map_of d k of None \<Rightarrow> map_of index k | Some op \<Rightarrow> map_option (leaf_hash sha256 k) op)"
  using assms
proof (induction d arbitrary: index)
  case (Cons p d)
  have "map_of (index_op sha256 p index) k =
      (if k = fst p then map_option (leaf_hash sha256 k) (snd p) else map_of index k)"
    using Cons.prems(1) by (auto simp: index_op_def bt_get_insert bt_get_remove split: option.split)
  moreover have "k = fst p \<Longrightarrow> map_of d k = None"
    using Cons.prems(2) bt_get_above [of "fst p" "snd p" d k] by simp
  moreover have "bt_inv d" using Cons.prems(2) by (cases p) simp
  ultimately show ?case using Cons.IH [OF index_op_inv [OF Cons.prems(1)]] by (cases p) (auto split: option.splits)
qed simp

lemma index_fold_pending:
  assumes "index_of sha256 m index" "pending_inv d"
  shows "index_of sha256 (with_pending d m) (fold (index_op sha256) d index)"
  using assms index_fold [of index d sha256]
  by (auto simp: index_of_def pending_inv_def with_pending_def consensus_map_def split: option.splits)

lemma index_rebuild:
  assumes "distinct (map fst es)" "bt_inv index"
  shows "bt_inv (fold (\<lambda>(key, value). bt_insert key (leaf_hash sha256 key value)) es index) \<and>
    map_of (fold (\<lambda>(key, value). bt_insert key (leaf_hash sha256 key value)) es index) k =
      (case map_of es k of None \<Rightarrow> map_of index k | Some v \<Rightarrow> Some (leaf_hash sha256 k v))"
  using assms
proof (induction es arbitrary: index)
  case (Cons e es)
  have "k = fst e \<Longrightarrow> map_of es k = None" using Cons.prems(1) by (simp add: map_of_eq_None_iff)
  with Cons.IH [of "bt_insert (fst e) (leaf_hash sha256 (fst e) (snd e)) index"] Cons.prems show ?case
    by (cases e) (auto split: option.splits)
qed simp

lemma rebuild_root_index_ok:
  assumes "rebuild_root_index env a = (Ok u, a')" "bts_inv (app_storage a)"
  shows "\<exists>index. a' = a\<lparr>app_root_index := Some index\<rparr> \<and> index_of (ap_sha256 env) (bts_view (app_storage a)) index"
proof -
  from assms(1) obtain entries where read: "app_read a (\<lambda>s. m_map_err PE_Gas (m_bind (consensus_entries memory_reader s) iter_collect)) = Ok entries"
    and a': "a' = a\<lparr>app_root_index := Some (fold (\<lambda>(key, value). bt_insert key (leaf_hash (ap_sha256 env) key value)) entries [])\<rparr>"
    by (auto simp: rebuild_root_index_def split: outcome.splits)
  from read obtain es g1 g2 where es: "consensus_entries memory_reader (app_storage a) gas_meter_infinite = (Ok es, g1)"
    and en: "iter_collect es g1 = (Ok entries, g2)"
    by (auto simp: app_read_def m_map_err_def m_bind_def split: prod.splits outcome.splits)
  from memory_reader.consensus_entries_view [OF es assms(2)] iter_collect_yields [OF en]
  have range: "is_range (consensus_map (bts_view (app_storage a))) None None Ascending entries" by simp
  then have "distinct (map fst entries)" by (auto simp: is_range_def intro: key_lt_distinct)
  note fold = index_rebuild [OF this, of "[]"]
  have "map_of entries = consensus_map (bts_view (app_storage a))"
    using range by (auto simp: is_range_def in_bounds_def)
  with fold a' show ?thesis by (auto simp: index_of_def split: option.splits)
qed

lemma ensure_root_index_ok:
  assumes run: "ensure_root_index env a = (r, a')" and inv: "app_inv env a"
  shows "app_inv env a'" "app_storage a' = app_storage a" "app_data a' = app_data a" "app_min_gas_price a' = app_min_gas_price a"
    "r = Ok u \<Longrightarrow> \<exists>index. app_root_index a' = Some index \<and> index_of (ap_sha256 env) (bts_view (app_storage a)) index"
proof -
  consider (same) "a' = a" "r = Ok u \<Longrightarrow> app_root_index a \<noteq> None"
    | (built) index where "a' = a\<lparr>app_root_index := Some index\<rparr>" "index_of (ap_sha256 env) (bts_view (app_storage a)) index"
  proof (cases "app_root_index a")
    case None
    with run have run': "rebuild_root_index env a = (r, a')" by (simp add: ensure_root_index_def)
    show thesis
    proof (cases r)
      case (Ok u)
      from rebuild_root_index_ok [OF run' [unfolded Ok]] inv show thesis by (auto simp: app_inv_def intro: built)
    qed (use run' same in \<open>auto simp: rebuild_root_index_def split: outcome.splits\<close>)
  qed (use run same in \<open>auto simp: ensure_root_index_def\<close>)
  then have "app_inv env a' \<and> app_storage a' = app_storage a \<and> app_data a' = app_data a \<and> app_min_gas_price a' = app_min_gas_price a \<and>
    (r = Ok u \<longrightarrow> (\<exists>index. app_root_index a' = Some index \<and> index_of (ap_sha256 env) (bts_view (app_storage a)) index))"
    by cases (use inv in \<open>auto simp: app_inv_def\<close>)
  then show "app_inv env a'" "app_storage a' = app_storage a" "app_data a' = app_data a" "app_min_gas_price a' = app_min_gas_price a"
    "r = Ok u \<Longrightarrow> \<exists>index. app_root_index a' = Some index \<and> index_of (ap_sha256 env) (bts_view (app_storage a)) index" by blast+
qed

section \<open>Commits\<close>

lemma commit_writer_ok:
  assumes "commit_writer env ls g a = (Ok u, a')" "bts_inv (app_storage a)" "bt_inv ls"
  shows "\<exists>s'. a' = a\<lparr>app_storage := s'\<rparr> \<and> bts_inv s' \<and> bts_view s' = overlay_view bts_view (app_storage a, ls)"
  using assms memory_writer_commit_view [OF assms(2,3)]
  by (fastforce simp: commit_writer_def split: prod.splits outcome.splits)

context storage_laws
begin

lemma save_item_view:
  assumes "save_item rd c key x (s, g) = (Ok u, (s', g'))" "inv s"
  shows "inv s' \<and> (\<exists>b. enc c x = Some b \<and> view s' = (view s)(key \<mapsto> b))"
proof -
  have "path_save rd c key x (s, g) = (Ok u, (s', g'))"
    using assms(1) by (auto simp: save_item_def item_save_def path_save_def m_map_err_Ok)
  from path_save_view [OF this assms(2)] show ?thesis .
qed

end

text \<open>What a block leaves in its writer.\<close>

lemma block_writer_state:
  assumes "via block_store p" "p (((s, []), []), g) = (r, (((s', ls), d), g'))" "bts_inv s"
  shows "s' = s \<and> bt_inv ls \<and> tracks (overlay_view bts_view) (bts_view s) ((s', ls), d)"
proof -
  let ?I = "\<lambda>sd. overlay_inv bts_inv (fst sd) \<and> tracks (overlay_view bts_view) (bts_view s) sd"
  from preservesD [OF writer.via_tracks [OF assms(1), of "bts_view s"] _ assms(2)] assms(3)
    tracks_start [of "overlay_view bts_view" "(s, [])"]
  have "overlay_inv bts_inv (s', ls)" "tracks (overlay_view bts_view) (bts_view s) ((s', ls), d)" by simp_all
  moreover have "preserves (\<lambda>(sd, g). fst (fst sd) = s) p"
    using assms(1)
  proof (rule viaD)
    show "preserves (\<lambda>(sd, g). fst (fst sd) = s) (st_set block_store k v)" for k v
      by (auto simp: preserves_def tracking_writer_def tracking_set_def memory_writer_def m_inner_dirty_run)
    show "preserves (\<lambda>(sd, g). fst (fst sd) = s) (st_remove block_store k)" for k
      by (auto simp: preserves_def tracking_writer_def tracking_remove_def memory_writer_def m_inner_dirty_run)
  qed
  from preservesD [OF this _ assms(2)] have "s' = s" by simp
  ultimately show ?thesis by simp
qed

lemma sidecar_names [simp]:
  "is_sidecar LAST_BLOCK" "is_sidecar STATE_ROOT" "is_sidecar PRUNE_FLOOR" "is_sidecar FINALITY_PRUNE_FLOOR"
  "is_sidecar (height_key BLOCK_PAYLOAD_KEY_PREFIX h)" "is_sidecar (height_key BLOCK_CERTIFICATE_KEY_PREFIX h)"
  "is_sidecar (height_key BLOCK_PROPOSAL_KEY_PREFIX h)" "is_sidecar (height_key BLOCK_TIMESTAMP_KEY_PREFIX h)"
  "is_sidecar (TX_RESPONSE_KEY_PREFIX @ t)"
  by (simp_all add: LAST_BLOCK_def STATE_ROOT_def PRUNE_FLOOR_def FINALITY_PRUNE_FLOOR_def height_key_def
      BLOCK_PAYLOAD_KEY_PREFIX_def BLOCK_CERTIFICATE_KEY_PREFIX_def BLOCK_PROPOSAL_KEY_PREFIX_def
      BLOCK_TIMESTAMP_KEY_PREFIX_def TX_RESPONSE_KEY_PREFIX_def ascii_def underscore_def)

lemma sidecar_names_distinct [simp]:
  "LAST_BLOCK \<noteq> STATE_ROOT" "LAST_BLOCK \<noteq> height_key BLOCK_PAYLOAD_KEY_PREFIX h"
  "STATE_ROOT \<noteq> height_key BLOCK_PAYLOAD_KEY_PREFIX h"
  by (simp_all add: LAST_BLOCK_def STATE_ROOT_def height_key_def BLOCK_PAYLOAD_KEY_PREFIX_def ascii_def)

lemma save_sidecar_dirty:
  assumes "save_item block_store c key x ((so, d), g) = (Ok u, ((so', d'), g'))" "is_sidecar key"
  shows "d' = d"
  using assms
  by (auto simp: save_item_def item_save_def m_map_err_Ok m_bind_Ok plus_simps tracking_writer_def tracking_set_def m_inner_dirty_run)

lemma seal_block_view:
  assumes run: "seal_block env index block payload ((so, d), g) = (Ok root, ((so', d'), g'))"
    and inv: "overlay_inv bts_inv so" "pending_inv d" and ok: "codec_ok (ap_block env)" "codec_ok (ap_root env)"
  shows "root = root_with_pending (ap_sha256 env) index d" "d' = d"
    "typed (ap_root env) (overlay_view bts_view so') STATE_ROOT = Some root"
    "typed (ap_block env) (overlay_view bts_view so') LAST_BLOCK = Some block"
proof -
  let ?v = "\<lambda>sd :: (btree_storage \<times> overlay) \<times> pending. overlay_view bts_view (fst sd)"
  let ?save = "case payload of
      Some b \<Rightarrow> save_item block_store (ap_bytes env) (height_key BLOCK_PAYLOAD_KEY_PREFIX (bi_height block)) b | None \<Rightarrow> m_ret ()"
  have "\<exists>x1 x2. save_item block_store (ap_block env) LAST_BLOCK block ((so, d), g) = (Ok (), x1) \<and> ?save x1 = (Ok (), x2) \<and>
      save_item block_store (ap_root env) STATE_ROOT root x2 = (Ok (), ((so', d'), g')) \<and>
      root = root_with_pending (ap_sha256 env) index (snd (fst x2))"
    using run unfolding seal_block_def m_bind_Ok m_ret_run by auto
  then obtain s1 d1 g1 s2 d2 g2 where
    one: "save_item block_store (ap_block env) LAST_BLOCK block ((so, d), g) = (Ok (), ((s1, d1), g1))"
    and two: "?save ((s1, d1), g1) = (Ok (), ((s2, d2), g2))"
    and three: "save_item block_store (ap_root env) STATE_ROOT root ((s2, d2), g2) = (Ok (), ((so', d'), g'))"
    and root: "root = root_with_pending (ap_sha256 env) index d2"
    by (metis fst_conv prod.exhaust snd_conv)
  note v1 = tracked_writer.save_item_view [OF one]
  have inv1: "overlay_inv bts_inv s1 \<and> pending_inv d1" using v1 inv by simp
  have v2: "overlay_inv bts_inv s2 \<and> pending_inv d2 \<and> d2 = d1 \<and> ?v (s2, d2) LAST_BLOCK = ?v (s1, d1) LAST_BLOCK"
  proof (cases payload)
    case (Some b)
    with two tracked_writer.save_item_view [of "ap_bytes env" _ b "(s1, d1)" g1 "()" "(s2, d2)" g2] save_sidecar_dirty inv1
    show ?thesis by fastforce
  qed (use two inv1 in simp)
  note v3 = tracked_writer.save_item_view [OF three]
  show "d' = d" using save_sidecar_dirty [OF one] save_sidecar_dirty [OF three] v2 by simp
  show "root = root_with_pending (ap_sha256 env) index d" using root v2 save_sidecar_dirty [OF one] by simp
  show "typed (ap_root env) (overlay_view bts_view so') STATE_ROOT = Some root" using v3 v2 ok(2) by (auto simp: typed_upd)
  show "typed (ap_block env) (overlay_view bts_view so') LAST_BLOCK = Some block"
    using v1 v2 v3 inv ok(1) by (auto simp: typed_def codec_ok_def) (metis option.inject)
qed

section \<open>Finalizing a block\<close>

lemma finalize_block_cases:
  assumes "finalize_block_impl env fb payload commit a = (Ok resp, a')"
  obtains data block a1 index so ls d g where "app_data a = Some data"
    "block = \<lparr>bi_height = blk_height fb, bi_time = blk_time fb, bi_chain_id = id_chain_id data\<rparr>"
    "bi_height block = bi_height (id_block data) + 1" "bi_time (id_block data) \<le> bi_time block"
    "ensure_root_index env a = (Ok (), a1)" "app_root_index a1 = Some index"
    "block_program env index data block fb payload (((app_storage a1, []), []), gas_meter_infinite) = (Ok resp, (((so, ls), d), g))"
    "commit \<longrightarrow> (\<exists>a2. commit_writer env ls g a1 = (Ok (), a2) \<and>
       a' = a2\<lparr>app_root_index := Some (fold (index_op (ap_sha256 env)) d index), app_data := Some (data\<lparr>id_block := block\<rparr>)\<rparr>)"
    "\<not> commit \<longrightarrow> a' = a1"
proof -
  from assms obtain data where data: "app_data a = Some data" by (cases "app_data a") (auto simp: finalize_block_impl_def)
  let ?b = "\<lparr>bi_height = blk_height fb, bi_time = blk_time fb, bi_chain_id = id_chain_id data\<rparr>"
  obtain q a1 where ens: "ensure_root_index env a = (q, a1)" by (metis prod.exhaust)
  have guards: "bi_height ?b = bi_height (id_block data) + 1" "bi_time (id_block data) \<le> bi_time ?b" "q = Ok ()"
    using assms data ens by (auto simp: finalize_block_impl_def Let_def split: if_splits outcome.splits)
  obtain index where index: "app_root_index a1 = Some index"
    using assms data ens guards by (cases "app_root_index a1") (auto simp: finalize_block_impl_def Let_def split: if_splits)
  obtain r so ls d g where prog: "block_program env index data ?b fb payload (((app_storage a1, []), []), gas_meter_infinite) = (r, (((so, ls), d), g))"
    by (metis prod.exhaust)
  have rest: "(case r of Err e \<Rightarrow> (Err e, a1) | Panic \<Rightarrow> (Panic, a1) | Ok resp \<Rightarrow>
      if commit then (case commit_writer env ls g a1 of
          (Ok _, a2) \<Rightarrow> (Ok resp, a2\<lparr>app_root_index := Some (fold (index_op (ap_sha256 env)) d index), app_data := Some (data\<lparr>id_block := ?b\<rparr>)\<rparr>)
        | (Err e, a2) \<Rightarrow> (Err e, a2) | (Panic, a2) \<Rightarrow> (Panic, a2)) else (Ok resp, a1)) = (Ok resp, a')"
    using assms data ens guards index prog
    by (auto simp: finalize_block_impl_def Let_def split: if_splits outcome.splits)
  show thesis
    by (rule that [OF data refl guards(1,2) ens [unfolded guards(3)] index])
      (use rest prog in \<open>auto split: outcome.splits if_splits prod.splits\<close>)
qed

lemma via_block_program: "via block_store (block_program env index data block fb payload)"
  unfolding block_program_def by (intro via_rules)

lemma block_program_view:
  assumes run: "block_program env index data block fb payload (((s, []), []), g) = (Ok resp, (((s', ls), d), g'))"
    and "bts_inv s" and ok: "codec_ok (ap_block env)" "codec_ok (ap_root env)"
  shows "s' = s" "bt_inv ls" "tracks (overlay_view bts_view) (bts_view s) ((s', ls), d)"
    "fr_app_hash resp = root_with_pending (ap_sha256 env) index d"
    "typed (ap_root env) (overlay_view bts_view (s', ls)) STATE_ROOT = Some (fr_app_hash resp)"
    "typed (ap_block env) (overlay_view bts_view (s', ls)) LAST_BLOCK = Some block"
proof -
  from block_writer_state [OF via_block_program run assms(2)] show "s' = s" "bt_inv ls" "tracks (overlay_view bts_view) (bts_view s) ((s', ls), d)"
    by blast+
  from run obtain ev so1 d1 g1 root where one: "run_block env block_store data block fb (((s, []), []), g) = (Ok ev, ((so1, d1), g1))"
    and two: "seal_block env index block payload ((so1, d1), g1) = (Ok root, (((s', ls), d), g'))"
    and resp: "fr_app_hash resp = root"
    unfolding block_program_def by (auto simp: m_bind_Ok)
  obtain s1 ls1 where so1: "so1 = (s1, ls1)" by (cases so1)
  from block_writer_state [OF via_run_block one [unfolded so1] assms(2)] so1 assms(2)
  have "overlay_inv bts_inv so1" "pending_inv d1" by (auto simp: tracks_def)
  from seal_block_view [OF two this ok] resp show "fr_app_hash resp = root_with_pending (ap_sha256 env) index d"
    "typed (ap_root env) (overlay_view bts_view (s', ls)) STATE_ROOT = Some (fr_app_hash resp)"
    "typed (ap_block env) (overlay_view bts_view (s', ls)) LAST_BLOCK = Some block" by simp_all
qed

lemma finalize_block_view:
  assumes run: "finalize_block_impl env fb payload True a = (Ok resp, a')" and inv: "app_inv env a"
    and ok: "codec_ok (ap_block env)" "codec_ok (ap_root env)"
  obtains data block where "app_data a = Some data" "app_data a' = Some (data\<lparr>id_block := block\<rparr>)"
    "bi_height block = bi_height (id_block data) + 1" "bi_height block = blk_height fb"
    "app_inv env a'" "fr_app_hash resp = app_root env a'"
    "typed (ap_root env) (bts_view (app_storage a')) STATE_ROOT = Some (fr_app_hash resp)"
    "typed (ap_block env) (bts_view (app_storage a')) LAST_BLOCK = Some block"
  using run
proof (cases rule: finalize_block_cases)
  case (1 data block a1 index so ls d g)
  let ?s = "app_storage a" and ?sha = "ap_sha256 env"
  from ensure_root_index_ok [OF 1(5) inv] 1(6) have a1: "app_storage a1 = ?s" "index_of ?sha (bts_view ?s) index" by auto
  have s: "bts_inv ?s" using inv by (simp add: app_inv_def)
  from 1(8) obtain a2 where com: "commit_writer env ls g a1 = (Ok (), a2)"
    and a': "a' = a2\<lparr>app_root_index := Some (fold (index_op ?sha) d index), app_data := Some (data\<lparr>id_block := block\<rparr>)\<rparr>" by blast
  note prog = block_program_view [OF 1(7) [unfolded a1(1)] s ok]
  from commit_writer_ok [OF com] prog(2) s a1(1) obtain s' where s': "app_storage a' = s'" "bts_inv s'"
    and view: "bts_view s' = overlay_view bts_view (?s, ls)" using a' by auto
  have pend: "pending_inv d" and cons: "consensus_map (bts_view s') = consensus_map (with_pending d (bts_view ?s))"
    using prog(1,3) tracks_consensus [of "overlay_view bts_view" "bts_view ?s" "(?s, ls)" d] view by (auto simp: tracks_def)
  from index_fold_pending [OF a1(2) pend] cons index_of_consensus have "index_of ?sha (bts_view s') (fold (index_op ?sha) d index)" by blast
  with s' a' have "app_inv env a'" by (simp add: app_inv_def)
  moreover have "fr_app_hash resp = app_root env a'"
    using app_root_pending [OF _ a1(2) pend, of a'] s' cons prog(4) by simp
  moreover have "typed (ap_root env) (bts_view (app_storage a')) STATE_ROOT = Some (fr_app_hash resp)"
    "typed (ap_block env) (bts_view (app_storage a')) LAST_BLOCK = Some block"
    using prog(1,5,6) s' view by simp_all
  moreover have "app_data a' = Some (data\<lparr>id_block := block\<rparr>)" "bi_height block = blk_height fb" using a' 1(2) by simp_all
  ultimately show thesis using that [OF 1(1) _ 1(3)] by blast
qed

section \<open>Properties\<close>

text \<open>
  C1. A block that is finalized extends the chain by one height, and its app hash is the Merkle root
  of the state it commits: the incrementally computed root is the root of all committed entries
  that are not sidecars, it is what the store holds as the latest root, the leaf index in memory
  belongs to the new state, and the last block in the store is the new one.
\<close>

theorem finalize_block_root:
  assumes run: "finalize_block_impl env fb payload True a = (Ok resp, a')" and inv: "app_inv env a"
    and ok: "codec_ok (ap_block env)" "codec_ok (ap_root env)"
  shows "\<exists>data block. app_data a = Some data \<and> app_data a' = Some (data\<lparr>id_block := block\<rparr>) \<and>
     bi_height block = bi_height (id_block data) + 1 \<and> bi_height block = blk_height fb \<and>
     app_inv env a' \<and> fr_app_hash resp = app_root env a' \<and>
     typed (ap_root env) (bts_view (app_storage a')) STATE_ROOT = Some (fr_app_hash resp) \<and>
     typed (ap_block env) (bts_view (app_storage a')) LAST_BLOCK = Some block"
  by (rule finalize_block_view [OF assms]) blast

text \<open>An application at height 1 with one account entry and its data loaded.\<close>

definition block_info_bytes :: "block_info \<Rightarrow> bytes" where
  "block_info_bytes b = fields_enc [replicate (bi_height b) 0, replicate (bi_time b) 0, bi_chain_id b]"

definition block_info_codec :: "block_info codec" where
  "block_info_codec =
     \<lparr>enc = (\<lambda>b. Some (block_info_bytes b)),
      dec = (\<lambda>b. case fields_dec 3 b of
         [h, t, c] \<Rightarrow> Some \<lparr>bi_height = length h, bi_time = length t, bi_chain_id = c\<rparr> | _ \<Rightarrow> None)\<rparr>"

lemma block_info_codec_simps [simp]:
  "enc block_info_codec b = Some (block_info_bytes b)" "dec block_info_codec (block_info_bytes b) = Some b"
  "length (block_info_bytes b) = 2 * (bi_height b + bi_time b + length (bi_chain_id b)) + 3"
  by (simp_all add: block_info_codec_def block_info_bytes_def fields_enc_def eval_nat_numeral)

lemma block_info_codec_ok: "codec_ok block_info_codec" "codec_ok raw_codec"
  by (simp_all add: codec_ok_def raw_codec_def)

definition test_params :: block_params where
  "test_params = \<lparr>bp_max_bytes = 1000, bp_max_gas = None\<rparr>"

definition test_app_env :: app_env where
  "test_app_env =
     \<lparr>ap_chain = test_chain writing_vm, ap_depth = 3, ap_block = block_info_codec,
      ap_state = \<lparr>enc = \<lambda>_. Some [], dec = \<lambda>_. Some \<lparr>as_chain_id = [], as_params = test_params\<rparr>\<rparr>,
      ap_root = raw_codec, ap_genesis = \<lambda>_. None, ap_decimal = \<lambda>_. None\<rparr>"

definition test_app :: app where
  "test_app =
     \<lparr>app_storage = committed_store, app_min_gas_price = None, app_root_index = None,
      app_data = Some \<lparr>id_block = test_block, id_chain_id = [], id_params = test_params\<rparr>\<rparr>"

definition next_block :: block where
  "next_block = \<lparr>blk_txs = [], blk_height = 2, blk_time = 1, blk_proposer = []\<rparr>"

lemmas app_defs [app_exec] = test_app_env_def test_app_def next_block_def committed_store_def test_params_def raw_codec_def
  finalize_block_impl_def ensure_root_index_def rebuild_root_index_def app_read_def block_program_def
  run_block_def seal_block_def m_fresh_def save_item_def commit_writer_def index_op_def
  sm_begin_block_def sm_end_block_def block_gas_meter_def
  MAX_BEGIN_BLOCK_GAS_def MAX_END_BLOCK_GAS_def STATE_ROOT_def LAST_BLOCK_def PROPOSER_KEY_def
  tracking_writer_def tracking_set_def tracking_remove_def m_inner_def m_dirty_def underscore_def
  consensus_entries_def SIDECAR_PREFIX_def SIDECAR_PREFIX_END_def root_with_pending_def leaf_hash_def merkle_root_def
  merkle_loop.simps memory_writer_commit_def reader_wrapper_prepare_def fast_hasher_new_def fast_hasher_hash_def
  fast_hasher_set_def fast_hasher_remove_def ensure_hasher_def

lemma test_finalize_ok: "\<exists>resp. fst (finalize_block_impl test_app_env next_block None True test_app) = Ok resp"
  by (simp add: app_exec test_chain_def test_vm_def writing_vm_def test_exec plus_exec namespace_exec store_exec gas_exec prog_exec Let_def)

lemma test_app_inv: "app_inv test_app_env test_app"
  by (simp add: app_inv_def test_app_def committed_store_def btree_storage_new_def)

definition test_finalize where
  "test_finalize = finalize_block_impl test_app_env next_block None True test_app"

theorem finalize_block_root_witness:
  "\<exists>resp. fst test_finalize = Ok resp \<and> fr_app_hash resp = app_root test_app_env (snd test_finalize) \<and>
     map_option (bi_height \<circ> id_block) (app_data (snd test_finalize)) = Some 2"
proof -
  obtain resp where "fst test_finalize = Ok resp" using test_finalize_ok by (auto simp: test_finalize_def)
  then have run: "finalize_block_impl test_app_env next_block None True test_app = (Ok resp, snd test_finalize)"
    by (metis prod.collapse test_finalize_def)
  have ok: "codec_ok (ap_block test_app_env)" "codec_ok (ap_root test_app_env)"
    by (simp_all add: test_app_env_def block_info_codec_ok)
  from finalize_block_root [OF run test_app_inv ok] obtain data block where
    "app_data (snd test_finalize) = Some (data\<lparr>id_block := block\<rparr>)" "bi_height block = blk_height next_block"
    "fr_app_hash resp = app_root test_app_env (snd test_finalize)" by blast
  with \<open>fst test_finalize = Ok resp\<close> show ?thesis by (simp add: next_block_def)
qed

text \<open>
  C10. A dry run predicts the block: whenever \<open>finalize_block\<close> succeeds, \<open>simulate_finalize_block\<close>
  returns the same response, with the same app hash; and a dry run never changes the store or the
  cached block, whatever its outcome.
\<close>

theorem dry_run_predicts:
  assumes "app_inv env a" "simulate_finalize_block env fb a = (r, a')"
  shows "app_storage a' = app_storage a \<and> app_data a' = app_data a \<and> app_inv env a' \<and>
    (\<forall>resp b. finalize_block env fb a = (Ok resp, b) \<longrightarrow> r = Ok resp)"
proof -
  obtain q a1 where ens: "ensure_root_index env a = (q, a1)" by (metis prod.exhaust)
  note a1 = ensure_root_index_ok [OF ens assms(1)]
  from assms(2) ens have "a' = a \<or> a' = a1"
    by (auto simp: simulate_finalize_block_def finalize_block_impl_def Let_def split: if_splits outcome.splits option.splits prod.splits)
  moreover have "r = Ok resp" if "finalize_block env fb a = (Ok resp, b)" for resp b
    using that [unfolded finalize_block_def]
  proof (cases rule: finalize_block_cases)
    case (1 data block a1 index so ls d g)
    have "\<not> bi_height (id_block data) + 1 > u64_max"
      using that 1(1) by (auto simp: finalize_block_def finalize_block_impl_def Let_def split: if_splits)
    with assms(2) 1 show ?thesis by (simp add: simulate_finalize_block_def finalize_block_impl_def Let_def)
  qed
  ultimately show ?thesis using a1 assms(1) by auto
qed

theorem dry_run_predicts_witness:
  "fst (simulate_finalize_block test_app_env next_block test_app) = fst (finalize_block test_app_env next_block test_app) \<and>
   (\<exists>resp. fst (finalize_block test_app_env next_block test_app) = Ok resp)"
proof -
  obtain resp where ok: "fst (finalize_block test_app_env next_block test_app) = Ok resp"
    using test_finalize_ok by (auto simp: finalize_block_def)
  then have run: "finalize_block test_app_env next_block test_app = (Ok resp, snd (finalize_block test_app_env next_block test_app))"
    by (metis prod.collapse)
  from dry_run_predicts [OF test_app_inv prod.collapse [symmetric]] run ok show ?thesis by metis
qed

section \<open>One transaction\<close>

lemma commit_to_block_store:
  "\<exists>sd'. sub_tx_commit block_store ls (sd, g) = (Ok (), (sd', g))"
proof (induction ls arbitrary: sd)
  case Nil
  then show ?case by (simp add: sub_tx_commit_def)
next
  case (Cons e ls)
  have "\<exists>sd1. write_delta block_store e (sd, g) = (Ok (), (sd1, g))"
    by (cases sd; cases "fst sd"; cases e rule: take_left.cases)
      (auto simp: tracking_writer_def tracking_set_def tracking_remove_def memory_writer_def m_inner_dirty_run)
  with Cons.IH show ?case by (fastforce simp: sub_tx_commit_def m_bind_step)
qed

lemma atomic_block_fail:
  assumes "via (sub_tx block_store) f" "atomic block_store PE_Gas f (sd, g) = (r, (sd', g'))" "\<not> (\<exists>x. r = Ok x)"
  shows "sd' = sd"
proof -
  obtain q s1 ls g1 where f: "f ((sd, []), g) = (q, ((s1, ls), g1))" by (metis prod.exhaust)
  have base: "s1 = sd" using keeps_baseD [OF via_keeps_base [OF assms(1)] f] by simp
  show ?thesis
  proof (cases q)
    case (Ok x)
    obtain sd1 where "sub_tx_commit block_store ls (sd, g1) = (Ok (), (sd1, g1))" using commit_to_block_store by blast
    with Ok f base assms(2) have "r = Ok x" by (simp add: atomic_def m_bind_def m_map_err_def m_ret_def)
    with assms(3) show ?thesis by blast
  qed (use f base assms(2) in \<open>auto simp: atomic_def\<close>)
qed

lemma m_bind_add: "m_bind (m_lift (u64_add x y)) f s = (Ok b, t) \<Longrightarrow> f (x + y) s = (Ok b, t)"
  by (auto simp: m_bind_def m_lift_def u64_add_def split: if_splits)

lemma m_bind_mul: "m_bind (m_lift (u64_mul x y)) f s = (Ok b, t) \<Longrightarrow> f (x * y) s = (Ok b, t)"
  by (auto simp: m_bind_def m_lift_def u64_mul_def split: if_splits)

lemma m_bind_own:
  "m_bind (m_own g p) f (s, h) = (case p (s, g) of (Ok a, (s', g')) \<Rightarrow> f (Inr a, g') (s', h)
     | (Err e, (s', g')) \<Rightarrow> f (Inl e, g') (s', h) | (Panic, (s', g')) \<Rightarrow> (Panic, (s', h)))"
  by (auto simp: m_bind_def m_own_def split: prod.split outcome.split)

lemma charge_ignored_ret: "m_bind (charge_ignored n) (\<lambda>_. m_ret x) (s, h) = (Ok y, (s', h')) \<Longrightarrow> y = x \<and> s' = s"
  by (auto simp: m_bind_Ok charge_ignored_def)

lemma run_validated_atomic:
  assumes "run_validated env block_store blk val bytes data (sd, bm) = (Ok res, (sd', bm'))"
  shows "case txr_result res of
      Inl e \<Rightarrow> sd' = sd
    | Inr r \<Rightarrow> \<exists>meter meter' resps. execute_msgs env block_store blk data (sd, meter) = (Ok resps, (sd', meter')) \<and>
        r = tx_response_of resps"
proof -
  note run = m_bind_add [OF assms [unfolded run_validated_def]]
  let ?cost = "used val + bytes"
  obtain c meter where c: "charge ?cost (gas_meter_new (td_gas_wanted data)) = (c, meter)" by (metis prod.exhaust)
  obtain q sd1 meter' where q: "execute_msgs env block_store blk data (sd, meter) = (q, (sd1, meter'))" by (metis prod.exhaust)
  have fail: "sd1 = sd" if "\<not> (\<exists>x. q = Ok x)"
    using atomic_block_fail [OF _ q [unfolded execute_msgs_def] that] by (auto intro!: via_rules via_sm_process_msg sm_via_at)
  show ?thesis
  proof (cases c)
    case (Ok u)
    have rem: "m_bind m_remaining f (sd, bm) = f (remaining bm) (sd, bm)" for f
      by (simp add: m_bind_def m_remaining_def m_meter_def)
    show ?thesis
    proof (cases "td_gas_wanted data > remaining bm")
      case True
      with run c Ok show ?thesis by (auto simp: rem)
    next
      case False
      show ?thesis
      proof (cases q)
        case (Ok rs)
        with run c \<open>c = Ok u\<close> q False have "sd' = sd1 \<and> txr_result res = Inr (tx_response_of rs)"
          by (auto simp: rem m_bind_own dest!: charge_ignored_ret)
        with q Ok have "execute_msgs env block_store blk data (sd, meter) = (Ok rs, (sd', meter')) \<and>
          txr_result res = Inr (tx_response_of rs)" by simp
        then show ?thesis by (simp only: sum.case) (elim conjE, intro exI conjI, assumption, rule refl)
      qed (use run c Ok q fail False in \<open>auto simp: rem m_bind_own dest!: charge_ignored_ret\<close>)
    qed
  qed (use run c in \<open>auto dest!: charge_ignored_ret\<close>)
qed

text \<open>
  C3. A transaction is atomic in two steps. When its validation fails it changes nothing. When the
  validation succeeds, its writes (sequence number and fee) stay; if then the gas, the room in the
  block or any message fails, nothing else stays, and otherwise the writes of all messages stay.
\<close>

theorem execute_tx_atomic:
  assumes run: "execute_tx env block_store blk tx (sd, bm) = (Ok res :: (tx_result, 'e) outcome, (sd', bm'))"
  shows "case atomic block_store PE_Gas
      (sm_validate_tx (ap_chain env) (sm_at (ap_depth env) (ap_chain env)) (sub_tx block_store) blk tx)
      (sd, gas_meter_new MAX_VALIDATE_GAS) of
    (Err e, _) \<Rightarrow> sd' = sd \<and> txr_result res = Inl e
  | (Panic, _) \<Rightarrow> False
  | (Ok data, (sd1, _)) \<Rightarrow>
      (case txr_result res of
         Inl e \<Rightarrow> sd' = sd1
       | Inr r \<Rightarrow> \<exists>meter meter' resps. execute_msgs env block_store blk data (sd1, meter) = (Ok resps, (sd', meter')) \<and>
           r = tx_response_of resps)"
proof -
  let ?val = "sm_validate_tx (ap_chain env) (sm_at (ap_depth env) (ap_chain env)) (sub_tx block_store) blk tx"
  have via: "via (sub_tx block_store) ?val" by (rule via_sm_validate_tx [OF sm_via_at])
  obtain q sd1 val where v: "atomic block_store PE_Gas ?val (sd, gas_meter_new MAX_VALIDATE_GAS) = (q, (sd1, val))" by (metis prod.exhaust)
  note step = m_bind_mul [OF run [unfolded execute_tx_def]]
  show ?thesis
  proof (cases q)
    case (Ok data)
    with step v have "run_validated env block_store blk val (tx_len tx * GAS_COST_TX_BYTE) data (sd1, bm) =
      (Ok res :: (tx_result, 'e) outcome, (sd', bm'))" by (simp add: m_bind_own)
    from run_validated_atomic [OF this] v Ok show ?thesis by simp
  next
    case (Err e)
    with step v have "res = \<lparr>txr_gas = gas_info_from_meter val, txr_result = Inl e\<rparr> \<and> sd' = sd1"
      by (auto simp: m_bind_own dest!: charge_ignored_ret)
    with v Err atomic_block_fail [OF via v] show ?thesis by auto
  qed (use step v in \<open>simp add: m_bind_own\<close>)
qed


text \<open>A transaction without messages, on a fresh store, and the same one after its timeout.\<close>

definition test_run :: "nat \<Rightarrow> (tx_result, pulsar_error) outcome \<times> (((btree_storage \<times> overlay) \<times> pending) \<times> gas_meter)" where
  "test_run h = execute_tx test_app_env block_store (test_block\<lparr>bi_height := h\<rparr>)
     (test_tx 0\<lparr>tx_fee := \<lparr>fee = None, gas_limit = 100000\<rparr>\<rparr>) (((btree_storage_new, []), []), gas_meter_new 1000000)"

lemmas tx_exec = test_run_def execute_tx_def run_validated_def execute_msgs_def m_own_def charge_ignored_def m_remaining_def
  sm_validate_tx_def auth_of_def test_tx_def test_key_def MAX_VALIDATE_GAS_def GAS_COST_TX_BYTE_def tx_len_def
  atomic_def sub_tx_commit_def app_meter_def sm_process_msg_def bank_of_def test_chain_def test_vm_def writing_vm_def

lemma test_run_expired: "\<exists>res bm. test_run 6 = (Ok res, (((btree_storage_new, []), []), bm)) \<and> (\<exists>e. txr_result res = Inl e)"
  by (simp add: tx_exec account_codec_def app_exec test_exec auth_exec plus_exec namespace_exec store_exec
      gas_exec prog_exec Let_def)

lemma test_run_ok: "\<exists>res sd bm. test_run 1 = (Ok res, (sd, bm)) \<and> txr_result res = Inr (tx_response_of [])"
  by (simp add: tx_exec account_codec_def app_exec test_exec auth_exec plus_exec namespace_exec store_exec
      gas_exec prog_exec Let_def)


theorem execute_tx_atomic_witness:
  "\<exists>res sd bm. test_run 1 = (Ok res, (sd, bm)) \<and> txr_result res = Inr (tx_response_of []) \<and>
     (\<exists>data sd1 meter meter'. execute_msgs test_app_env block_store (test_block\<lparr>bi_height := 1\<rparr>) data (sd1, meter) = (Ok [], (sd, meter')))"
proof -
  obtain res sd bm where run: "test_run 1 = (Ok res, (sd, bm))" and ok: "txr_result res = Inr (tx_response_of [])"
    using test_run_ok by metis
  have "resps = []" if "tx_response_of [] = tx_response_of resps" for resps
    using that by (simp add: tx_response_of_def)
  with execute_tx_atomic [OF run [unfolded test_run_def]] ok
  have "\<exists>data sd1 meter meter'. execute_msgs test_app_env block_store (test_block\<lparr>bi_height := 1\<rparr>) data (sd1, meter) = (Ok [], (sd, meter'))"
    by (fastforce split: prod.splits outcome.splits)
  with run ok show ?thesis by blast
qed

end
