(* ===== verification/App_State.thy ===== *)
theory App_State
  imports App_Block
begin

text \<open>
  The state of the application between operations, \<open>packages/app/src/app.rs\<close>: the invariant that
  every operation keeps, sidecar records and pruning, state proofs, the fee floor of the mempool and
  state sync.
\<close>

section \<open>Writes outside a block\<close>

lemma codec_dec: "codec_ok c \<Longrightarrow> enc c x = Some b \<Longrightarrow> dec c b = Some x"
  unfolding codec_ok_def by (metis option.inject)

lemma app_write_ok:
  assumes run: "app_write env p a = (Ok x, a')" and via: "via memory_writer p" and inv: "bts_inv (app_storage a)"
  obtains so g s' where "p ((app_storage a, []), gas_meter_infinite) = (Ok x, (so, g))" "overlay_inv bts_inv so"
    "a' = a\<lparr>app_storage := s'\<rparr>" "bts_inv s'" "bts_view s' = overlay_view bts_view so"
proof -
  obtain r s ls g where p: "p ((app_storage a, []), gas_meter_infinite) = (r, ((s, ls), g))" by (metis prod.exhaust)
  have "preserves (\<lambda>(so, g). overlay_inv bts_inv so \<and> fst so = app_storage a) p"
    using via by (rule viaD) (auto simp: preserves_def memory_writer_def bt_inv_insert)
  from preservesD [OF this _ p] inv have s: "s = app_storage a" "bt_inv ls" by auto
  from run p obtain u where r: "r = Ok x" and com: "commit_writer env ls g a = (Ok u, a')"
    by (auto simp: app_write_def split: outcome.splits prod.splits)
  from commit_writer_ok [OF com inv s(2)] show thesis
    using that [of "(s, ls)" g] p r s inv by auto
qed

lemma via_writer_ops [via_rules]:
  "via memory_writer (remove_keys keys)" "via memory_writer (import_writes env block records payload)"
  "via memory_writer (finality_writes env h cert prop nanos)"
  unfolding remove_keys_def import_writes_def finality_writes_def by (auto intro!: via_rules)

lemma remove_keys_view:
  assumes "remove_keys keys (so, g) = (Ok u, (so', g'))" "overlay_inv bts_inv so"
  shows "overlay_inv bts_inv so' \<and>
    overlay_view bts_view so' = (\<lambda>k. if k \<in> set keys then None else overlay_view bts_view so k)"
  using assms
proof (induction keys arbitrary: so g)
  case (Cons key keys)
  from Cons.prems(1) obtain s1 g1 where one: "st_remove memory_writer key (so, g) = (Ok (), (s1, g1))"
    and rest: "remove_keys keys (s1, g1) = (Ok u, (so', g'))"
    by (auto simp: remove_keys_def m_bind_Ok m_map_err_Ok item_remove_def)
  from writer.remove_ok [OF Cons.prems(2) one] Cons.IH [OF rest] show ?case by auto
qed (simp add: remove_keys_def)

lemma set_each_view:
  assumes "m_each (\<lambda>(k, v). m_map_err PE_Gas (st_set memory_writer k v)) es (so, g) = (Ok u, (so', g'))" "overlay_inv bts_inv so"
    and "distinct (map fst es)"
  shows "overlay_inv bts_inv so' \<and>
    overlay_view bts_view so' = overlay_view bts_view so ++ map_of es"
  using assms
proof (induction es arbitrary: so g)
  case (Cons e es)
  obtain k v where e: "e = (k, v)" by (cases e)
  from Cons.prems(1) e obtain s1 g1 where one: "st_set memory_writer k v (so, g) = (Ok (), (s1, g1))"
    and rest: "m_each (\<lambda>(k, v). m_map_err PE_Gas (st_set memory_writer k v)) es (s1, g1) = (Ok u, (so', g'))"
    by (auto simp: m_bind_Ok m_map_err_Ok)
  have "map_of es k = None" using Cons.prems(3) e by (simp add: map_of_eq_None_iff)
  with writer.set_ok [OF Cons.prems(2) one] Cons.IH [OF rest] Cons.prems(3) e show ?case
    by (auto simp: fun_eq_iff map_add_def split: option.split)
qed simp

section \<open>Sidecar writes\<close>

lemma same_consensus:
  assumes "bts_inv (app_storage a)" "bts_inv (app_storage a')"
    and "consensus_map (bts_view (app_storage a')) = consensus_map (bts_view (app_storage a))"
  shows "consensus_data a' = consensus_data a" "app_root env a' = app_root env a"
  using is_range_unique consensus_data_range [OF assms(1)] consensus_data_range [OF assms(2)] assms(3)
  by (metis, metis app_root_def)

text \<open>What every write outside a block does: keys not in \<open>K\<close> stay, and all of \<open>K\<close> are sidecars.\<close>

definition sidecar_change :: "app_env \<Rightarrow> bytes set \<Rightarrow> app \<Rightarrow> app \<Rightarrow> bool" where
  "sidecar_change env K a a' \<longleftrightarrow> app_inv env a' \<and> app_data a' = app_data a \<and> app_min_gas_price a' = app_min_gas_price a \<and>
     consensus_data a' = consensus_data a \<and> app_root env a' = app_root env a \<and>
     (\<forall>k. k \<notin> K \<longrightarrow> bts_view (app_storage a') k = bts_view (app_storage a) k)"

lemma sidecar_write:
  assumes run: "app_write env p a = (Ok x, a')" and via: "via memory_writer p" and inv: "app_inv env a"
    and K: "\<And>k. k \<in> K \<Longrightarrow> is_sidecar k"
    and only: "\<And>so g k. p ((app_storage a, []), gas_meter_infinite) = (Ok x, (so, g)) \<Longrightarrow> k \<notin> K \<Longrightarrow>
      overlay_view bts_view so k = overlay_view bts_view (app_storage a, []) k"
  shows "sidecar_change env K a a'"
proof -
  have s: "bts_inv (app_storage a)" using inv by (simp add: app_inv_def)
  from app_write_ok [OF run via s] obtain so g s' where p: "p ((app_storage a, []), gas_meter_infinite) = (Ok x, (so, g))"
    and s': "a' = a\<lparr>app_storage := s'\<rparr>" "bts_inv s'" "bts_view s' = overlay_view bts_view so" by metis
  have same: "bts_view s' k = bts_view (app_storage a) k" if "k \<notin> K" for k
    using only [OF p that] s'(3) by simp
  then have cons: "consensus_map (bts_view s') = consensus_map (bts_view (app_storage a))"
    using K by (auto simp: consensus_map_def fun_eq_iff)
  have "app_inv env a'" using inv s'(1,2) by (simp add: app_inv_def index_of_consensus [OF cons])
  moreover have "consensus_data a' = consensus_data a" "app_root env a' = app_root env a"
    using same_consensus [OF s, of a'] cons s'(1,2) by simp_all
  ultimately show ?thesis using same s'(1) by (simp add: sidecar_change_def)
qed

lemma set_record_change:
  assumes "set_record env c key x a = (Ok u, a')" "app_inv env a" "is_sidecar key"
  shows "sidecar_change env {key} a a'" "\<exists>b. enc c x = Some b \<and> bts_view (app_storage a') key = Some b"
proof -
  note run = assms(1) [unfolded set_record_def]
  have s: "bts_inv (app_storage a)" using assms(2) by (simp add: app_inv_def)
  show "sidecar_change env {key} a a'"
    by (rule sidecar_write [OF run _ assms(2)]) (use assms(3) s in \<open>auto intro!: via_rules dest!: writer.save_item_view\<close>)
  show "\<exists>b. enc c x = Some b \<and> bts_view (app_storage a') key = Some b"
    by (rule app_write_ok [OF run via_ignored(3) s]) (use s in \<open>auto dest!: writer.save_item_view\<close>)
qed

lemma prune_change:
  assumes run: "app_write env (m_bind (remove_keys keys) (\<lambda>_. m_bind (save_item memory_writer c floor x) (\<lambda>_. m_ret n))) a = (Ok y, a')"
    and inv: "app_inv env a" and K: "\<forall>k\<in>set keys. is_sidecar k" "is_sidecar floor"
  shows "sidecar_change env (insert floor (set keys)) a a'" "y = n"
    "\<exists>b. enc c x = Some b \<and> bts_view (app_storage a') = (\<lambda>k. if k \<in> set keys then None else bts_view (app_storage a) k)(floor \<mapsto> b)"
proof -
  let ?p = "m_bind (remove_keys keys) (\<lambda>_. m_bind (save_item memory_writer c floor x) (\<lambda>_. m_ret n))"
  have s: "bts_inv (app_storage a)" using inv by (simp add: app_inv_def)
  have via: "via memory_writer ?p" by (intro via_rules)
  have view: "y = n \<and> (\<exists>b. enc c x = Some b \<and> overlay_view bts_view so =
      (\<lambda>k. if k \<in> set keys then None else bts_view (app_storage a) k)(floor \<mapsto> b))"
    if p: "?p ((app_storage a, []), gas_meter_infinite) = (Ok y, (so, g))" for so g
  proof -
    from p obtain u s1 g1 v where "remove_keys keys ((app_storage a, []), gas_meter_infinite) = (Ok u, (s1, g1))"
      "save_item memory_writer c floor x (s1, g1) = (Ok v, (so, g))" "y = n" by (auto simp: m_bind_Ok)
    with remove_keys_view [of keys "(app_storage a, [])"] writer.save_item_view [of c floor x s1 g1 v so g] s
    show ?thesis by fastforce
  qed
  show "sidecar_change env (insert floor (set keys)) a a'"
  proof (rule sidecar_write [OF run via inv])
    show "overlay_view bts_view so k = overlay_view bts_view (app_storage a, []) k"
      if "?p ((app_storage a, []), gas_meter_infinite) = (Ok y, (so, g))" "k \<notin> insert floor (set keys)" for so g k
      using view [OF that(1)] that(2) by auto
  qed (use K in auto)
  show "y = n" "\<exists>b. enc c x = Some b \<and> bts_view (app_storage a') = (\<lambda>k. if k \<in> set keys then None else bts_view (app_storage a) k)(floor \<mapsto> b)"
    by (rule app_write_ok [OF run via s], drule view, simp)+
qed

lemma store_state_root_change:
  assumes run: "store_state_root env a = (Ok u, a')" and inv: "app_inv env a" and ok: "codec_ok (ap_root env)"
  shows "sidecar_change env {STATE_ROOT} a a'" "typed (ap_root env) (bts_view (app_storage a')) STATE_ROOT = Some (app_root env a')"
proof -
  obtain r a1 where ens: "ensure_root_index env a = (r, a1)" by (metis prod.exhaust)
  with run obtain index where r: "r = Ok ()" and index: "app_root_index a1 = Some index"
    and set: "set_record env (ap_root env) STATE_ROOT (root_with_pending (ap_sha256 env) index []) a1 = (Ok u, a')"
    by (auto simp: store_state_root_def set_record_def split: outcome.splits option.splits)
  note a1 = ensure_root_index_ok [OF ens inv]
  from a1(5) [OF r] index a1(2) have "index_of (ap_sha256 env) (bts_view (app_storage a1)) index" by simp
  from app_root_pending [OF _ this, of a1 "[]"] a1(1) have root: "root_with_pending (ap_sha256 env) index [] = app_root env a1"
    by (simp add: app_inv_def pending_inv_def with_pending_def [abs_def])
  have same: "consensus_data a1 = consensus_data a" "app_root env a1 = app_root env a"
    using a1(2) by (simp_all add: consensus_data_def app_root_def)
  note ch = set_record_change [OF set a1(1) sidecar_names(2)]
  from ch(1) a1 same show "sidecar_change env {STATE_ROOT} a a'" by (simp add: sidecar_change_def)
  from ch ok root show "typed (ap_root env) (bts_view (app_storage a')) STATE_ROOT = Some (app_root env a')"
    by (auto simp: sidecar_change_def typed_def codec_dec)
qed

section \<open>Every operation of the application\<close>

inductive sidecar_step :: "app_env \<Rightarrow> app \<Rightarrow> app \<Rightarrow> bool" for env where
  Certificate: "set_block_certificate env h b a = (Ok u, a') \<Longrightarrow> sidecar_step env a a'"
| Proposal: "set_block_proposal env h b a = (Ok u, a') \<Longrightarrow> sidecar_step env a a'"
| Timestamp: "set_block_timestamp env h n a = (Ok u, a') \<Longrightarrow> sidecar_step env a a'"
| Finality: "set_block_finality env h b p n a = (Ok u, a') \<Longrightarrow> sidecar_step env a a'"
| Payload: "set_block_payload env h b a = (Ok u, a') \<Longrightarrow> sidecar_step env a a'"
| Response: "set_tx_response env t b a = (Ok u, a') \<Longrightarrow> sidecar_step env a a'"
| Prune_Sidecars: "prune_sidecars env hs ts n a = (Ok m, a') \<Longrightarrow> sidecar_step env a a'"
| Prune_Finality: "prune_finality env hs n a = (Ok m, a') \<Longrightarrow> sidecar_step env a a'"

text \<open>A restart makes a new application over the same storage.\<close>

inductive app_step :: "app_env \<Rightarrow> app \<Rightarrow> app \<Rightarrow> bool" for env where
  Restart: "app_step env a (app_new (app_storage a))"
| Price: "app_step env a (set_min_gas_price mgp a)"
| Load: "load_from_storage env a = (Ok u, a') \<Longrightarrow> app_step env a a'"
| Init: "app_init env request a = (Ok h, a') \<Longrightarrow> app_step env a a'"
| Finalize: "finalize_block_impl env fb payload commit a = (Ok resp, a') \<Longrightarrow> app_step env a a'"
| Sidecar: "sidecar_step env a a' \<Longrightarrow> app_step env a a'"
| Import: "snapshot_import env block records root payload a = (Ok u, a') \<Longrightarrow> app_step env a a'"

lemma chain_keys_distinct [simp]:
  "height_key P h \<noteq> LAST_BLOCK" "height_key P h \<noteq> STATE_ROOT" "LAST_BLOCK \<noteq> height_key P h" "STATE_ROOT \<noteq> height_key P h"
  if "P \<in> {BLOCK_CERTIFICATE_KEY_PREFIX, BLOCK_PROPOSAL_KEY_PREFIX, BLOCK_TIMESTAMP_KEY_PREFIX, BLOCK_PAYLOAD_KEY_PREFIX}"
  using that by (auto simp: LAST_BLOCK_def STATE_ROOT_def height_key_def BLOCK_PAYLOAD_KEY_PREFIX_def
      BLOCK_CERTIFICATE_KEY_PREFIX_def BLOCK_PROPOSAL_KEY_PREFIX_def BLOCK_TIMESTAMP_KEY_PREFIX_def ascii_def)

lemma chain_keys_other [simp]:
  "LAST_BLOCK \<noteq> TX_RESPONSE_KEY_PREFIX @ t" "STATE_ROOT \<noteq> TX_RESPONSE_KEY_PREFIX @ t" "LAST_BLOCK \<noteq> PRUNE_FLOOR"
  "STATE_ROOT \<noteq> PRUNE_FLOOR" "LAST_BLOCK \<noteq> FINALITY_PRUNE_FLOOR" "STATE_ROOT \<noteq> FINALITY_PRUNE_FLOOR"
  by (simp_all add: LAST_BLOCK_def STATE_ROOT_def TX_RESPONSE_KEY_PREFIX_def PRUNE_FLOOR_def FINALITY_PRUNE_FLOOR_def ascii_def)

definition chain_keys :: "bytes set" where
  "chain_keys = {LAST_BLOCK, STATE_ROOT}"

lemma finality_change:
  assumes "set_block_finality env h cert prop nanos a = (Ok u, a')" "app_inv env a"
  shows "sidecar_change env {height_key BLOCK_CERTIFICATE_KEY_PREFIX h, height_key BLOCK_PROPOSAL_KEY_PREFIX h,
    height_key BLOCK_TIMESTAMP_KEY_PREFIX h} a a'"
proof (rule sidecar_write [OF assms(1) [unfolded set_block_finality_def] via_writer_ops(3) assms(2)])
  fix so g k
  let ?K = "{height_key BLOCK_CERTIFICATE_KEY_PREFIX h, height_key BLOCK_PROPOSAL_KEY_PREFIX h, height_key BLOCK_TIMESTAMP_KEY_PREFIX h}"
  assume "finality_writes env h cert prop nanos ((app_storage a, []), gas_meter_infinite) = (Ok u, (so, g))" and k: "k \<notin> ?K"
  then obtain s1 g1 s2 g2 where
    "save_item memory_writer (ap_bytes env) (height_key BLOCK_CERTIFICATE_KEY_PREFIX h) cert ((app_storage a, []), gas_meter_infinite) = (Ok (), (s1, g1))"
    "save_item memory_writer (ap_bytes env) (height_key BLOCK_PROPOSAL_KEY_PREFIX h) prop (s1, g1) = (Ok (), (s2, g2))"
    "save_item memory_writer (ap_u64 env) (height_key BLOCK_TIMESTAMP_KEY_PREFIX h) nanos (s2, g2) = (Ok u, (so, g))"
    unfolding finality_writes_def m_bind_Ok by auto
  note w = this [THEN writer.save_item_view]
  have "overlay_inv bts_inv (app_storage a, [])" using assms(2) by (simp add: app_inv_def)
  with w(1) have 1: "overlay_inv bts_inv s1" "overlay_view bts_view s1 k = overlay_view bts_view (app_storage a, []) k" using k by auto
  with w(2) have 2: "overlay_inv bts_inv s2" "overlay_view bts_view s2 k = overlay_view bts_view s1 k" using k by auto
  with w(3) 1 k show "overlay_view bts_view so k = overlay_view bts_view (app_storage a, []) k" by auto
qed auto

lemma pruned_keys:
  "\<forall>k\<in>set (sidecar_keys hs ts). is_sidecar k \<and> k \<notin> chain_keys" "\<forall>k\<in>set (finality_keys hs). is_sidecar k \<and> k \<notin> chain_keys"
  "PRUNE_FLOOR \<notin> chain_keys" "FINALITY_PRUNE_FLOOR \<notin> chain_keys"
  by (auto simp: sidecar_keys_def finality_keys_def chain_keys_def dest: sym)

lemma prune_sidecars_change:
  assumes "prune_sidecars env hs ts n a = (Ok m, a')" "app_inv env a"
  shows "sidecar_change env (insert PRUNE_FLOOR (set (sidecar_keys hs ts))) a a'" "m = length (sidecar_keys hs ts)"
    "\<exists>b. enc (ap_u64 env) n = Some b \<and> bts_view (app_storage a') =
       (\<lambda>k. if k \<in> set (sidecar_keys hs ts) then None else bts_view (app_storage a) k)(PRUNE_FLOOR \<mapsto> b)"
  using prune_change [OF assms(1) [unfolded prune_sidecars_def] assms(2)] pruned_keys(1) [of hs ts] by auto

lemma prune_finality_change:
  assumes "prune_finality env hs n a = (Ok m, a')" "app_inv env a"
  shows "sidecar_change env (insert FINALITY_PRUNE_FLOOR (set (finality_keys hs))) a a'" "m = length (finality_keys hs)"
    "\<exists>b. enc (ap_u64 env) n = Some b \<and> bts_view (app_storage a') =
       (\<lambda>k. if k \<in> set (finality_keys hs) then None else bts_view (app_storage a) k)(FINALITY_PRUNE_FLOOR \<mapsto> b)"
  using prune_change [OF assms(1) [unfolded prune_finality_def] assms(2)] pruned_keys(2) [of hs] by auto

lemma sidecar_step_change:
  assumes "sidecar_step env a a'" "app_inv env a"
  shows "\<exists>K. sidecar_change env K a a' \<and> K \<inter> chain_keys = {}"
  using assms(1)
proof cases
  case Certificate
  with assms(2) show ?thesis by (auto simp: set_block_certificate_def chain_keys_def dest!: set_record_change(1))
next
  case Proposal
  with assms(2) show ?thesis by (auto simp: set_block_proposal_def chain_keys_def dest!: set_record_change(1))
next
  case Timestamp
  with assms(2) show ?thesis by (auto simp: set_block_timestamp_def chain_keys_def dest!: set_record_change(1))
next
  case Finality
  with assms(2) show ?thesis by (auto simp: chain_keys_def dest!: finality_change)
next
  case Payload
  with assms(2) show ?thesis by (auto simp: set_block_payload_def chain_keys_def dest!: set_record_change(1))
next
  case Response
  with assms(2) show ?thesis by (auto simp: set_tx_response_def chain_keys_def dest!: set_record_change(1))
next
  case Prune_Sidecars
  from prune_sidecars_change(1) [OF this assms(2)] pruned_keys show ?thesis by blast
next
  case Prune_Finality
  from prune_finality_change(1) [OF this assms(2)] pruned_keys show ?thesis by blast
qed

text \<open>
  What holds between operations: the leaf index belongs to the data; once a block is in the store,
  the stored root is the root of the data; and the inner data is that of the stored block.
\<close>

definition app_ok :: "app_env \<Rightarrow> app \<Rightarrow> bool" where
  "app_ok env a \<longleftrightarrow> app_inv env a \<and>
     (bts_view (app_storage a) LAST_BLOCK \<noteq> None \<longrightarrow> typed (ap_root env) (bts_view (app_storage a)) STATE_ROOT = Some (app_root env a)) \<and>
     (\<forall>d. app_data a = Some d \<longrightarrow> typed (ap_block env) (bts_view (app_storage a)) LAST_BLOCK = Some (id_block d))"

lemma app_ok_sidecar:
  assumes "sidecar_change env K a a'" "K \<inter> chain_keys = {}" "app_ok env a"
  shows "app_ok env a'"
  using assms by (auto simp: sidecar_change_def app_ok_def chain_keys_def typed_def)

lemma app_ok_sealed:
  assumes run: "store_state_root env a = (Ok u, a')" and inv: "app_inv env a" and ok: "codec_ok (ap_root env)"
    and data: "\<forall>d. app_data a = Some d \<longrightarrow> typed (ap_block env) (bts_view (app_storage a)) LAST_BLOCK = Some (id_block d)"
  shows "app_ok env a'"
  using store_state_root_change [OF run inv ok] data by (auto simp: sidecar_change_def app_ok_def typed_def)

lemma load_ok:
  assumes "load_from_storage env a = (Ok u, a')" "bts_inv (app_storage a)"
  obtains d where "app_data a' = Some d" "app_storage a' = app_storage a" "app_root_index a' = None"
    "typed (ap_block env) (bts_view (app_storage a)) LAST_BLOCK = Some (id_block d)"
proof -
  let ?load = "m_bind (item_may_load memory_reader (ap_block env) LAST_BLOCK (app_storage a)) (\<lambda>b.
    m_bind (item_may_load (readonly_prefixed_storage memory_reader (lp NAMESPACE_APP)) (ap_state env) APP_STATE (app_storage a)) (\<lambda>s. m_ret (s, b)))"
  from assms(1) obtain state block where load: "fst (m_map_err InvalidState ?load gas_meter_infinite) = Ok (Some state, Some block)"
    and a': "a' = a\<lparr>app_root_index := None,
      app_data := Some \<lparr>id_block = block, id_chain_id = as_chain_id state, id_params = as_params state\<rparr>\<rparr>"
    by (auto simp: load_from_storage_def Let_def split: outcome.splits option.splits prod.splits)
  then obtain g where "path_may_load memory_reader (ap_block env) LAST_BLOCK (app_storage a) gas_meter_infinite = (Ok (Some block), g)"
    by (auto simp: m_map_err_def m_bind_def m_ret_def item_may_load_def path_may_load_def split: outcome.splits prod.splits)
  from memory_reader.path_may_load_view [OF this assms(2)] show thesis
    by (intro that [of "\<lparr>id_block = block, id_chain_id = as_chain_id state, id_params = as_params state\<rparr>"]) (simp_all add: a')
qed

lemma save_item_prefixed: "save_item (prefixed_storage st p) c k x = save_item st c (p @ k) x"
  by (simp add: save_item_def item_save_def prefixed_storage_def prefixed_set_def)

lemma app_state_key [simp]: "LAST_BLOCK \<noteq> lp NAMESPACE_APP @ APP_STATE"
  by (simp add: LAST_BLOCK_def lp_def NAMESPACE_APP_def ascii_def)

lemma init_ok:
  assumes run: "app_init env request a = (Ok h, a')" and inv: "app_inv env a" and ok: "codec_ok (ap_root env)" "codec_ok (ap_block env)"
  shows "app_ok env a'"
proof -
  let ?b = "\<lparr>bi_height = ir_initial_height request - 1, bi_time = ir_time request, bi_chain_id = ir_chain_id request\<rparr>"
  have s: "bts_inv (app_storage a)" using inv by (simp add: app_inv_def)
  from run obtain u v a1 where w: "app_write env (init_writes env request ?b) a = (Ok u, a1)"
    and seal: "store_state_root env (a1\<lparr>app_data := Some \<lparr>id_block = ?b, id_chain_id = ir_chain_id request,
      id_params = ir_params request\<rparr>, app_root_index := None\<rparr>) = (Ok v, a')"
    by (auto simp: app_init_def Let_def split: prod.splits outcome.splits)
  have via: "via memory_writer (init_writes env request ?b)"
    unfolding init_writes_def by (intro via_rules via_sm_blocks [OF sm_via_at] via_prefixed [OF via_ignored(3)])
  from app_write_ok [OF w via s] obtain so g s' where p: "init_writes env request ?b ((app_storage a, []), gas_meter_infinite) = (Ok u, (so, g))"
    and a1: "a1 = a\<lparr>app_storage := s'\<rparr>" "bts_inv s'" "bts_view s' = overlay_view bts_view so" by metis
  from p obtain gen s1 g1 s2 g2 where 1: "sm_init (ap_chain env) (sm_at (ap_depth env) (ap_chain env)) memory_writer ?b gen
      ((app_storage a, []), gas_meter_infinite) = (Ok (), (s1, g1))"
    and 2: "save_item memory_writer (ap_block env) LAST_BLOCK ?b (s1, g1) = (Ok (), (s2, g2))"
    and 3: "save_item memory_writer (ap_state env) (lp NAMESPACE_APP @ APP_STATE)
      \<lparr>as_chain_id = ir_chain_id request, as_params = ir_params request\<rparr> (s2, g2) = (Ok u, (so, g))"
    unfolding init_writes_def save_item_prefixed m_bind_Ok by (auto simp: m_lift_run)
  have "preserves (\<lambda>(so, g). overlay_inv bts_inv so) (sm_init (ap_chain env) (sm_at (ap_depth env) (ap_chain env)) memory_writer ?b gen)"
    using via_sm_blocks(3) [OF sm_via_at] by (rule viaD) (auto simp: preserves_def memory_writer_def bt_inv_insert)
  from preservesD [OF this _ 1] s have "overlay_inv bts_inv s1" by simp
  with writer.save_item_view [OF 2] writer.save_item_view [OF 3] ok(2) a1(3)
  have "typed (ap_block env) (bts_view s') LAST_BLOCK = Some ?b"
    by (auto simp: typed_def codec_dec)
  with a1 show ?thesis by (intro app_ok_sealed [OF seal _ ok(1)]) (simp_all add: app_inv_def)
qed

lemma import_ok:
  assumes run: "snapshot_import env block records root payload a = (Ok u, a')" and inv: "app_inv env a" and ok: "codec_ok (ap_root env)"
  shows "app_ok env a'"
proof -
  have s: "bts_inv (app_storage a)" using inv by (simp add: app_inv_def)
  from run obtain v w a1 a2 where w: "app_write env (import_writes env block records payload) a = (Ok v, a1)"
    and load: "load_from_storage env a1 = (Ok w, a2)" and seal: "store_state_root env (a2\<lparr>app_root_index := None\<rparr>) = (Ok u, a')"
    by (auto simp: snapshot_import_def split: if_splits prod.splits outcome.splits)
  have a1: "bts_inv (app_storage a1)" by (rule app_write_ok [OF w via_writer_ops(2) s]) simp
  show ?thesis
    by (rule load_ok [OF load a1]) (rule app_ok_sealed [OF seal _ ok]; use a1 in \<open>simp add: app_inv_def\<close>)
qed

lemma app_step_ok:
  assumes "app_step env a a'" "app_ok env a" and ok: "codec_ok (ap_block env)" "codec_ok (ap_root env)"
  shows "app_ok env a'"
proof -
  have inv: "app_inv env a" using assms(2) by (simp add: app_ok_def)
  from assms(1) show ?thesis
  proof cases
    case Restart
    with assms(2) show ?thesis by (simp add: app_ok_def app_inv_def app_new_def app_root_def consensus_data_def)
  next
    case (Price mgp)
    with assms(2) show ?thesis by (simp add: app_ok_def app_inv_def set_min_gas_price_def app_root_def consensus_data_def)
  next
    case (Load u)
    have "bts_inv (app_storage a)" using assms(2) by (simp add: app_ok_def app_inv_def)
    then show ?thesis
      by (rule load_ok [OF Load]) (use assms(2) in \<open>simp add: app_ok_def app_inv_def app_root_def consensus_data_def\<close>)
  next
    case (Init request h)
    then show ?thesis by (rule init_ok [OF _ inv ok(2,1)])
  next
    case (Finalize fb payload com resp)
    show ?thesis
    proof (cases com)
      case True
      with Finalize have "finalize_block_impl env fb payload True a = (Ok resp, a')" by simp
      then show ?thesis by (rule finalize_block_view [OF _ inv ok]) (simp add: app_ok_def)
    next
      case False
      with Finalize show ?thesis
      proof (cases rule: finalize_block_cases)
        case (1 data block a1)
        with ensure_root_index_ok [OF 1(5) inv] False assms(2) show ?thesis
          by (simp add: app_ok_def app_root_def consensus_data_def)
      qed
    qed
  next
    case Sidecar
    with sidecar_step_change app_ok_sidecar assms(2) show ?thesis by (metis app_ok_def)
  next
    case (Import block records root payload u)
    then show ?thesis by (rule import_ok [OF _ inv ok(2)])
  qed
qed

section \<open>Reading the committed state\<close>

lemma committed_entries_view:
  assumes "committed_entries env a = Ok (h, es)" "bts_inv (app_storage a)"
  shows "es = consensus_data a"
    "h = (case typed (ap_block env) (bts_view (app_storage a)) LAST_BLOCK of None \<Rightarrow> 0 | Some b \<Rightarrow> bi_height b)"
proof -
  let ?s = "app_storage a"
  from assms(1) obtain b ev g1 g2 g3 where
    load: "path_may_load memory_reader (ap_block env) LAST_BLOCK ?s gas_meter_infinite = (Ok b, g1)"
    and ev: "consensus_entries memory_reader ?s g1 = (Ok ev, g2)" and es: "iter_collect ev g2 = (Ok es, g3)"
    and h: "h = (case b of None \<Rightarrow> 0 | Some b' \<Rightarrow> bi_height b')"
    by (auto simp: committed_entries_def app_read_def m_bind_def m_map_err_def m_ret_def item_may_load_def path_may_load_def
        split: prod.splits outcome.splits)
  from memory_reader.path_may_load_view [OF load assms(2)] h
  show "h = (case typed (ap_block env) (bts_view ?s) LAST_BLOCK of None \<Rightarrow> 0 | Some b \<Rightarrow> bi_height b)" by simp
  from memory_reader.consensus_entries_view [OF ev assms(2)] iter_collect_yields [OF es]
    is_range_unique consensus_data_range [OF assms(2)] show "es = consensus_data a" by metis
qed

lemma consensus_data_filter [simp]: "filter (\<lambda>(k, v). \<not> is_sidecar k) (consensus_data a) = consensus_data a"
  by (simp add: consensus_data_def)

lemma consensus_data_lookup: "map_of (consensus_data a) k = (if is_sidecar k then None else bts_view (app_storage a) k)"
proof -
  have "map_of (filter (\<lambda>(k, v). \<not> is_sidecar k) m) k = (if is_sidecar k then None else map_of m k)" for m :: "kv list"
    by (induction m) auto
  then show ?thesis by (simp add: consensus_data_def)
qed

lemma find_entry_Some:
  "find_entry key es i found = Some (j, v) \<Longrightarrow> found = Some (j, v) \<or> (\<exists>n < length es. j = i + n \<and> es ! n = (key, v))"
proof (induction key es i found rule: find_entry.induct)
  case (2 key k w es i found)
  then have "(if k = key then Some (i, w) else found) = Some (j, v) \<or> (\<exists>n < length es. j = i + 1 + n \<and> es ! n = (key, v))" by simp
  then show ?case
  proof (elim disjE exE conjE)
    fix n assume "n < length es" "j = i + 1 + n" "es ! n = (key, v)"
    then show ?thesis by (intro disjI2 exI [of _ "Suc n"]) simp
  qed (auto split: if_splits)
qed simp

lemma find_entry_None: "find_entry key es i found = None \<Longrightarrow> found = None \<and> key \<notin> fst ` set es"
  by (induction key es i found rule: find_entry.induct) (auto split: if_splits)

section \<open>Properties of the application\<close>

text \<open>
  C2. Between any two operations of a node, started on an empty store and restarted any number of
  times, the state is well formed: the data is sorted, a leaf index in memory belongs to it, the
  cached block is the last block of the store, and the root that the store publishes is the Merkle
  root of all entries that are not sidecars.
\<close>

theorem app_reachable_ok:
  assumes "(app_step env)\<^sup>*\<^sup>* (app_new s) a" "bts_data s = []" and "codec_ok (ap_block env)" "codec_ok (ap_root env)"
  shows "app_inv env a \<and> (\<forall>d. app_data a = Some d \<longrightarrow>
    typed (ap_block env) (bts_view (app_storage a)) LAST_BLOCK = Some (id_block d) \<and>
    typed (ap_root env) (bts_view (app_storage a)) STATE_ROOT = Some (app_root env a))"
proof -
  have "app_ok env (app_new s)" using assms(2) by (simp add: app_ok_def app_inv_def app_new_def)
  with assms(1) have "app_ok env a" by (induction rule: rtranclp_induct) (auto intro: app_step_ok assms(3,4))
  then show ?thesis by (auto simp: app_ok_def typed_def)
qed

text \<open>
  C12. Pruning removes exactly the payloads and timestamps of the given heights and the responses
  of the given transactions, and records the new floor; certificates, proposals and everything the
  state root commits to stay.
\<close>

theorem prune_sidecars_exact:
  assumes "prune_sidecars env hs ts n a = (Ok m, a')" "app_inv env a" "codec_ok (ap_u64 env)"
  shows "m = 2 * length hs + length ts \<and> app_inv env a' \<and> consensus_data a' = consensus_data a \<and>
    typed (ap_u64 env) (bts_view (app_storage a')) PRUNE_FLOOR = Some n \<and>
    (\<forall>k. k \<noteq> PRUNE_FLOOR \<longrightarrow> bts_view (app_storage a') k =
      (if k \<in> height_key BLOCK_PAYLOAD_KEY_PREFIX ` set hs \<union> height_key BLOCK_TIMESTAMP_KEY_PREFIX ` set hs \<union>
            (@) TX_RESPONSE_KEY_PREFIX ` set ts
       then None else bts_view (app_storage a) k)) \<and>
    (\<forall>h. bts_view (app_storage a') (height_key BLOCK_CERTIFICATE_KEY_PREFIX h) = bts_view (app_storage a) (height_key BLOCK_CERTIFICATE_KEY_PREFIX h) \<and>
         bts_view (app_storage a') (height_key BLOCK_PROPOSAL_KEY_PREFIX h) = bts_view (app_storage a) (height_key BLOCK_PROPOSAL_KEY_PREFIX h))"
proof -
  note ch = prune_sidecars_change [OF assms(1,2)]
  have keys: "set (sidecar_keys hs ts) = height_key BLOCK_PAYLOAD_KEY_PREFIX ` set hs \<union>
      height_key BLOCK_TIMESTAMP_KEY_PREFIX ` set hs \<union> (@) TX_RESPONSE_KEY_PREFIX ` set ts"
    by (auto simp: sidecar_keys_def)
  have len: "length (sidecar_keys hs ts) = 2 * length hs + length ts"
    by (induction hs) (simp_all add: sidecar_keys_def)
  have other: "height_key P h \<notin> insert PRUNE_FLOOR (set (sidecar_keys hs ts))"
    if "P \<in> {BLOCK_CERTIFICATE_KEY_PREFIX, BLOCK_PROPOSAL_KEY_PREFIX}" for P h
    using that by (auto simp: keys height_key_def BLOCK_PAYLOAD_KEY_PREFIX_def BLOCK_TIMESTAMP_KEY_PREFIX_def PRUNE_FLOOR_def
        TX_RESPONSE_KEY_PREFIX_def BLOCK_CERTIFICATE_KEY_PREFIX_def BLOCK_PROPOSAL_KEY_PREFIX_def ascii_def)
  from ch(3) obtain b where "enc (ap_u64 env) n = Some b"
    "bts_view (app_storage a') = (\<lambda>k. if k \<in> set (sidecar_keys hs ts) then None else bts_view (app_storage a) k)(PRUNE_FLOOR \<mapsto> b)" by blast
  with ch(1,2) len keys assms(3) show ?thesis
    using other [of BLOCK_CERTIFICATE_KEY_PREFIX] other [of BLOCK_PROPOSAL_KEY_PREFIX]
    by (simp add: sidecar_change_def typed_def codec_dec)
qed

lemma state_proof_entry:
  assumes "state_proof env key a = Ok res" "app_inv env a"
  shows "case find_entry key (consensus_data a) 0 None of
      None \<Rightarrow> res = None
    | Some (i, v) \<Rightarrow> \<exists>p. res = Some p \<and> sp_key p = key \<and> sp_value p = v \<and> sp_leaf_index p = i \<and>
        sp_siblings p = merkle_path (ap_sha256 env) (leaves_of (ap_sha256 env) (consensus_data a)) i"
proof -
  have s: "bts_inv (app_storage a)" using assms(2) by (simp add: app_inv_def)
  from assms(1) obtain h all where com: "committed_entries env a = Ok (h, all)"
    by (cases "committed_entries env a") (auto simp: state_proof_def)
  with committed_entries_view(1) [OF com s] assms(1) show ?thesis
    by (cases "find_entry key (consensus_data a) 0 None") (auto simp: state_proof_def leaves_of_def Let_def)
qed

lemma state_proof_path:
  assumes "state_proof env key a = Ok (Some p)" "app_inv env a"
  shows "bts_view (app_storage a) key = Some (sp_value p)" "\<not> is_sidecar key" "sp_key p = key"
    "compute_root (ap_sha256 env) (leaf_hash (ap_sha256 env) key (sp_value p)) (sp_leaf_index p) (sp_siblings p) = app_root env a"
    "sp_siblings p = merkle_path (ap_sha256 env) (leaves_of (ap_sha256 env) (consensus_data a)) (sp_leaf_index p)"
proof -
  let ?es = "consensus_data a" and ?sha = "ap_sha256 env"
  from state_proof_entry [OF assms] obtain i v where found: "find_entry key ?es 0 None = Some (i, v)" and p: "sp_key p = key"
    "sp_value p = v" "sp_leaf_index p = i" "sp_siblings p = merkle_path ?sha (leaves_of ?sha ?es) i"
    by (cases "find_entry key ?es 0 None") auto
  from find_entry_Some found have i: "i < length ?es" "?es ! i = (key, v)" by fastforce+
  then have leaf: "i < length (leaves_of ?sha ?es)" "leaves_of ?sha ?es ! i = leaf_hash ?sha key v" by (simp_all add: leaves_of_def)
  have "distinct (map fst ?es)"
    using consensus_data_range [of a] assms(2) by (auto simp: app_inv_def is_range_def intro: key_lt_distinct)
  then have "map_of ?es key = Some v" using map_of_is_SomeI i nth_mem by metis
  with consensus_data_lookup [of a key] p show "bts_view (app_storage a) key = Some (sp_value p)" "\<not> is_sidecar key"
    by (auto split: if_splits)
  show "compute_root ?sha (leaf_hash ?sha key (sp_value p)) (sp_leaf_index p) (sp_siblings p) = app_root env a"
    using compute_root_path [OF leaf(1)] leaf p by (auto simp: app_root_def merkle_root_def)
  show "sp_key p = key" "sp_siblings p = merkle_path ?sha (leaves_of ?sha ?es) (sp_leaf_index p)" using p by simp_all
qed

text \<open>
  C9. The proof that a node serves for a key holds the committed value, and the light client computes
  from it the root that the node committed to; when there is no proof, the key has no committed value.
\<close>

theorem state_proof_verifies:
  assumes "state_proof env key a = Ok res" "app_inv env a"
  shows "case res of
      None \<Rightarrow> is_sidecar key \<or> bts_view (app_storage a) key = None
    | Some p \<Rightarrow> sp_key p = key \<and> \<not> is_sidecar key \<and> bts_view (app_storage a) key = Some (sp_value p) \<and>
        compute_root (ap_sha256 env) (lc_leaf_hash (ap_sha256 env) key (sp_value p)) (sp_leaf_index p) (sp_siblings p) = app_root env a"
proof (cases res)
  case None
  with state_proof_entry [OF assms] have "find_entry key (consensus_data a) 0 None = None" by (auto split: option.splits)
  then have "map_of (consensus_data a) key = None" using find_entry_None by (fastforce simp only: map_of_eq_None_iff)
  with None consensus_data_lookup [of a key] show ?thesis by (auto split: if_splits)
next
  case (Some p)
  with state_proof_path [of env key a p] assms show ?thesis by simp
qed

section \<open>The fee floor\<close>

lemma required_fee_ceiling:
  "required_fee mgp g = (if mgp_atomics mgp * g + (10 ^ 18 - 1) > u128_max then Panic
     else Ok ((mgp_atomics mgp * g + (10 ^ 18 - 1)) div 10 ^ 18))"
  by (auto simp: required_fee_def Let_def u128_max_def)

lemma ceiling_le: "0 < d \<Longrightarrow> (n + (d - 1)) div d \<le> m \<longleftrightarrow> n \<le> m * d" for n m d :: nat
proof -
  assume d: "0 < d"
  then have "(n + (d - 1)) div d \<le> m \<longleftrightarrow> n + (d - 1) < (m + 1) * d" by (simp add: less_mult_imp_div_less div_less_iff_less_mult flip: less_Suc_eq_le)
  also have "\<dots> \<longleftrightarrow> n \<le> m * d" using d by (auto simp: algebra_simps)
  finally show ?thesis .
qed

lemma validated_gas:
  assumes "atomic st PE_Gas (sm_validate_tx ch sm (sub_tx st) block tx) sg = (Ok data, sg')"
  shows "td_gas_wanted data = gas_limit (tx_fee tx)"
  using assms by (auto simp: atomic_def sm_validate_tx_def auth_validate_tx_def m_bind_Ok m_map_err_Ok split: prod.splits outcome.splits)

text \<open>The fee covers the price of the gas: price times gas, in units of \<open>10\<^sup>-\<^sup>1\<^sup>8\<close>, is at most the fee in the denomination.\<close>

definition fee_covers :: "min_gas_price \<Rightarrow> coin option \<Rightarrow> nat \<Rightarrow> bool" where
  "fee_covers mgp f g \<longleftrightarrow> mgp_atomics mgp * g = 0 \<or>
     (\<exists>c. f = Some c \<and> coin_denom c = mgp_denom mgp \<and> mgp_atomics mgp * g \<le> coin_amount c * 10 ^ 18)"

lemma min_gas_price_check_exact:
  assumes "mgp_atomics mgp * g + (10 ^ 18 - 1) \<le> u128_max"
  shows "min_gas_price_check mgp f g = (if fee_covers mgp f g then Ok () else
    Err (InsufficientFee ((mgp_atomics mgp * g + (10 ^ 18 - 1)) div 10 ^ 18) (case f of None \<Rightarrow> 0 | Some c \<Rightarrow> coin_amount c) (mgp_denom mgp) g))"
proof -
  let ?need = "(mgp_atomics mgp * g + (10 ^ 18 - 1)) div 10 ^ 18"
  have zero: "?need = 0 \<longleftrightarrow> mgp_atomics mgp * g = 0" using ceiling_le [of "10 ^ 18" "mgp_atomics mgp * g" 0] by simp
  have "?need \<le> m \<longleftrightarrow> mgp_atomics mgp * g \<le> m * 10 ^ 18" for m using ceiling_le [of "10 ^ 18"] by simp
  then have "(?need = 0 \<or> ((case f of None \<Rightarrow> False | Some c \<Rightarrow> coin_denom c = mgp_denom mgp) \<and>
      ?need \<le> (case f of None \<Rightarrow> 0 | Some c \<Rightarrow> coin_amount c))) \<longleftrightarrow> fee_covers mgp f g"
    unfolding zero fee_covers_def by (cases f) simp_all
  moreover have "required_fee mgp g = Ok ?need" using assms by (simp add: required_fee_ceiling)
  ultimately show ?thesis by (simp only: min_gas_price_check_def o_bind_def outcome.case Let_def)
qed

text \<open>
  C11. With a minimum gas price set, the mempool admits a valid transaction exactly when its fee covers
  price times gas limit, without rounding against either side; an uncovered fee is reported with the
  smallest amount that would do. When the product comes within one unit of the largest \<open>u128\<close> the
  check panics.
\<close>

theorem check_tx_fee_floor:
  assumes "app_data a = Some d" "app_min_gas_price a = Some mgp"
    and "atomic (scratch_tx memory_reader) PE_Gas
      (sm_validate_tx (ap_chain env) (sm_at (ap_depth env) (ap_chain env)) (sub_tx (scratch_tx memory_reader)) (id_block d) tx)
      ((app_storage a, []), gas_meter_new MAX_VALIDATE_GAS) = (Ok data, (so, meter))"
    and need: "need = mgp_atomics mgp * gas_limit (tx_fee tx)"
  shows "check_tx env a tx =
    (if need + (10 ^ 18 - 1) > u128_max then Panic
     else if fee_covers mgp (fee (tx_fee tx)) (gas_limit (tx_fee tx))
     then Ok \<lparr>txr_gas = \<lparr>gas_used = used meter, gas_wanted = gas_limit (tx_fee tx)\<rparr>, txr_result = Inr \<lparr>tr_data = [], tr_events = []\<rparr>\<rparr>
     else Ok (tx_failure (PE_Tx (InsufficientFee ((need + (10 ^ 18 - 1)) div 10 ^ 18)
            (case fee (tx_fee tx) of None \<Rightarrow> 0 | Some c \<Rightarrow> coin_amount c) (mgp_denom mgp) (gas_limit (tx_fee tx))))))"
proof (cases "need + (10 ^ 18 - 1) > u128_max")
  case True
  then have "min_gas_price_check mgp (fee (tx_fee tx)) (gas_limit (tx_fee tx)) = Panic"
    using need by (simp add: min_gas_price_check_def required_fee_ceiling)
  with assms True validated_gas [OF assms(3)] show ?thesis by (simp add: check_tx_def)
next
  case False
  with need have "mgp_atomics mgp * gas_limit (tx_fee tx) + (10 ^ 18 - 1) \<le> u128_max" by simp
  from min_gas_price_check_exact [OF this] assms False validated_gas [OF assms(3)] show ?thesis
    by (simp add: check_tx_def Let_def)
qed

section \<open>State sync\<close>

lemma import_writes_view:
  assumes "import_writes env block es payload ((s, []), g) = (Ok u, (so, g'))" "bts_inv s" "distinct (map fst es)" "\<not> is_sidecar k"
  shows "overlay_view bts_view so k = (bts_view s ++ map_of es) k"
proof -
  from assms(1) obtain s1 g1 s2 g2 where
    1: "m_each (\<lambda>(k, v). m_map_err PE_Gas (st_set memory_writer k v)) es ((s, []), g) = (Ok (), (s1, g1))"
    and 2: "save_item memory_writer (ap_block env) LAST_BLOCK block (s1, g1) = (Ok (), (s2, g2))"
    and 3: "save_item memory_writer (ap_bytes env) (height_key BLOCK_PAYLOAD_KEY_PREFIX (bi_height block)) payload (s2, g2) = (Ok u, (so, g'))"
    unfolding import_writes_def m_bind_Ok by auto
  have "k \<noteq> LAST_BLOCK" "k \<noteq> height_key BLOCK_PAYLOAD_KEY_PREFIX (bi_height block)" using assms(4) by auto
  with set_each_view [OF 1 _ assms(3)] writer.save_item_view [OF 2] writer.save_item_view [OF 3] assms(2)
  show ?thesis by (auto simp: fun_eq_iff)
qed

lemma import_consensus:
  assumes run: "snapshot_import env block es root payload b = (Ok u, b')" and empty: "bts_data (app_storage b) = []"
    and es: "es = consensus_data a" and inv: "app_inv env a" and ok: "codec_ok (ap_root env)"
  shows "consensus_data b' = consensus_data a" "app_root env b' = app_root env a"
    "typed (ap_root env) (bts_view (app_storage b')) STATE_ROOT = Some (app_root env a)"
proof -
  have s: "bts_inv (app_storage a)" "bts_inv (app_storage b)" using inv empty by (simp_all add: app_inv_def)
  from run obtain v w b1 b2 where w: "app_write env (import_writes env block es payload) b = (Ok v, b1)"
    and load: "load_from_storage env b1 = (Ok w, b2)" and seal: "store_state_root env (b2\<lparr>app_root_index := None\<rparr>) = (Ok u, b')"
    by (auto simp: snapshot_import_def split: if_splits prod.splits outcome.splits)
  from app_write_ok [OF w via_writer_ops(2) s(2)] obtain so g s' where
    p: "import_writes env block es payload ((app_storage b, []), gas_meter_infinite) = (Ok v, (so, g))"
    and "b1 = b\<lparr>app_storage := s'\<rparr>" "bts_inv s'" "bts_view s' = overlay_view bts_view so" by metis
  then have b1: "bts_inv (app_storage b1)" "bts_view (app_storage b1) = overlay_view bts_view so" by simp_all
  have "distinct (map fst es)" using consensus_data_range [OF s(1)] es by (auto simp: is_range_def intro: key_lt_distinct)
  from import_writes_view [OF p s(2) this] b1(2) empty es consensus_data_lookup
  have cons: "consensus_map (bts_view (app_storage b1)) = consensus_map (bts_view (app_storage a))"
    by (auto simp: consensus_map_def fun_eq_iff)
  have b2: "app_storage b2 = app_storage b1" by (rule load_ok [OF load b1(1)])
  have "app_inv env (b2\<lparr>app_root_index := None\<rparr>)" using b1(1) b2 by (simp add: app_inv_def)
  note ch = store_state_root_change [OF seal this ok]
  have "consensus_data (b2\<lparr>app_root_index := None\<rparr>) = consensus_data b1" "app_root env (b2\<lparr>app_root_index := None\<rparr>) = app_root env b1"
    using b2 by (simp_all add: consensus_data_def app_root_def)
  with ch(1) same_consensus [OF s(1) b1(1) cons]
  show "consensus_data b' = consensus_data a" and root: "app_root env b' = app_root env a" by (simp_all add: sidecar_change_def)
  from ch(2) root show "typed (ap_root env) (bts_view (app_storage b')) STATE_ROOT = Some (app_root env a)" by simp
qed

text \<open>
  C4. State sync is exact: the chunks that a node exports decode to its committed entries and pass the
  check against the exported root, which is its state root; and a node with an empty store that imports
  them has the same committed entries and publishes the same root.
\<close>

theorem state_sync_exact:
  assumes exp: "snapshot_export env a = Ok sx" and inv: "app_inv env a" and ok: "codec_ok (ap_root env)"
    and small: "\<forall>e\<in>set (consensus_data a). small_entry e"
  shows "sx_state_root sx = app_root env a \<and>
    (\<exists>parts. map (\<lambda>c. decode_snapshot_chunk (chunk_data c)) (sx_chunks sx) = map Ok parts \<and> concat parts = consensus_data a \<and>
       verify_snapshot_root (ap_sha256 env) (concat parts) (sx_state_root sx) \<and>
       (\<forall>block payload b b' u. bts_data (app_storage b) = [] \<and>
          snapshot_import env block (concat parts) (sx_state_root sx) payload b = (Ok u, b') \<longrightarrow>
          consensus_data b' = consensus_data a \<and> app_root env b' = app_root env a \<and>
          typed (ap_root env) (bts_view (app_storage b')) STATE_ROOT = Some (app_root env a)))"
proof -
  let ?es = "consensus_data a" and ?sha = "ap_sha256 env"
  have s: "bts_inv (app_storage a)" using inv by (simp add: app_inv_def)
  from exp obtain h all where com: "committed_entries env a = Ok (h, all)"
    by (cases "committed_entries env a") (auto simp: snapshot_export_def)
  obtain leaves chunks where ch: "snapshot_chunks ?sha ?es = (leaves, chunks)" by (cases "snapshot_chunks ?sha ?es")
  with exp com committed_entries_view(1) [OF com s] have sx: "sx_state_root sx = merkle_root ?sha leaves" "sx_chunks sx = chunks"
    by (auto simp: snapshot_export_def)
  have "sorted_wrt (<) (map fst ?es)" using consensus_data_range [OF s] by (simp add: is_range_def key_lt_funs)
  moreover have "\<forall>e\<in>set ?es. \<not> is_sidecar (fst e) \<and> small_entry e" using small by (auto simp: consensus_data_def)
  ultimately obtain parts where parts: "map (\<lambda>c. decode_snapshot_chunk (chunk_data c)) chunks = map Ok parts" "concat parts = ?es"
    "leaves = leaves_of ?sha ?es" "verify_snapshot_root ?sha (concat parts) (merkle_root ?sha leaves)"
    using snapshot_chunks_decode [OF _ _ ch] by blast
  have root: "sx_state_root sx = app_root env a" using sx parts(3) by (simp add: app_root_def)
  have imp: "consensus_data b' = ?es \<and> app_root env b' = app_root env a \<and>
      typed (ap_root env) (bts_view (app_storage b')) STATE_ROOT = Some (app_root env a)"
    if "bts_data (app_storage b) = []" "snapshot_import env block (concat parts) (sx_state_root sx) payload b = (Ok u, b')"
    for block payload b b' u
    using import_consensus [OF that(2,1) parts(2) inv ok] by blast
  show ?thesis
    by (rule conjI [OF root], intro exI [of _ parts] conjI allI impI; (elim conjE)?)
      (use parts(1,2,4) sx imp in \<open>simp_all only:\<close>)
qed

section \<open>Running the application\<close>

text \<open>A node with one record, and a fresh node that imports it.\<close>

definition state_records :: "kv list" where
  "state_records = [(lp NAMESPACE_APP @ APP_STATE, [])]"

definition source_app :: app where
  "source_app = app_new (btree_storage_new\<lparr>bts_data := state_records\<rparr>)"

definition synced :: "(unit, pulsar_error) outcome \<times> app" where
  "synced = snapshot_import test_app_env test_block state_records (app_root test_app_env source_app) [] (app_new btree_storage_new)"

lemmas sync_exec = snapshot_import_def app_write_def import_writes_def load_from_storage_def store_state_root_def
  app_root_def consensus_data_def leaves_of_def state_records_def source_app_def app_new_def verify_snapshot_root_def
  NAMESPACE_APP_def APP_STATE_def lp_def height_key_def BLOCK_PAYLOAD_KEY_PREFIX_def test_chain_def test_vm_def writing_vm_def

lemma synced_ok: "\<exists>u. fst synced = Ok u"
  by (simp add: synced_def sync_exec app_exec test_exec plus_exec namespace_exec store_exec gas_exec prog_exec Let_def)

lemma synced_data: "app_data (snd synced) \<noteq> None"
  by (simp add: synced_def sync_exec app_exec test_exec plus_exec namespace_exec store_exec gas_exec prog_exec Let_def)

lemma app_codecs: "codec_ok (ap_block test_app_env)" "codec_ok (ap_root test_app_env)" "codec_ok (ap_u64 test_app_env)"
  by (simp_all add: test_app_env_def block_info_codec_ok test_chain_def unary_codec_ok)

lemma synced_run: "\<exists>u. synced = (Ok u, snd synced)"
  using synced_ok by (metis prod.collapse)

theorem app_reachable_ok_witness:
  "\<exists>d. app_data (snd synced) = Some d \<and>
     typed (ap_root test_app_env) (bts_view (app_storage (snd synced))) STATE_ROOT = Some (app_root test_app_env (snd synced))"
proof -
  have "(app_step test_app_env)\<^sup>*\<^sup>* (app_new btree_storage_new) (snd synced)"
    using synced_run unfolding synced_def by (auto intro: app_step.Import)
  from app_reachable_ok [OF this _ app_codecs(1,2)] synced_data show ?thesis by (auto simp: btree_storage_new_def)
qed

lemma source_inv: "app_inv test_app_env source_app"
  by (simp add: app_inv_def source_app_def app_new_def state_records_def)

lemma source_data: "consensus_data source_app = state_records"
  by (simp add: consensus_data_def source_app_def app_new_def state_records_def lp_def NAMESPACE_APP_def ascii_def underscore_def)

lemma source_export: "\<exists>sx. snapshot_export test_app_env source_app = Ok sx"
  by (simp add: snapshot_export_def committed_entries_def sync_exec app_exec test_exec plus_exec store_exec gas_exec prog_exec Let_def
      snapshot_chunks_def)

theorem state_sync_exact_witness: "consensus_data (snd synced) = consensus_data source_app"
proof -
  obtain sx where sx: "snapshot_export test_app_env source_app = Ok sx" using source_export by blast
  have "\<forall>e\<in>set (consensus_data source_app). small_entry e"
    by (simp add: source_data state_records_def small_entry_def lp_def NAMESPACE_APP_def APP_STATE_def ascii_def)
  from state_sync_exact [OF sx source_inv app_codecs(2) this] obtain parts where
    "sx_state_root sx = app_root test_app_env source_app" "concat parts = consensus_data source_app"
    "\<And>block payload b b' u. bts_data (app_storage b) = [] \<Longrightarrow>
       snapshot_import test_app_env block (concat parts) (sx_state_root sx) payload b = (Ok u, b') \<Longrightarrow>
       consensus_data b' = consensus_data source_app" by blast
  then show ?thesis using synced_run unfolding synced_def source_data
    by (metis app.select_convs(1) app_new_def btree_storage.select_convs(2) btree_storage_new_def)
qed

definition served_proof where
  "served_proof = state_proof test_app_env (lp NAMESPACE_APP @ APP_STATE) source_app"

lemma served_ok: "\<exists>p. served_proof = Ok (Some p)"
  by (simp add: served_proof_def state_proof_def committed_entries_def sync_exec app_exec test_exec plus_exec store_exec gas_exec
      prog_exec Let_def)

theorem state_proof_verifies_witness:
  "\<exists>p. served_proof = Ok (Some p) \<and> compute_root (ap_sha256 test_app_env)
     (lc_leaf_hash (ap_sha256 test_app_env) (lp NAMESPACE_APP @ APP_STATE) (sp_value p)) (sp_leaf_index p) (sp_siblings p) =
     app_root test_app_env source_app"
proof -
  obtain p where p: "served_proof = Ok (Some p)" using served_ok by blast
  from state_proof_verifies [OF p [unfolded served_proof_def] source_inv] p show ?thesis by auto
qed

definition pruned where
  "pruned = prune_sidecars test_app_env [1] [[7]] 2 test_app"

lemma pruned_ok: "\<exists>m. fst pruned = Ok m"
  by (simp add: pruned_def prune_sidecars_def sidecar_keys_def remove_keys_def item_remove_def sync_exec app_exec test_exec plus_exec
      store_exec gas_exec prog_exec Let_def BLOCK_TIMESTAMP_KEY_PREFIX_def TX_RESPONSE_KEY_PREFIX_def PRUNE_FLOOR_def show_nat.simps)

theorem prune_sidecars_exact_witness: "fst pruned = Ok 3 \<and> consensus_data (snd pruned) = consensus_data test_app"
proof -
  obtain m where m: "fst pruned = Ok m" using pruned_ok by blast
  then have "prune_sidecars test_app_env [1] [[7]] 2 test_app = (Ok m, snd pruned)" unfolding pruned_def by (metis prod.collapse)
  from prune_sidecars_exact [OF this test_app_inv app_codecs(3)] m show ?thesis by simp
qed

definition priced_app :: app where
  "priced_app = set_min_gas_price (Some \<lparr>mgp_atomics = 1, mgp_denom = [117]\<rparr>) test_app"

definition free_tx :: signed_tx where
  "free_tx = test_tx 0\<lparr>tx_fee := \<lparr>fee = None, gas_limit = 100\<rparr>\<rparr>"

definition mempool_run where
  "mempool_run = atomic (scratch_tx memory_reader) PE_Gas
     (sm_validate_tx (ap_chain test_app_env) (sm_at (ap_depth test_app_env) (ap_chain test_app_env))
       (sub_tx (scratch_tx memory_reader)) test_block free_tx)
     ((committed_store, []), gas_meter_new MAX_VALIDATE_GAS)"

lemma mempool_ok: "\<exists>data. fst mempool_run = Ok data"
  by (simp add: mempool_run_def free_tx_def tx_exec account_codec_def app_exec test_exec auth_exec plus_exec namespace_exec store_exec
      gas_exec prog_exec Let_def)

theorem check_tx_fee_floor_witness:
  "check_tx test_app_env priced_app free_tx = (Ok (tx_failure (PE_Tx (InsufficientFee 1 0 [117] 100))) :: (tx_result, pulsar_error) outcome)"
proof -
  obtain data where "fst mempool_run = Ok data" using mempool_ok by blast
  then obtain so meter where run: "mempool_run = (Ok data, (so, meter))" by (metis prod.collapse)
  have app: "app_data priced_app = Some \<lparr>id_block = test_block, id_chain_id = [], id_params = test_params\<rparr>"
    "app_min_gas_price priced_app = Some \<lparr>mgp_atomics = 1, mgp_denom = [117]\<rparr>" "app_storage priced_app = committed_store"
    by (simp_all add: priced_app_def set_min_gas_price_def test_app_def)
  from check_tx_fee_floor [OF app(1,2) _ refl, of test_app_env free_tx data so meter] run show ?thesis
    by (simp add: mempool_run_def app(3) free_tx_def fee_covers_def u128_max_def)
qed

end
