(* ===== verification/Lc_Store.thy ===== *)
theory Lc_Store
  imports Ibc
begin

text \<open>
  The encodings and the storage of the light client contract: the varints of
  \<open>contracts/light-client/src/verify.rs\<close> and the protobuf wrapper of \<open>wasmstore.rs\<close>, under the
  keys that the 08-wasm host reads.

  The contract is compiled to \<open>wasm32\<close> with overflow checks off (\<open>profile.wasm\<close> of the workspace),
  so that a \<open>usize\<close> has 32 bits and wraps. Positions in a buffer stay below its length and do not
  wrap; where a length read from the buffer is added, the wrap-around is written out.
\<close>

unbundle bit_operations_syntax

named_theorems lc_exec \<open>definitions to run the light client\<close>

section \<open>Varints\<close>

datatype lc_error =
    Lc_Std
  | ClientFrozen nat
  | NonMonotonicHeight nat nat
  | InvalidPublicKeyLength nat
  | Lc_InvalidPublicKey
  | InvalidCertificateLength nat
  | InvalidCertificate
  | InvalidProposal
  | VerificationFailed
  | ConsensusStateNotFound nat
  | MisbehaviourMismatch
  | NoEquivocation
  | MembershipProofsUnsupported
  | InvalidMembershipProof
  | Unsupported

function write_uvarint :: "nat \<Rightarrow> bytes" where
  "write_uvarint value =
     (let byte = of_nat (value mod 128); value' = value div 128
      in if value' \<noteq> 0 then (byte OR 0x80) # write_uvarint value' else [byte])"
  by pat_completeness auto
termination by (relation "measure id") auto

declare write_uvarint.simps [simp del]

function read_uvarint_loop :: "bytes \<Rightarrow> nat \<Rightarrow> nat \<Rightarrow> nat \<Rightarrow> (nat \<times> nat, lc_error) outcome" where
  "read_uvarint_loop buf pos result shift =
     (if pos \<ge> length buf then Err InvalidProposal
      else
        let byte = buf ! pos; pos' = pos + 1
        in if shift \<ge> 64 then Err InvalidProposal
           else
             let result' = result OR take_bit 64 (push_bit shift (unat (byte AND 0x7f)))
             in if byte AND 0x80 = 0 then Ok (result', pos') else read_uvarint_loop buf pos' result' (shift + 7))"
  by pat_completeness auto
termination by (relation "measure (\<lambda>(buf, pos, _, _). length buf - pos)") auto

declare read_uvarint_loop.simps [simp del]

text \<open>The value and the position after it.\<close>

definition read_uvarint :: "bytes \<Rightarrow> nat \<Rightarrow> (nat \<times> nat, lc_error) outcome" where
  "read_uvarint buf pos = read_uvarint_loop buf pos 0 0"

function put_varint :: "nat \<Rightarrow> bytes" where
  "put_varint v =
     (let b = of_nat (v mod 128); v' = v div 128
      in if v' = 0 then [b] else (b OR 0x80) # put_varint v')"
  by pat_completeness auto
termination by (relation "measure id") auto

declare put_varint.simps [simp del]

definition put_len :: "nat \<Rightarrow> bytes \<Rightarrow> bytes" where
  "put_len field data = put_varint (field * 8 + 2) @ put_varint (length data) @ data"

definition put_varint_field :: "nat \<Rightarrow> nat \<Rightarrow> bytes" where
  "put_varint_field field v = (if v \<noteq> 0 then put_varint (field * 8) @ put_varint v else [])"

function read_varint_loop :: "bytes \<Rightarrow> nat \<Rightarrow> nat \<Rightarrow> nat \<Rightarrow> (nat \<times> nat) option" where
  "read_varint_loop bz i v shift =
     (if i < length bz
      then
        let b = bz ! i; v' = v OR take_bit 64 (push_bit shift (unat (b AND 0x7f)))
        in if b AND 0x80 = 0 then Some (v', i + 1)
           else if shift + 7 \<ge> 64 then None
           else read_varint_loop bz (i + 1) v' (shift + 7)
      else None)"
  by pat_completeness auto
termination by (relation "measure (\<lambda>(bz, i, _, _). length bz - i)") auto

declare read_varint_loop.simps [simp del]

definition read_varint :: "bytes \<Rightarrow> nat \<Rightarrow> (nat \<times> nat) option" where
  "read_varint bz i = read_varint_loop bz i 0 0"

section \<open>Length-delimited fields\<close>

text \<open>Addition of \<open>usize\<close> on \<open>wasm32\<close>.\<close>

definition usize_add :: "nat \<Rightarrow> nat \<Rightarrow> nat" where
  "usize_add a b = (a + b) mod 2 ^ 32"

text \<open>
  One pass through the loop of \<open>get_len_field\<close>: \<open>Inl\<close> the result, or \<open>Inr\<close> the position to go on
  from. \<open>Ok None\<close> is the \<open>None\<close> of the source, \<open>Panic\<close> a slice whose end lies before its start.
\<close>

definition go_on :: "bytes \<Rightarrow> nat \<Rightarrow> (bytes option, lc_error) outcome + nat" where
  "go_on bz i = (if i > length bz then Inl (Ok None) else Inr i)"

definition get_len_step :: "bytes \<Rightarrow> nat \<Rightarrow> nat \<Rightarrow> (bytes option, lc_error) outcome + nat" where
  "get_len_step bz want i =
     (if \<not> i < length bz then Inl (Ok None)
      else case read_varint bz i of
        None \<Rightarrow> Inl (Ok None)
      | Some (tag, i1) \<Rightarrow>
          if tag mod 8 = 0
          then (case read_varint bz i1 of None \<Rightarrow> Inl (Ok None) | Some (_, i2) \<Rightarrow> go_on bz i2)
          else if tag mod 8 = 1 then go_on bz (usize_add i1 8)
          else if tag mod 8 = 5 then go_on bz (usize_add i1 4)
          else if tag mod 8 = 2
          then (case read_varint bz i1 of
                  None \<Rightarrow> Inl (Ok None)
                | Some (len, i2) \<Rightarrow>
                    let stop = usize_add i2 (len mod 2 ^ 32)
                    in if stop > length bz then Inl (Ok None)
                       else if (tag div 8) mod 2 ^ 32 = want
                       then Inl (if stop < i2 then Panic else Ok (Some (take (stop - i2) (drop i2 bz))))
                       else go_on bz stop)
          else Inl (Ok None))"

text \<open>The loop need not end: it is a partial function, undefined where it runs forever.\<close>

partial_function (option) get_len_loop :: "bytes \<Rightarrow> nat \<Rightarrow> nat \<Rightarrow> (bytes option, lc_error) outcome option" where
  "get_len_loop bz want i =
     (case get_len_step bz want i of Inl r \<Rightarrow> Some r | Inr i' \<Rightarrow> get_len_loop bz want i')"

text \<open>A contract that does not return is stopped by the VM when its gas is used up.\<close>

definition get_len_field :: "bytes \<Rightarrow> nat \<Rightarrow> (bytes option, lc_error) outcome" where
  "get_len_field bz want = (case get_len_loop bz want 0 of None \<Rightarrow> Panic | Some r \<Rightarrow> r)"

section \<open>The contract's storage\<close>

record lc_height =
  revision_number :: nat
  revision_height :: nat

record client_state =
  cs_chain_id :: bytes
  cs_group_public_key_hex :: bytes
  cs_latest_height :: lc_height
  cs_frozen_height :: "lc_height option"

record consensus_state =
  cn_payload_digest_hex :: bytes
  cn_timestamp :: nat
  cn_epoch :: nat
  cn_view :: nat
  cn_parent :: nat

type_synonym lc_store = "bytes \<Rightarrow> bytes option"

definition CLIENT_STATE_KEY :: bytes where
  "CLIENT_STATE_KEY = ascii ''clientState''"

definition CLIENT_STATE_TYPE_URL :: bytes where
  "CLIENT_STATE_TYPE_URL = ascii ''/ibc.lightclients.wasm.v1.ClientState''"

definition CONSENSUS_STATE_TYPE_URL :: bytes where
  "CONSENSUS_STATE_TYPE_URL = ascii ''/ibc.lightclients.wasm.v1.ConsensusState''"

definition consensus_state_key :: "lc_height \<Rightarrow> bytes" where
  "consensus_state_key h =
     ascii ''consensusStates/'' @ show_nat (revision_number h) @ ascii ''-'' @ show_nat (revision_height h)"

definition encode_height :: "lc_height \<Rightarrow> bytes" where
  "encode_height h = put_varint_field 1 (revision_number h) @ put_varint_field 2 (revision_height h)"

definition encode_wasm_client_state :: "bytes \<Rightarrow> bytes \<Rightarrow> lc_height \<Rightarrow> bytes" where
  "encode_wasm_client_state data chk latest = put_len 1 data @ put_len 2 chk @ put_len 3 (encode_height latest)"

definition encode_wasm_consensus_state :: "bytes \<Rightarrow> bytes" where
  "encode_wasm_consensus_state data = put_len 1 data"

definition encode_any :: "bytes \<Rightarrow> bytes \<Rightarrow> bytes" where
  "encode_any type_url value = put_len 1 type_url @ put_len 2 value"

definition save_client_state ::
  "client_state codec \<Rightarrow> client_state \<Rightarrow> bytes \<Rightarrow> lc_store \<Rightarrow> (lc_store, lc_error) outcome" where
  "save_client_state c cs chk store =
     o_bind (of_option Lc_Std (enc c cs)) (\<lambda>data.
     Ok (store(CLIENT_STATE_KEY \<mapsto>
       encode_any CLIENT_STATE_TYPE_URL (encode_wasm_client_state data chk (cs_latest_height cs)))))"

definition required_field :: "bytes \<Rightarrow> nat \<Rightarrow> (bytes, lc_error) outcome" where
  "required_field bz want = o_bind (get_len_field bz want) (of_option Lc_Std)"

definition load_client_state :: "client_state codec \<Rightarrow> lc_store \<Rightarrow> (client_state \<times> bytes, lc_error) outcome" where
  "load_client_state c store =
     o_bind (of_option Lc_Std (store CLIENT_STATE_KEY)) (\<lambda>any.
     o_bind (required_field any 2) (\<lambda>value.
     o_bind (required_field value 1) (\<lambda>data.
     o_bind (required_field value 2) (\<lambda>chk.
     o_bind (of_option Lc_Std (dec c data)) (\<lambda>cs.
     Ok (cs, chk))))))"

definition save_consensus_state ::
  "consensus_state codec \<Rightarrow> lc_height \<Rightarrow> consensus_state \<Rightarrow> lc_store \<Rightarrow> (lc_store, lc_error) outcome" where
  "save_consensus_state c h cs store =
     o_bind (of_option Lc_Std (enc c cs)) (\<lambda>data.
     Ok (store(consensus_state_key h \<mapsto> encode_any CONSENSUS_STATE_TYPE_URL (encode_wasm_consensus_state data))))"

definition may_load_consensus_state ::
  "consensus_state codec \<Rightarrow> lc_height \<Rightarrow> lc_store \<Rightarrow> (consensus_state option, lc_error) outcome" where
  "may_load_consensus_state c h store =
     (case store (consensus_state_key h) of
        None \<Rightarrow> Ok None
      | Some any \<Rightarrow>
          o_bind (required_field any 2) (\<lambda>value.
          o_bind (required_field value 1) (\<lambda>data.
          o_bind (of_option Lc_Std (dec c data)) (\<lambda>cs.
          Ok (Some cs)))))"

section \<open>Round trips of varints\<close>

text \<open>The low seven bits of a byte and its continuation bit.\<close>

lemma varint_byte:
  assumes "n < 128"
  shows "unat ((of_nat n :: byte) AND 0x7f) = n" "(of_nat n :: byte) AND 0x80 = 0"
    "unat (((of_nat n :: byte) OR 0x80) AND 0x7f) = n" "((of_nat n :: byte) OR 0x80) AND 0x80 \<noteq> 0"
proof -
  let ?b = "of_nat n :: byte"
  have mask: "(0x7f :: byte) = mask 7" by (simp add: mask_eq_exp_minus_1)
  have "take_bit 7 n = n" using assms by (simp add: take_bit_nat_eq_self)
  then have low: "?b AND 0x7f = ?b" unfolding mask by (simp add: flip: take_bit_eq_mask) (simp add: take_bit_of_nat)
  have "?b AND 0x80 = ?b AND (0x7f AND 0x80)" using low by (metis and.assoc)
  then show high: "?b AND 0x80 = 0" by simp
  have un: "unat ?b = n" using assms by (simp add: unat_of_nat)
  with low show "unat (?b AND 0x7f) = n" by simp
  have "(?b OR 0x80) AND 0x7f = ?b" using low by (simp add: bit.conj_disj_distrib2)
  with un show "unat ((?b OR 0x80) AND 0x7f) = n" by simp
  show "(?b OR 0x80) AND 0x80 \<noteq> 0" by (simp add: bit.conj_disj_distrib2 high)
qed

lemma or_push_bit:
  fixes r x s :: nat
  assumes "r < 2 ^ s"
  shows "r OR push_bit s x = r + x * 2 ^ s"
proof -
  have "take_bit s r = r" using assms by (simp add: take_bit_nat_eq_self)
  then have "\<not> bit r m" if "m \<ge> s" for m using that by (metis bit_take_bit_iff not_le)
  then have "r AND push_bit s x = 0" by (auto simp: bit_eq_iff bit_and_iff bit_push_bit_iff)
  then show ?thesis by (simp add: push_bit_eq_mult flip: disjunctive_add_eq_or)
qed

lemma varint_chunk:
  fixes r v s :: nat
  assumes "r < 2 ^ s" "v * 2 ^ s < 2 ^ 64"
  shows "r OR take_bit 64 (push_bit s (v mod 128)) = r + v mod 128 * 2 ^ s"
proof -
  have "v mod 128 * 2 ^ s \<le> v * 2 ^ s" by simp
  then have "push_bit s (v mod 128) < 2 ^ 64" using assms(2) unfolding push_bit_eq_mult by (rule le_less_trans)
  then have "take_bit 64 (push_bit s (v mod 128)) = push_bit s (v mod 128)" by (rule take_bit_nat_eq_self)
  with or_push_bit [OF assms(1)] show ?thesis by simp
qed

lemma write_put: "put_varint v = write_uvarint v"
  by (induction v rule: put_varint.induct) (simp add: put_varint.simps write_uvarint.simps Let_def)

lemma write_uvarint_ne [simp]: "write_uvarint v \<noteq> []"
  by (subst write_uvarint.simps) (simp add: Let_def)

text \<open>What is left to read when the bits below \<open>s\<close> have been read.\<close>

lemma varint_rest:
  fixes v s :: nat
  assumes "v * 2 ^ s < 2 ^ 64" "v div 128 \<noteq> 0"
  shows "s + 7 < 64" "v div 128 * 2 ^ (s + 7) < 2 ^ 64"
    "v mod 128 * 2 ^ s + v div 128 * 2 ^ (s + 7) = v * 2 ^ s"
proof -
  have "v mod 128 * 2 ^ s + v div 128 * 2 ^ (s + 7) = (v mod 128 + v div 128 * 128) * 2 ^ s"
  proof -
    have "a * k + b * (k * 128) = (a + b * 128) * k" for a b k :: nat by (simp add: algebra_simps)
    moreover have "(2 :: nat) ^ (s + 7) = 2 ^ s * 128" by (simp add: power_add)
    ultimately show ?thesis by metis
  qed
  then show sum: "v mod 128 * 2 ^ s + v div 128 * 2 ^ (s + 7) = v * 2 ^ s" by simp
  then show "v div 128 * 2 ^ (s + 7) < 2 ^ 64" using assms(1) by linarith
  moreover have "2 ^ (s + 7) \<le> v div 128 * 2 ^ (s + 7)" using assms(2) by simp
  ultimately have "(2 :: nat) ^ (s + 7) < 2 ^ 64" by linarith
  then show "s + 7 < 64" by (rule power_less_imp_less_exp [rotated]) simp
qed

lemma read_uvarint_written:
  assumes "buf = pre @ write_uvarint v @ post" "r < 2 ^ s" "s < 64" "v * 2 ^ s < 2 ^ 64"
  shows "read_uvarint_loop buf (length pre) r s = Ok (r + v * 2 ^ s, length pre + length (write_uvarint v))"
  using assms
proof (induction v arbitrary: pre r s rule: write_uvarint.induct)
  case (1 v)
  have lt: "v mod 128 < 128" by simp
  note byte = varint_byte [OF lt] and chunk = varint_chunk [OF "1.prems"(2,4)]
  show ?case
  proof (cases "v div 128 = 0")
    case True
    then have w: "write_uvarint v = [of_nat (v mod 128)]" by (subst write_uvarint.simps) (simp add: Let_def)
    have "v mod 128 = v" using True by (simp add: div_eq_0_iff)
    with w "1.prems" byte chunk show ?thesis by (subst read_uvarint_loop.simps) (simp add: nth_append Let_def)
  next
    case False
    then have w: "write_uvarint v = (of_nat (v mod 128) OR 0x80) # write_uvarint (v div 128)"
      by (subst write_uvarint.simps) (simp add: Let_def)
    note rest = varint_rest [OF "1.prems"(4) False]
    have small: "r + v mod 128 * 2 ^ s < 2 ^ (s + 7)"
    proof -
      have "r + v mod 128 * 2 ^ s < 2 ^ s + 127 * 2 ^ s" using "1.prems"(2) lt by (intro add_less_le_mono) simp_all
      then show ?thesis by (simp add: power_add)
    qed
    have "read_uvarint_loop buf (length (pre @ [of_nat (v mod 128) OR 0x80])) (r + v mod 128 * 2 ^ s) (s + 7) =
        Ok (r + v mod 128 * 2 ^ s + v div 128 * 2 ^ (s + 7), length (pre @ [of_nat (v mod 128) OR 0x80]) + length (write_uvarint (v div 128)))"
      by (rule "1.IH" [OF refl refl False _ small rest(1,2)]) (simp add: "1.prems"(1) w)
    then have step: "read_uvarint_loop buf (Suc (length pre)) (r + v mod 128 * 2 ^ s) (s + 7) =
        Ok (r + v * 2 ^ s, length pre + length (write_uvarint v))"
      using rest(3) by (simp add: w add.assoc)
    have "buf ! length pre = of_nat (v mod 128) OR 0x80" "length pre < length buf" by (simp_all add: "1.prems"(1) w)
    with byte chunk step "1.prems"(3) show ?thesis by (subst read_uvarint_loop.simps) (simp add: Let_def)
  qed
qed

text \<open>The decoder of \<open>wasmstore.rs\<close> accepts what the one of \<open>verify.rs\<close> accepts.\<close>

lemma read_varint_agrees:
  "s < 64 \<Longrightarrow> read_varint_loop buf pos r s = (case read_uvarint_loop buf pos r s of Ok x \<Rightarrow> Some x | _ \<Rightarrow> None)"
proof (induction buf pos r s rule: read_uvarint_loop.induct)
  case (1 buf pos r s)
  let ?r = "r OR take_bit 64 (push_bit s (unat (buf ! pos AND 0x7f)))"
  show ?case
  proof (cases "pos < length buf \<and> buf ! pos AND 0x80 \<noteq> 0 \<and> s + 7 < 64")
    case True
    with "1.IH" [of "buf ! pos" "pos + 1" ?r] "1.prems"
    have "read_varint_loop buf (pos + 1) ?r (s + 7) = (case read_uvarint_loop buf (pos + 1) ?r (s + 7) of Ok x \<Rightarrow> Some x | _ \<Rightarrow> None)" by simp
    with True show ?thesis by (subst read_varint_loop.simps, subst read_uvarint_loop.simps) (simp add: Let_def)
  next
    case False
    have "read_uvarint_loop buf (pos + 1) ?r (s + 7) = Err InvalidProposal" if "\<not> s + 7 < 64"
      using that by (subst read_uvarint_loop.simps) (simp add: Let_def)
    with False "1.prems" show ?thesis
      by (subst read_varint_loop.simps, subst read_uvarint_loop.simps) (auto simp: Let_def)
  qed
qed

lemma read_uvarint_put:
  assumes "v < 2 ^ 64"
  shows "read_uvarint (pre @ write_uvarint v @ post) (length pre) = Ok (v, length pre + length (write_uvarint v))"
  using read_uvarint_written [OF refl, of 0 0 v pre post] assms by (simp add: read_uvarint_def)

lemma read_varint_put:
  assumes "v < 2 ^ 64"
  shows "read_varint (pre @ put_varint v @ post) (length pre) = Some (v, length pre + length (put_varint v))"
  using read_uvarint_put [OF assms, of pre post] by (simp add: read_varint_def read_uvarint_def write_put read_varint_agrees)

section \<open>Reading a field back\<close>

lemma get_len_at:
  assumes bz: "bz = pre @ put_len f d @ post" and size: "length bz < 2 ^ 32" and f: "f < 2 ^ 32"
  shows "get_len_loop bz want (length pre) =
    (if f = want then Some (Ok (Some d)) else get_len_loop bz want (length pre + length (put_len f d)))"
proof -
  define tag where "tag = f * 8 + 2"
  let ?t = "put_varint tag" and ?l = "put_varint (length d)"
  define i1 where "i1 = length pre + length ?t"
  define i2 where "i2 = i1 + length ?l"
  have bz': "bz = pre @ ?t @ ?l @ d @ post" by (simp add: bz put_len_def tag_def)
  have "tag < 2 ^ 64" using f by (simp add: tag_def)
  from read_varint_put [OF this, of pre "?l @ d @ post"] have r1: "read_varint bz (length pre) = Some (tag, i1)" by (simp add: bz' i1_def)
  have "length d < 2 ^ 64" using size bz' by simp
  from read_varint_put [OF this, of "pre @ ?t" "d @ post"] have r2: "read_varint bz i1 = Some (length d, i2)" by (simp add: bz' i1_def i2_def)
  have lt: "length pre < length bz" using write_uvarint_ne [of tag] by (simp add: bz' write_put)
  have "tag div 8 = f" unfolding tag_def by presburger
  then have field: "tag mod 8 = 2" "tag div 8 mod 2 ^ 32 = f" using f unfolding tag_def by (presburger, simp)
  have le: "i2 + length d \<le> length bz" by (simp add: bz' i1_def i2_def)
  then have stop: "usize_add i2 (length d mod 2 ^ 32) = i2 + length d" using size by (simp add: usize_add_def)
  have data: "take (length d) (drop i2 bz) = d" by (simp add: bz' i1_def i2_def)
  have next_pos: "length pre + length (put_len f d) = i2 + length d" by (simp add: put_len_def tag_def i1_def i2_def)
  show ?thesis
    unfolding next_pos
    by (subst get_len_loop.simps) (use lt r1 r2 field le stop data in \<open>simp add: get_len_step_def go_on_def Let_def\<close>)
qed

lemma get_len_end: "get_len_loop bz want (length bz) = Some (Ok None)"
  by (subst get_len_loop.simps) (simp add: get_len_step_def)

lemma get_len_first:
  assumes "length (put_len f d @ post) < 2 ^ 32" "f < 2 ^ 32"
  shows "get_len_field (put_len f d @ post) f = Ok (Some d)"
  using get_len_at [of "put_len f d @ post" "[]" f d post f] assms by (simp add: get_len_field_def)

lemma get_len_second:
  assumes "length (put_len e c @ put_len f d @ post) < 2 ^ 32" "e < 2 ^ 32" "f < 2 ^ 32" "e \<noteq> f"
  shows "get_len_field (put_len e c @ put_len f d @ post) f = Ok (Some d)"
  using get_len_at [of "put_len e c @ put_len f d @ post" "[]" e c "put_len f d @ post" f]
    get_len_at [of "put_len e c @ put_len f d @ post" "put_len e c" f d post f] assms
  by (simp add: get_len_field_def)

section \<open>Sizes\<close>

lemma write_uvarint_length: "v < 128 ^ Suc n \<Longrightarrow> length (write_uvarint v) \<le> Suc n"
proof (induction n arbitrary: v)
  case 0
  then show ?case by (subst write_uvarint.simps) (simp add: Let_def)
next
  case (Suc n)
  then have "v div 128 < 128 ^ Suc n" by (simp add: div_less_iff_less_mult)
  from Suc.IH [OF this] show ?case by (subst write_uvarint.simps) (simp add: Let_def)
qed

lemma put_varint_length: "v < 2 ^ 64 \<Longrightarrow> length (put_varint v) \<le> 10"
  using write_uvarint_length [of v 9] by (simp add: write_put)

lemma put_len_length: "f < 2 ^ 32 \<Longrightarrow> length d < 2 ^ 32 \<Longrightarrow> length (put_len f d) \<le> length d + 20"
  using put_varint_length [of "f * 8 + 2"] put_varint_length [of "length d"] by (simp add: put_len_def)

lemma encode_height_length: "revision_number h < 2 ^ 64 \<Longrightarrow> revision_height h < 2 ^ 64 \<Longrightarrow> length (encode_height h) \<le> 40"
  using put_varint_length [of 8] put_varint_length [of 16] put_varint_length [of "revision_number h"]
    put_varint_length [of "revision_height h"]
  by (auto simp: encode_height_def put_varint_field_def)

text \<open>
  An encoding that succeeds only on values that fit in the memory of a contract, which is at most
  \<open>2\<^sup>3\<^sup>2\<close> bytes for everything the contract holds.
\<close>

definition small_codec :: "'a codec \<Rightarrow> bool" where
  "small_codec c \<longleftrightarrow> (\<forall>x b. enc c x = Some b \<longrightarrow> dec c b = Some x \<and> length b < 2 ^ 30)"

lemma small_codecD:
  assumes "small_codec c" "enc c x = Some b"
  shows "dec c b = Some x" "length b < 2 ^ 30"
  using assms by (auto simp: small_codec_def)

lemma type_url_lengths: "length CLIENT_STATE_TYPE_URL = 37" "length CONSENSUS_STATE_TYPE_URL = 40"
  by (simp_all add: CLIENT_STATE_TYPE_URL_def CONSENSUS_STATE_TYPE_URL_def ascii_def)

lemma any_value:
  assumes "length url < 100" "length v < 2 ^ 31 + 2 ^ 10"
  shows "required_field (encode_any url v) 2 = Ok v"
proof -
  have "length (put_len 1 url) \<le> 120" "length (put_len 2 v) \<le> length v + 20"
    using assms put_len_length [of 1 url] put_len_length [of 2 v] by simp_all
  then have "length (put_len 1 url @ put_len 2 v @ []) < 2 ^ 32" using assms(2) by simp
  from get_len_second [OF this] show ?thesis by (simp add: encode_any_def required_field_def)
qed

lemma wasm_client_fields:
  assumes "length d < 2 ^ 30" "length chk < 2 ^ 30" "revision_number h < 2 ^ 64" "revision_height h < 2 ^ 64"
  shows "required_field (encode_wasm_client_state d chk h) 1 = Ok d" "required_field (encode_wasm_client_state d chk h) 2 = Ok chk"
    "length (encode_wasm_client_state d chk h) < 2 ^ 31 + 2 ^ 10"
proof -
  note h = encode_height_length [OF assms(3,4)]
  have l: "length (put_len 1 d) \<le> length d + 20" "length (put_len 2 chk) \<le> length chk + 20" "length (put_len 3 (encode_height h)) \<le> 60"
    using assms(1,2) h put_len_length [of 1 d] put_len_length [of 2 chk] put_len_length [of 3 "encode_height h"] by simp_all
  then show len: "length (encode_wasm_client_state d chk h) < 2 ^ 31 + 2 ^ 10"
    using assms(1,2) by (simp add: encode_wasm_client_state_def)
  then have "length (put_len 1 d @ put_len 2 chk @ put_len 3 (encode_height h)) < 2 ^ 32" by (simp add: encode_wasm_client_state_def)
  from get_len_first [OF this] get_len_second [OF this]
  show "required_field (encode_wasm_client_state d chk h) 1 = Ok d" "required_field (encode_wasm_client_state d chk h) 2 = Ok chk"
    by (simp_all add: encode_wasm_client_state_def required_field_def)
qed

section \<open>Keys\<close>

lemma show_nat_inject [simp]: "show_nat a = show_nat b \<longleftrightarrow> a = b"
  using show_nat_digits by metis

lemma digits_then_dash:
  assumes "show_nat a @ 45 # x = show_nat b @ 45 # y"
  shows "a = b \<and> x = y"
proof -
  have "takeWhile is_digit_byte (show_nat n @ 45 # z) = show_nat n" for n z
    using show_nat_digits [of n] by (auto simp: takeWhile_append list_all_iff is_digit_byte_def)
  with assms have "show_nat a = show_nat b" by metis
  with assms show ?thesis by simp
qed

lemma consensus_state_key_inject [simp]: "consensus_state_key h = consensus_state_key h' \<longleftrightarrow> h = h'"
proof
  assume "consensus_state_key h = consensus_state_key h'"
  then have "show_nat (revision_number h) @ 45 # show_nat (revision_height h) = show_nat (revision_number h') @ 45 # show_nat (revision_height h')"
    by (simp add: consensus_state_key_def ascii_def)
  from digits_then_dash [OF this] show "h = h'" by simp
qed simp

lemma client_key_distinct [simp]: "CLIENT_STATE_KEY \<noteq> consensus_state_key h" "consensus_state_key h \<noteq> CLIENT_STATE_KEY"
  by (simp_all add: CLIENT_STATE_KEY_def consensus_state_key_def ascii_def)

section \<open>What the store holds\<close>

definition height_ok :: "lc_height \<Rightarrow> bool" where
  "height_ok h \<longleftrightarrow> revision_number h < 2 ^ 64 \<and> revision_height h < 2 ^ 64"

lemma save_client_load:
  assumes save: "save_client_state c cs chk store = Ok store'" and c: "small_codec c"
    and "length chk < 2 ^ 30" "height_ok (cs_latest_height cs)"
  shows "load_client_state c store' = Ok (cs, chk)" "may_load_consensus_state cn h store' = may_load_consensus_state cn h store"
proof -
  from save obtain data where data: "enc c cs = Some data"
    and store': "store' = store(CLIENT_STATE_KEY \<mapsto> encode_any CLIENT_STATE_TYPE_URL (encode_wasm_client_state data chk (cs_latest_height cs)))"
    by (auto simp: save_client_state_def)
  note small = small_codecD [OF c data]
  note fields = wasm_client_fields [OF small(2) assms(3), of "cs_latest_height cs"]
  have "required_field (encode_any CLIENT_STATE_TYPE_URL (encode_wasm_client_state data chk (cs_latest_height cs))) 2 =
      Ok (encode_wasm_client_state data chk (cs_latest_height cs))"
    using fields(3) assms(4) by (intro any_value) (simp_all add: type_url_lengths height_ok_def)
  with fields(1,2) assms(4) small(1) store' show "load_client_state c store' = Ok (cs, chk)"
    by (simp add: load_client_state_def height_ok_def)
  show "may_load_consensus_state cn h store' = may_load_consensus_state cn h store"
    by (simp add: store' may_load_consensus_state_def)
qed

lemma save_consensus_load:
  assumes save: "save_consensus_state c h cs store = Ok store'" and c: "small_codec c"
  shows "may_load_consensus_state c h store' = Ok (Some cs)"
    "h' \<noteq> h \<Longrightarrow> may_load_consensus_state c h' store' = may_load_consensus_state c h' store"
    "load_client_state cc store' = load_client_state cc store"
proof -
  from save obtain data where data: "enc c cs = Some data"
    and store': "store' = store(consensus_state_key h \<mapsto> encode_any CONSENSUS_STATE_TYPE_URL (encode_wasm_consensus_state data))"
    by (auto simp: save_consensus_state_def)
  note small = small_codecD [OF c data]
  have l: "length (put_len 1 data) \<le> length data + 20" using small(2) put_len_length [of 1 data] by simp
  then have "required_field (encode_any CONSENSUS_STATE_TYPE_URL (encode_wasm_consensus_state data)) 2 = Ok (encode_wasm_consensus_state data)"
    using small(2) by (intro any_value) (simp_all add: type_url_lengths encode_wasm_consensus_state_def)
  moreover have "required_field (encode_wasm_consensus_state data) 1 = Ok data"
    using get_len_first [of 1 data "[]"] l small(2) by (simp add: encode_wasm_consensus_state_def required_field_def)
  ultimately show "may_load_consensus_state c h store' = Ok (Some cs)" using small(1) by (simp add: may_load_consensus_state_def store')
  show "h' \<noteq> h \<Longrightarrow> may_load_consensus_state c h' store' = may_load_consensus_state c h' store"
    "load_client_state cc store' = load_client_state cc store"
    by (simp_all add: store' may_load_consensus_state_def load_client_state_def)
qed

section \<open>A length that wraps\<close>

definition endless_field :: bytes where
  "endless_field = [0x0A, 0xFA, 0xFF, 0xFF, 0xFF, 0x0F]"

lemmas varint_exec [lc_exec] = read_varint_def read_varint_loop.simps push_bit_eq_mult take_bit_eq_mod

lemma endless_reads: "read_varint endless_field 0 = Some (10, 1)" "read_varint endless_field (Suc 0) = Some (4294967290, 6)"
  by (simp_all add: endless_field_def lc_exec Let_def)

lemma endless_step: "get_len_step endless_field 2 0 = Inr 0" "get_len_step endless_field 1 0 = Inl Panic"
proof -
  have "length endless_field = 6" by (simp add: endless_field_def)
  then show "get_len_step endless_field 2 0 = Inr 0" "get_len_step endless_field 1 0 = Inl Panic"
    by (simp_all add: get_len_step_def go_on_def endless_reads usize_add_def Let_def)
qed

text \<open>A step back to where it started never gives a result.\<close>

lemma get_len_loop_stuck:
  assumes "get_len_step bz want i = Inr i"
  shows "get_len_loop bz want i = None"
proof (rule ccontr)
  assume "get_len_loop bz want i \<noteq> None"
  then obtain r where run: "get_len_loop bz want i = Some r" by blast
  have "\<not> (bz = bz \<and> want = want \<and> i = i)"
  proof (rule get_len_loop.raw_induct [of "\<lambda>b w j r. \<not> (b = bz \<and> w = want \<and> j = i)", OF _ run])
    fix loop b w j r
    assume IH: "\<And>b w j r. loop b w j = Some r \<Longrightarrow> \<not> (b = bz \<and> w = want \<and> j = i)"
      and "(case get_len_step b w j of Inl r \<Rightarrow> Some r | Inr i' \<Rightarrow> loop b w i') = Some r"
    with assms show "\<not> (b = bz \<and> w = want \<and> j = i)" using IH [of bz want i] by auto
  qed
  then show False by simp
qed

text \<open>Without a wrap every step moves forward, so that the loop ends.\<close>

lemma read_varint_progress: "read_varint_loop bz i v s = Some (x, j) \<Longrightarrow> i < j \<and> j \<le> length bz"
proof (induction bz i v s rule: read_varint_loop.induct)
  case (1 bz i v s)
  from "1.prems" have "i < length bz" by (subst (asm) read_varint_loop.simps) (simp split: if_splits)
  with 1 show ?case by (subst (asm) (2) read_varint_loop.simps) (fastforce simp: Let_def split: if_splits)
qed

definition short_lengths :: "bytes \<Rightarrow> bool" where
  "short_lengths bz \<longleftrightarrow> length bz < 2 ^ 31 \<and> (\<forall>i len j. read_varint bz i = Some (len, j) \<longrightarrow> len mod 2 ^ 32 < 2 ^ 31)"

lemma get_len_step_progress:
  assumes "get_len_step bz want i = Inr j" "short_lengths bz"
  shows "i < j \<and> j \<le> length bz"
proof -
  have size: "length bz < 2 ^ 31" using assms(2) by (simp add: short_lengths_def)
  obtain tag i1 where r1: "read_varint bz i = Some (tag, i1)"
    using assms(1) by (auto simp: get_len_step_def split: if_splits option.splits)
  then have i1: "i < i1" "i1 \<le> length bz" using read_varint_progress by (auto simp: read_varint_def)
  have jumps: "usize_add i1 8 = i1 + 8" "usize_add i1 4 = i1 + 4" using i1 size by (simp_all add: usize_add_def)
  have r2: "i1 < i2 \<and> i2 \<le> length bz \<and> usize_add i2 (len mod 2 ^ 32) = i2 + len mod 2 ^ 32"
    if "read_varint bz i1 = Some (len, i2)" for len i2
  proof -
    have "i1 < i2" "i2 \<le> length bz" using that read_varint_progress by (auto simp: read_varint_def)
    moreover have "len mod 2 ^ 32 < 2 ^ 31" using that assms(2) by (auto simp: short_lengths_def)
    ultimately show ?thesis using size by (simp add: usize_add_def)
  qed
  show ?thesis
    using assms(1) r1 i1 jumps r2
    by (fastforce simp: get_len_step_def go_on_def Let_def split: if_splits option.splits)
qed

lemma get_len_loop_ends: "short_lengths bz \<Longrightarrow> \<exists>r. get_len_loop bz want i = Some r"
proof (induction "length bz - i" arbitrary: i rule: less_induct)
  case less
  show ?case
  proof (cases "get_len_step bz want i")
    case (Inr j)
    from get_len_step_progress [OF this less.prems] have "length bz - j < length bz - i" by linarith
    from less.hyps [OF this less.prems] Inr show ?thesis by (subst get_len_loop.simps) simp
  qed (subst get_len_loop.simps, simp)
qed

section \<open>Properties\<close>



end
