(* ===== verification/Light_Client.thy ===== *)
theory Light_Client
  imports Lc_Store Merkle
begin

text \<open>
  The light client contract: the verification of certificates, \<open>contracts/light-client/src/verify.rs\<close>,
  and the entry points, \<open>contract.rs\<close>.

  A call maps the contract's storage to a response and the storage afterwards; the host drops the
  writes of a call that fails. The curve operations of \<open>bls12_381\<close>, SHA-256, hexadecimal and JSON
  are parameters.
\<close>

section \<open>Parameters\<close>

record lc_header =
  hd_height :: lc_height
  hd_timestamp :: nat
  hd_proposal_bytes :: bytes
  hd_certificate_bytes :: bytes

record misbehaviour =
  mb_header_a :: lc_header
  mb_header_b :: lc_header

record membership_proof =
  mp_payload_bytes :: bytes
  mp_leaf_index :: nat
  mp_siblings :: "bytes option list"

text \<open>
  \<open>lc_g2\<close> and \<open>lc_g1\<close> tell whether bytes decompress to a point. \<open>lc_pairing sig dst msg pk\<close> is
  \<open>e(sig, G2) = e(H(msg), pk)\<close>, with \<open>H\<close> hashing to the curve under the tag \<open>dst\<close>.
\<close>

record lc_env =
  lc_g2 :: "bytes \<Rightarrow> bool"
  lc_g1 :: "bytes \<Rightarrow> bool"
  lc_pairing :: "bytes \<Rightarrow> bytes \<Rightarrow> bytes \<Rightarrow> bytes \<Rightarrow> bool"
  lc_sha256 :: hash_fun
  lc_hex_encode :: "bytes \<Rightarrow> bytes"
  lc_hex_decode :: "bytes \<Rightarrow> bytes option"
  lc_client :: "client_state codec"
  lc_consensus :: "consensus_state codec"
  lc_parse_header :: "bytes \<Rightarrow> lc_header option"
  lc_parse_misbehaviour :: "bytes \<Rightarrow> misbehaviour option"
  lc_parse_proof :: "bytes \<Rightarrow> membership_proof option"

section \<open>Certificates\<close>

definition BASE_NAMESPACE :: bytes where
  "BASE_NAMESPACE = ascii ''slay3r-consensus-v1''"

definition FINALIZE_SUFFIX :: bytes where
  "FINALIZE_SUFFIX = ascii ''_FINALIZE''"

definition G1_MESSAGE_DST :: bytes where
  "G1_MESSAGE_DST = ascii ''BLS_SIG_BLS12381G1_XMD:SHA-256_SSWU_RO_POP_''"

record decoded_proposal =
  dp_epoch :: nat
  dp_view :: nat
  dp_parent :: nat
  dp_payload :: bytes

definition finalize_namespace :: bytes where
  "finalize_namespace = BASE_NAMESPACE @ FINALIZE_SUFFIX"

definition union_unique :: "bytes \<Rightarrow> bytes \<Rightarrow> bytes" where
  "union_unique namespace msg = write_uvarint (length namespace) @ namespace @ msg"

definition decode_proposal :: "bytes \<Rightarrow> (decoded_proposal, lc_error) outcome" where
  "decode_proposal b =
     o_bind (read_uvarint b 0) (\<lambda>(epoch, p1).
     o_bind (read_uvarint b p1) (\<lambda>(view, p2).
     o_bind (read_uvarint b p2) (\<lambda>(parent, pos).
     if pos + 32 > length b then Err InvalidProposal
     else if pos + 32 \<noteq> length b then Err InvalidProposal
     else Ok \<lparr>dp_epoch = epoch, dp_view = view, dp_parent = parent, dp_payload = take 32 (drop pos b)\<rparr>)))"

definition verify_certificate :: "lc_env \<Rightarrow> bytes \<Rightarrow> bytes \<Rightarrow> bytes \<Rightarrow> (decoded_proposal, lc_error) outcome" where
  "verify_certificate env group_public_key proposal_bytes certificate_bytes =
     (if length group_public_key \<noteq> 96 then Err (InvalidPublicKeyLength (length group_public_key))
      else if length certificate_bytes \<noteq> 48 then Err (InvalidCertificateLength (length certificate_bytes))
      else o_bind (decode_proposal proposal_bytes) (\<lambda>decoded.
        if \<not> lc_g2 env group_public_key then Err Lc_InvalidPublicKey
        else if \<not> lc_g1 env certificate_bytes then Err InvalidCertificate
        else if lc_pairing env certificate_bytes G1_MESSAGE_DST (union_unique finalize_namespace proposal_bytes) group_public_key
        then Ok decoded
        else Err VerificationFailed))"

section \<open>Entry points\<close>

record instantiate_msg =
  im_client_state :: bytes
  im_consensus_state :: bytes
  im_checksum :: bytes

definition lc_instantiate :: "lc_env \<Rightarrow> instantiate_msg \<Rightarrow> lc_store \<Rightarrow> (lc_store, lc_error) outcome" where
  "lc_instantiate env msg store =
     o_bind (of_option Lc_Std (dec (lc_client env) (im_client_state msg))) (\<lambda>cs.
     o_bind (of_option Lc_Std (dec (lc_consensus env) (im_consensus_state msg))) (\<lambda>cn.
     o_bind (of_option Lc_InvalidPublicKey (lc_hex_decode env (cs_group_public_key_hex cs))) (\<lambda>pk_bytes.
     if length pk_bytes \<noteq> 96 then Err (InvalidPublicKeyLength (length pk_bytes))
     else o_bind (save_consensus_state (lc_consensus env) (cs_latest_height cs) cn store) (\<lambda>store1.
          save_client_state (lc_client env) cs (im_checksum msg) store1))))"

definition check_header :: "lc_env \<Rightarrow> client_state \<Rightarrow> lc_header \<Rightarrow> (decoded_proposal, lc_error) outcome" where
  "check_header env cs header =
     (case cs_frozen_height cs of
        Some frozen_at \<Rightarrow> Err (ClientFrozen (revision_height frozen_at))
      | None \<Rightarrow>
          if revision_number (hd_height header) \<noteq> revision_number (cs_latest_height cs) then Err InvalidProposal
          else o_bind (of_option Lc_InvalidPublicKey (lc_hex_decode env (cs_group_public_key_hex cs))) (\<lambda>pk_bytes.
               verify_certificate env pk_bytes (hd_proposal_bytes header) (hd_certificate_bytes header)))"

definition check_update_header ::
  "lc_env \<Rightarrow> lc_store \<Rightarrow> client_state \<Rightarrow> lc_header \<Rightarrow> (decoded_proposal, lc_error) outcome" where
  "check_update_header env store cs header =
     o_bind (check_header env cs header) (\<lambda>decoded.
     let h = revision_height (hd_height header); latest = revision_height (cs_latest_height cs)
     in if h \<le> latest
        then
          if h = latest
          then o_bind (may_load_consensus_state (lc_consensus env) (hd_height header) store) (\<lambda>loaded.
               o_bind (of_option (ConsensusStateNotFound h) loaded) (\<lambda>existing.
               if cn_payload_digest_hex existing = lc_hex_encode env (dp_payload decoded) then Ok decoded
               else Err (NonMonotonicHeight h latest)))
          else Err (NonMonotonicHeight h latest)
        else o_bind (may_load_consensus_state (lc_consensus env) (hd_height header) store) (\<lambda>loaded.
             case loaded of
               Some existing \<Rightarrow>
                 if cn_payload_digest_hex existing \<noteq> lc_hex_encode env (dp_payload decoded) then Err VerificationFailed
                 else Ok decoded
             | None \<Rightarrow> Ok decoded))"

definition check_misbehaviour :: "lc_env \<Rightarrow> client_state \<Rightarrow> misbehaviour \<Rightarrow> (unit, lc_error) outcome" where
  "check_misbehaviour env cs m =
     o_bind (check_header env cs (mb_header_a m)) (\<lambda>decoded_a.
     o_bind (check_header env cs (mb_header_b m)) (\<lambda>decoded_b.
     let same_round = (dp_epoch decoded_a = dp_epoch decoded_b \<and> dp_view decoded_a = dp_view decoded_b);
         same_height = (revision_height (hd_height (mb_header_a m)) = revision_height (hd_height (mb_header_b m)))
     in if \<not> same_round \<and> \<not> same_height then Err MisbehaviourMismatch
        else if dp_payload decoded_a = dp_payload decoded_b then Err NoEquivocation
        else Ok ()))"

datatype sudo_msg =
    UpdateState bytes
  | UpdateStateOnMisbehaviour bytes
  | VerifyUpgradeAndUpdateState bytes bytes bytes bytes
  | VerifyMembership lc_height nat nat bytes "bytes list" bytes
  | VerifyNonMembership lc_height nat nat bytes "bytes list"
  | MigrateClientStore

datatype lc_response = Resp_Heights "lc_height list" | Resp_Empty

definition update_state :: "lc_env \<Rightarrow> bytes \<Rightarrow> lc_store \<Rightarrow> (lc_response \<times> lc_store, lc_error) outcome" where
  "update_state env client_message store =
     o_bind (load_client_state (lc_client env) store) (\<lambda>(cs, chk).
     o_bind (of_option Lc_Std (lc_parse_header env client_message)) (\<lambda>header.
     o_bind (check_update_header env store cs header) (\<lambda>decoded.
     o_bind (save_consensus_state (lc_consensus env) (hd_height header)
       \<lparr>cn_payload_digest_hex = lc_hex_encode env (dp_payload decoded), cn_timestamp = hd_timestamp header,
        cn_epoch = dp_epoch decoded, cn_view = dp_view decoded, cn_parent = dp_parent decoded\<rparr> store) (\<lambda>store1.
     o_bind (save_client_state (lc_client env) (cs\<lparr>cs_latest_height := hd_height header\<rparr>) chk store1) (\<lambda>store2.
     Ok (Resp_Heights [hd_height header], store2))))))"

definition update_state_on_misbehaviour :: "lc_env \<Rightarrow> bytes \<Rightarrow> lc_store \<Rightarrow> (lc_response \<times> lc_store, lc_error) outcome" where
  "update_state_on_misbehaviour env client_message store =
     o_bind (load_client_state (lc_client env) store) (\<lambda>(cs, chk).
     o_bind (of_option Lc_Std (lc_parse_misbehaviour env client_message)) (\<lambda>m.
     o_bind (check_misbehaviour env cs m) (\<lambda>_.
     let freeze_height = min (revision_height (hd_height (mb_header_a m))) (revision_height (hd_height (mb_header_b m)))
     in o_bind (save_client_state (lc_client env)
          (cs\<lparr>cs_frozen_height := Some \<lparr>revision_number = 0, revision_height = freeze_height\<rparr>\<rparr>) chk store) (\<lambda>store1.
        Ok (Resp_Empty, store1)))))"

text \<open>The siblings of a proof as hashes of 32 bytes.\<close>

definition proof_siblings :: "bytes option list \<Rightarrow> (bytes option list, lc_error) outcome" where
  "proof_siblings siblings =
     (if list_all (\<lambda>s. case s of Some b \<Rightarrow> length b = 32 | None \<Rightarrow> True) siblings then Ok siblings else Err InvalidMembershipProof)"

definition verify_membership ::
  "lc_env \<Rightarrow> lc_height \<Rightarrow> bytes \<Rightarrow> bytes list \<Rightarrow> bytes \<Rightarrow> lc_store \<Rightarrow> (lc_response, lc_error) outcome" where
  "verify_membership env height proof_bytes key_path value store =
     o_bind (may_load_consensus_state (lc_consensus env) height store) (\<lambda>loaded.
     o_bind (of_option (ConsensusStateNotFound (revision_height height)) loaded) (\<lambda>cn.
     o_bind (of_option Lc_Std (lc_parse_proof env proof_bytes)) (\<lambda>prf.
     let pb = mp_payload_bytes prf
     in if lc_hex_encode env (lc_sha256 env pb) \<noteq> cn_payload_digest_hex cn then Err InvalidMembershipProof
        else if length pb < 32 then Err InvalidMembershipProof
        else
          let state_root = drop (length pb - 32) pb; key = concat key_path; leaf = lc_leaf_hash (lc_sha256 env) key value
          in o_bind (proof_siblings (mp_siblings prf)) (\<lambda>siblings.
             if compute_root (lc_sha256 env) leaf (mp_leaf_index prf) siblings \<noteq> state_root
             then Err InvalidMembershipProof
             else Ok Resp_Empty))))"

fun lc_sudo :: "lc_env \<Rightarrow> sudo_msg \<Rightarrow> lc_store \<Rightarrow> (lc_response \<times> lc_store, lc_error) outcome" where
  "lc_sudo env (UpdateState m) store = update_state env m store"
| "lc_sudo env (UpdateStateOnMisbehaviour m) store = update_state_on_misbehaviour env m store"
| "lc_sudo env (VerifyMembership height _ _ proof_bytes key_path value) store =
     o_bind (verify_membership env height proof_bytes key_path value store) (\<lambda>r. Ok (r, store))"
| "lc_sudo env (VerifyNonMembership _ _ _ _ _) store = Err MembershipProofsUnsupported"
| "lc_sudo env (VerifyUpgradeAndUpdateState _ _ _ _) store = Err Unsupported"
| "lc_sudo env MigrateClientStore store = Ok (Resp_Empty, store)"

datatype lc_query_msg = Status | TimestampAtHeight lc_height | VerifyClientMessage bytes | CheckForMisbehaviour bytes

datatype lc_query_response = Resp_Status bytes | Resp_Timestamp nat | Resp_EmptyResult | Resp_Found bool

text \<open>Every error of a query is a \<open>StdError\<close>.\<close>

definition to_std :: "('a, lc_error) outcome \<Rightarrow> ('a, lc_error) outcome" where
  "to_std r = (case r of Ok a \<Rightarrow> Ok a | Err _ \<Rightarrow> Err Lc_Std | Panic \<Rightarrow> Panic)"

fun lc_query :: "lc_env \<Rightarrow> lc_query_msg \<Rightarrow> lc_store \<Rightarrow> (lc_query_response, lc_error) outcome" where
  "lc_query env Status store =
     o_bind (load_client_state (lc_client env) store) (\<lambda>(cs, _).
     Ok (Resp_Status (if cs_frozen_height cs \<noteq> None then ascii ''Frozen'' else ascii ''Active'')))"
| "lc_query env (TimestampAtHeight height) store =
     o_bind (may_load_consensus_state (lc_consensus env) height store) (\<lambda>loaded.
     o_bind (of_option Lc_Std loaded) (\<lambda>cn. Ok (Resp_Timestamp (cn_timestamp cn))))"
| "lc_query env (VerifyClientMessage m) store =
     o_bind (load_client_state (lc_client env) store) (\<lambda>(cs, _).
     o_bind (to_std (case lc_parse_header env m of
         Some header \<Rightarrow> o_bind (check_header env cs header) (\<lambda>_. Ok ())
       | None \<Rightarrow>
           (case lc_parse_misbehaviour env m of
              Some mb \<Rightarrow> check_misbehaviour env cs mb
            | None \<Rightarrow> Err InvalidProposal))) (\<lambda>_. Ok Resp_EmptyResult))"
| "lc_query env (CheckForMisbehaviour m) store =
     o_bind (load_client_state (lc_client env) store) (\<lambda>(cs, _).
     case lc_parse_misbehaviour env m of
       None \<Rightarrow> Ok (Resp_Found False)
     | Some mb \<Rightarrow>
         (case check_misbehaviour env cs mb of
            Ok _ \<Rightarrow> Ok (Resp_Found True) | Err _ \<Rightarrow> Ok (Resp_Found False) | Panic \<Rightarrow> Panic))"

section \<open>What a call changes\<close>

text \<open>The values of the types of the source: heights are \<open>u64\<close>, encodings fit in memory.\<close>

definition lc_env_ok :: "lc_env \<Rightarrow> bool" where
  "lc_env_ok env \<longleftrightarrow> small_codec (lc_client env) \<and> small_codec (lc_consensus env) \<and>
     (\<forall>b h. lc_parse_header env b = Some h \<longrightarrow> height_ok (hd_height h)) \<and>
     (\<forall>b cs. dec (lc_client env) b = Some cs \<longrightarrow> height_ok (cs_latest_height cs))"

text \<open>The client state and the consensus states that a store holds.\<close>

definition holds :: "lc_env \<Rightarrow> lc_store \<Rightarrow> client_state \<Rightarrow> bool" where
  "holds env store cs \<longleftrightarrow> (\<exists>chk. load_client_state (lc_client env) store = Ok (cs, chk) \<and> length chk < 2 ^ 30) \<and>
     height_ok (cs_latest_height cs)"

abbreviation consensus_at :: "lc_env \<Rightarrow> lc_store \<Rightarrow> lc_height \<Rightarrow> (consensus_state option, lc_error) outcome" where
  "consensus_at env store h \<equiv> may_load_consensus_state (lc_consensus env) h store"

definition certified :: "lc_env \<Rightarrow> client_state \<Rightarrow> consensus_state \<Rightarrow> bool" where
  "certified env cs cn \<longleftrightarrow> (\<exists>pk proposal certificate decoded. lc_hex_decode env (cs_group_public_key_hex cs) = Some pk \<and>
     verify_certificate env pk proposal certificate = Ok decoded \<and> cn_payload_digest_hex cn = lc_hex_encode env (dp_payload decoded) \<and>
     cn_epoch cn = dp_epoch decoded \<and> cn_view cn = dp_view decoded \<and> cn_parent cn = dp_parent decoded)"

lemma check_header_Ok:
  "check_header env cs hdr = Ok d \<longleftrightarrow> cs_frozen_height cs = None \<and>
     revision_number (hd_height hdr) = revision_number (cs_latest_height cs) \<and>
     (\<exists>pk. lc_hex_decode env (cs_group_public_key_hex cs) = Some pk \<and>
        verify_certificate env pk (hd_proposal_bytes hdr) (hd_certificate_bytes hdr) = Ok d)"
  by (auto simp: check_header_def split: option.splits)

lemma check_update_header_Ok:
  assumes "check_update_header env store cs hdr = Ok d"
  shows "check_header env cs hdr = Ok d"
    "revision_height (cs_latest_height cs) \<le> revision_height (hd_height hdr)"
    "\<exists>old. consensus_at env store (hd_height hdr) = Ok old \<and>
       (\<forall>cn. old = Some cn \<longrightarrow> cn_payload_digest_hex cn = lc_hex_encode env (dp_payload d))"
  using assms by (auto simp: check_update_header_def Let_def split: if_splits option.splits)

lemma update_state_effect:
  assumes run: "update_state env m store = Ok (resp, store')" and env: "lc_env_ok env" and holds: "holds env store cs"
  obtains hdr d where "lc_parse_header env m = Some hdr" "check_update_header env store cs hdr = Ok d"
    "holds env store' (cs\<lparr>cs_latest_height := hd_height hdr\<rparr>)"
    "consensus_at env store' (hd_height hdr) = Ok (Some \<lparr>cn_payload_digest_hex = lc_hex_encode env (dp_payload d),
       cn_timestamp = hd_timestamp hdr, cn_epoch = dp_epoch d, cn_view = dp_view d, cn_parent = dp_parent d\<rparr>)"
    "\<forall>h. h \<noteq> hd_height hdr \<longrightarrow> consensus_at env store' h = consensus_at env store h"
proof -
  from holds obtain chk where load: "load_client_state (lc_client env) store = Ok (cs, chk)" and chk: "length chk < 2 ^ 30"
    by (auto simp: holds_def)
  from run load obtain hdr d store1 where hdr: "lc_parse_header env m = Some hdr" and d: "check_update_header env store cs hdr = Ok d"
    and s1: "save_consensus_state (lc_consensus env) (hd_height hdr) \<lparr>cn_payload_digest_hex = lc_hex_encode env (dp_payload d),
       cn_timestamp = hd_timestamp hdr, cn_epoch = dp_epoch d, cn_view = dp_view d, cn_parent = dp_parent d\<rparr> store = Ok store1"
    and s2: "save_client_state (lc_client env) (cs\<lparr>cs_latest_height := hd_height hdr\<rparr>) chk store1 = Ok store'"
    by (auto simp: update_state_def)
  have c: "small_codec (lc_client env)" "small_codec (lc_consensus env)" and h: "height_ok (hd_height hdr)"
    using env hdr by (auto simp: lc_env_ok_def)
  note client = save_client_load [OF s2 c(1) chk] and cons = save_consensus_load [OF s1 c(2)]
  show thesis
    by (rule that [OF hdr d]) (use client cons h chk in \<open>auto simp: holds_def\<close>)
qed

lemma misbehaviour_effect:
  assumes run: "update_state_on_misbehaviour env m store = Ok (resp, store')" and env: "lc_env_ok env" and holds: "holds env store cs"
  obtains mb h where "lc_parse_misbehaviour env m = Some mb" "check_misbehaviour env cs mb = Ok ()"
    "holds env store' (cs\<lparr>cs_frozen_height := Some h\<rparr>)" "\<forall>h'. consensus_at env store' h' = consensus_at env store h'"
proof -
  from holds obtain chk where load: "load_client_state (lc_client env) store = Ok (cs, chk)" and chk: "length chk < 2 ^ 30"
    by (auto simp: holds_def)
  from run load obtain mb h where mb: "lc_parse_misbehaviour env m = Some mb" and d: "check_misbehaviour env cs mb = Ok ()"
    and s1: "save_client_state (lc_client env) (cs\<lparr>cs_frozen_height := Some h\<rparr>) chk store = Ok store'"
    by (auto simp: update_state_on_misbehaviour_def Let_def)
  have c: "small_codec (lc_client env)" using env by (auto simp: lc_env_ok_def)
  note client = save_client_load [OF s1 c chk]
  show thesis
    by (rule that [OF mb d]) (use client holds chk in \<open>auto simp: holds_def\<close>)
qed

section \<open>Reachable states\<close>

inductive lc_step :: "lc_env \<Rightarrow> lc_store \<Rightarrow> lc_store \<Rightarrow> bool" for env where
  "lc_sudo env msg store = Ok (resp, store') \<Longrightarrow> lc_step env store store'"

lemma lc_step_cases:
  assumes "lc_step env store store'"
  obtains (same) "store' = store"
    | (update) m resp where "update_state env m store = Ok (resp, store')"
    | (freeze) m resp where "update_state_on_misbehaviour env m store = Ok (resp, store')"
proof -
  from assms obtain msg resp where "lc_sudo env msg store = Ok (resp, store')" by (cases rule: lc_step.cases)
  then show thesis by (cases msg) (auto intro: same update freeze)
qed

lemma frozen_fails:
  assumes "cs_frozen_height cs \<noteq> None"
  shows "check_update_header env store cs hdr \<noteq> Ok d" "check_misbehaviour env cs mb \<noteq> Ok u"
  using assms check_update_header_Ok(1) [of env store cs hdr d] check_header_Ok [of env cs]
  by (auto simp: check_misbehaviour_def)

text \<open>What a step keeps, from the client state \<open>cs\<close> to \<open>cs'\<close>.\<close>

definition client_le :: "lc_env \<Rightarrow> lc_store \<Rightarrow> client_state \<Rightarrow> lc_store \<Rightarrow> client_state \<Rightarrow> bool" where
  "client_le env store cs store' cs' \<longleftrightarrow> cs_chain_id cs' = cs_chain_id cs \<and>
     cs_group_public_key_hex cs' = cs_group_public_key_hex cs \<and>
     revision_number (cs_latest_height cs') = revision_number (cs_latest_height cs) \<and>
     revision_height (cs_latest_height cs) \<le> revision_height (cs_latest_height cs') \<and>
     (cs_frozen_height cs \<noteq> None \<longrightarrow> store' = store) \<and>
     (\<forall>h cn. consensus_at env store h = Ok (Some cn) \<longrightarrow>
        (\<exists>cn'. consensus_at env store' h = Ok (Some cn') \<and> cn_payload_digest_hex cn' = cn_payload_digest_hex cn))"

lemma lc_step_effect:
  assumes step: "lc_step env store store'" and env: "lc_env_ok env" and holds: "holds env store cs"
  shows "\<exists>cs'. holds env store' cs' \<and> client_le env store cs store' cs' \<and>
    (\<forall>h cn. consensus_at env store' h = Ok (Some cn) \<longrightarrow> certified env cs cn \<or> consensus_at env store h = Ok (Some cn))"
  using step
proof (cases rule: lc_step_cases)
  case same
  with holds show ?thesis by (auto simp: client_le_def)
next
  case (update m resp)
  obtain hdr d where "lc_parse_header env m = Some hdr" and d: "check_update_header env store cs hdr = Ok d" and holds': "holds env store' (cs\<lparr>cs_latest_height := hd_height hdr\<rparr>)"
    and new: "consensus_at env store' (hd_height hdr) = Ok (Some \<lparr>cn_payload_digest_hex = lc_hex_encode env (dp_payload d),
       cn_timestamp = hd_timestamp hdr, cn_epoch = dp_epoch d, cn_view = dp_view d, cn_parent = dp_parent d\<rparr>)"
    and other: "\<forall>h. h \<noteq> hd_height hdr \<longrightarrow> consensus_at env store' h = consensus_at env store h"
    by (rule update_state_effect [OF update env holds])
  note ok = check_update_header_Ok [OF d]
  have "client_le env store cs store' (cs\<lparr>cs_latest_height := hd_height hdr\<rparr>)"
    unfolding client_le_def
  proof (intro conjI allI impI)
    fix h cn assume cn: "consensus_at env store h = Ok (Some cn)"
    show "\<exists>cn'. consensus_at env store' h = Ok (Some cn') \<and> cn_payload_digest_hex cn' = cn_payload_digest_hex cn"
      by (cases "h = hd_height hdr") (use cn new other ok(3) in auto)
  qed (use ok(1,2) in \<open>auto simp: check_header_Ok\<close>)
  moreover have "certified env cs cn \<or> consensus_at env store h = Ok (Some cn)" if "consensus_at env store' h = Ok (Some cn)" for h cn
  proof (cases "h = hd_height hdr")
    case True
    from ok(1) obtain pk where "lc_hex_decode env (cs_group_public_key_hex cs) = Some pk"
      "verify_certificate env pk (hd_proposal_bytes hdr) (hd_certificate_bytes hdr) = Ok d" by (auto simp: check_header_Ok)
    then have "certified env cs cn" unfolding certified_def using that new True by (intro exI conjI) auto
    then show ?thesis ..
  qed (use that other in auto)
  ultimately show ?thesis using holds' by blast
next
  case (freeze m resp)
  obtain mb h where "lc_parse_misbehaviour env m = Some mb" "check_misbehaviour env cs mb = Ok ()"
    "holds env store' (cs\<lparr>cs_frozen_height := Some h\<rparr>)" "\<forall>h'. consensus_at env store' h' = consensus_at env store h'"
    by (rule misbehaviour_effect [OF freeze env holds])
  with frozen_fails(2) [of cs env mb "()"] show ?thesis
    by (intro exI [of _ "cs\<lparr>cs_frozen_height := Some h\<rparr>"]) (auto simp: client_le_def)
qed

lemma certified_cong: "cs_group_public_key_hex cs' = cs_group_public_key_hex cs \<Longrightarrow> certified env cs' cn = certified env cs cn"
  by (simp add: certified_def)

lemma lc_instantiate_effect:
  assumes run: "lc_instantiate env msg (\<lambda>_. None) = Ok store" and env: "lc_env_ok env" and chk: "length (im_checksum msg) < 2 ^ 30"
  obtains cs cn where "dec (lc_client env) (im_client_state msg) = Some cs" "dec (lc_consensus env) (im_consensus_state msg) = Some cn"
    "holds env store cs" "\<forall>h. consensus_at env store h = Ok (if h = cs_latest_height cs then Some cn else None)"
proof -
  from run obtain cs cn store1 where cs: "dec (lc_client env) (im_client_state msg) = Some cs"
    and cn: "dec (lc_consensus env) (im_consensus_state msg) = Some cn"
    and s1: "save_consensus_state (lc_consensus env) (cs_latest_height cs) cn (\<lambda>_. None) = Ok store1"
    and s2: "save_client_state (lc_client env) cs (im_checksum msg) store1 = Ok store"
    by (auto simp: lc_instantiate_def split: if_splits)
  have c: "small_codec (lc_client env)" "small_codec (lc_consensus env)" and h: "height_ok (cs_latest_height cs)"
    using env cs by (auto simp: lc_env_ok_def)
  note client = save_client_load [OF s2 c(1) chk] and cons = save_consensus_load [OF s1 c(2)]
  show thesis
    by (rule that [OF cs cn]) (use client cons h chk in \<open>auto simp: holds_def may_load_consensus_state_def\<close>)
qed

text \<open>
  C7. Everything a light client trusts is signed: in every store reached from \<open>instantiate\<close> on an
  empty store by successful \<open>sudo\<close> calls, a consensus state is the one given at instantiation, at
  the height given then, or its payload digest, epoch, view and parent are those of a proposal with
  a certificate that verifies under the group key given at instantiation.
\<close>

theorem lc_states_certified:
  assumes "lc_env_ok env" and "length (im_checksum msg) < 2 ^ 30"
    and "lc_instantiate env msg (\<lambda>_. None) = Ok store0" and "(lc_step env)\<^sup>*\<^sup>* store0 store"
    and "dec (lc_client env) (im_client_state msg) = Some cs0" and "dec (lc_consensus env) (im_consensus_state msg) = Some cn0"
    and "consensus_at env store h = Ok (Some cn)"
  shows "certified env cs0 cn \<or> (h = cs_latest_height cs0 \<and> cn = cn0)"
proof -
  obtain cs cn' where "dec (lc_client env) (im_client_state msg) = Some cs" "dec (lc_consensus env) (im_consensus_state msg) = Some cn'"
    "holds env store0 cs" "\<forall>h. consensus_at env store0 h = Ok (if h = cs_latest_height cs then Some cn' else None)"
    by (rule lc_instantiate_effect [OF assms(3,1,2)])
  then have start: "holds env store0 cs0" "\<forall>h. consensus_at env store0 h = Ok (if h = cs_latest_height cs0 then Some cn0 else None)"
    using assms(5,6) by auto
  let ?I = "\<lambda>store. (\<exists>cs. holds env store cs \<and> cs_group_public_key_hex cs = cs_group_public_key_hex cs0) \<and>
    (\<forall>h cn. consensus_at env store h = Ok (Some cn) \<longrightarrow> certified env cs0 cn \<or> h = cs_latest_height cs0 \<and> cn = cn0)"
  from assms(4) have "?I store"
  proof (induction rule: rtranclp_induct)
    case base
    with start show ?case by (auto split: if_splits)
  next
    case (step s s')
    then obtain cs where cs: "holds env s cs" "cs_group_public_key_hex cs = cs_group_public_key_hex cs0" by blast
    from lc_step_effect [OF step.hyps(2) assms(1) cs(1)] step.IH show ?case
      using certified_cong [OF cs(2)] cs(2) unfolding client_le_def by metis
  qed
  with assms(7) show ?thesis by blast
qed

text \<open>
  C8. A successful \<open>sudo\<close> call keeps the chain id, the group key and the revision of the client, never
  lowers the latest height, and never changes the payload digest of a height the client already
  holds; the store of a frozen client never changes.
\<close>

theorem lc_step_monotone:
  assumes "lc_step env store store'" and "lc_env_ok env" and "holds env store cs"
  shows "\<exists>cs'. holds env store' cs' \<and> client_le env store cs store' cs'"
  using lc_step_effect [OF assms] by blast

section \<open>What a certificate does not bind\<close>

text \<open>The encoders succeed on the values a call saves.\<close>

definition encodes :: "'a codec \<Rightarrow> 'a \<Rightarrow> bool" where
  "encodes c x \<longleftrightarrow> enc c x \<noteq> None"

lemma save_succeeds:
  "encodes cc cs \<Longrightarrow> \<exists>s. save_client_state cc cs chk store = Ok s"
  "encodes nc cn \<Longrightarrow> \<exists>s. save_consensus_state nc h cn store = Ok s"
  by (auto simp: encodes_def save_client_state_def save_consensus_state_def)

lemma lc_reach_holds:
  assumes "(lc_step env)\<^sup>*\<^sup>* store store'" "lc_env_ok env" "holds env store cs"
  shows "\<exists>cs'. holds env store' cs' \<and> revision_height (cs_latest_height cs) \<le> revision_height (cs_latest_height cs')"
  using assms(1)
proof (induction rule: rtranclp_induct)
  case base
  with assms(3) show ?case by blast
next
  case (step s s')
  then obtain cs' where cs': "holds env s cs'" "revision_height (cs_latest_height cs) \<le> revision_height (cs_latest_height cs')" by blast
  from lc_step_effect [OF step.hyps(2) assms(2) cs'(1)] cs'(2) show ?case unfolding client_le_def by (meson le_trans)
qed

lemma update_state_accepts:
  assumes env: "lc_env_ok env" and held: "holds env store cs" and hdr: "lc_parse_header env m = Some hdr"
    and check: "check_update_header env store cs hdr = Ok d"
    and cs: "encodes (lc_client env) (cs\<lparr>cs_latest_height := hd_height hdr\<rparr>)"
    and cn: "encodes (lc_consensus env) \<lparr>cn_payload_digest_hex = lc_hex_encode env (dp_payload d),
       cn_timestamp = hd_timestamp hdr, cn_epoch = dp_epoch d, cn_view = dp_view d, cn_parent = dp_parent d\<rparr>"
  obtains store' where "update_state env m store = Ok (Resp_Heights [hd_height hdr], store')"
    "holds env store' (cs\<lparr>cs_latest_height := hd_height hdr\<rparr>)"
    "consensus_at env store' (hd_height hdr) = Ok (Some \<lparr>cn_payload_digest_hex = lc_hex_encode env (dp_payload d),
       cn_timestamp = hd_timestamp hdr, cn_epoch = dp_epoch d, cn_view = dp_view d, cn_parent = dp_parent d\<rparr>)"
proof -
  from held obtain chk where load: "load_client_state (lc_client env) store = Ok (cs, chk)" by (auto simp: holds_def)
  from save_succeeds(2) [OF cn] obtain s1 where s1: "save_consensus_state (lc_consensus env) (hd_height hdr)
    \<lparr>cn_payload_digest_hex = lc_hex_encode env (dp_payload d), cn_timestamp = hd_timestamp hdr, cn_epoch = dp_epoch d,
     cn_view = dp_view d, cn_parent = dp_parent d\<rparr> store = Ok s1" by blast
  from save_succeeds(1) [OF cs] obtain s2 where
    s2: "save_client_state (lc_client env) (cs\<lparr>cs_latest_height := hd_height hdr\<rparr>) chk s1 = Ok s2" by blast
  have run: "update_state env m store = Ok (Resp_Heights [hd_height hdr], s2)"
    using load hdr check s1 s2 by (simp add: update_state_def)
  show thesis
    by (rule update_state_effect [OF run env held], rule that [OF run]) (use hdr check in auto)
qed

text \<open>
  C24. The height of a header is not signed: a header whose certificate verifies is accepted under any
  greater height the client holds no consensus state for. The client is then at that height, and
  whatever calls follow, no header at a lower height is accepted again; a relayer who picks the
  greatest \<open>u64\<close> ends the client's progress with one honest certificate.
\<close>

theorem relabelled_header_blocks_client:
  assumes "lc_env_ok env" and "holds env store cs" and "check_header env cs hdr = Ok d"
    and "h = \<lparr>revision_number = revision_number (cs_latest_height cs), revision_height = n\<rparr>"
    and "revision_height (cs_latest_height cs) < n" and "consensus_at env store h = Ok None"
    and "lc_parse_header env m = Some (hdr\<lparr>hd_height := h\<rparr>)"
    and "encodes (lc_client env) (cs\<lparr>cs_latest_height := h\<rparr>)"
    and "encodes (lc_consensus env) \<lparr>cn_payload_digest_hex = lc_hex_encode env (dp_payload d),
       cn_timestamp = hd_timestamp hdr, cn_epoch = dp_epoch d, cn_view = dp_view d, cn_parent = dp_parent d\<rparr>"
  shows "\<exists>store'. lc_sudo env (UpdateState m) store = Ok (Resp_Heights [h], store') \<and>
    holds env store' (cs\<lparr>cs_latest_height := h\<rparr>) \<and>
    (\<forall>s m' hdr' r. (lc_step env)\<^sup>*\<^sup>* store' s \<and> lc_parse_header env m' = Some hdr' \<and> revision_height (hd_height hdr') < n \<longrightarrow>
       lc_sudo env (UpdateState m') s \<noteq> Ok r)"
proof -
  have "check_header env cs (hdr\<lparr>hd_height := h\<rparr>) = Ok d" using assms(3,4) by (simp add: check_header_Ok)
  with assms(4-6) have check: "check_update_header env store cs (hdr\<lparr>hd_height := h\<rparr>) = Ok d"
    by (simp add: check_update_header_def)
  obtain s2 where run: "update_state env m store = Ok (Resp_Heights [h], s2)" and held: "holds env s2 (cs\<lparr>cs_latest_height := h\<rparr>)"
    by (rule update_state_accepts [OF assms(1,2,7) check]) (use assms(8,9) in simp_all)
  have "lc_sudo env (UpdateState m') s \<noteq> Ok r"
    if reach: "(lc_step env)\<^sup>*\<^sup>* s2 s" and hdr': "lc_parse_header env m' = Some hdr'" "revision_height (hd_height hdr') < n" for s m' hdr' r
  proof
    assume "lc_sudo env (UpdateState m') s = Ok r"
    then obtain resp s' where run': "update_state env m' s = Ok (resp, s')" by (cases r) simp
    from lc_reach_holds [OF reach assms(1) held] obtain cs' where cs': "holds env s cs'" "n \<le> revision_height (cs_latest_height cs')"
      using assms(4) by auto
    show False
      by (rule update_state_effect [OF run' assms(1) cs'(1)]) (use hdr' cs'(2) check_update_header_Ok(2) in fastforce)
  qed
  with run held show ?thesis by auto
qed

text \<open>
  C25. Misbehaviour can be made from honest headers: two headers whose certificates verify with
  different payloads, of any two rounds, are accepted as misbehaviour once both are relabelled to
  one height, and the client is frozen. Freezing stops updates only: membership in the states held
  is answered as before.
\<close>

theorem misbehaviour_forgeable:
  assumes "lc_env_ok env" and "holds env store cs"
    and "check_header env cs a = Ok da" and "check_header env cs b = Ok db" and "dp_payload da \<noteq> dp_payload db"
    and "revision_number h = revision_number (cs_latest_height cs)"
    and "lc_parse_misbehaviour env m = Some \<lparr>mb_header_a = a\<lparr>hd_height := h\<rparr>, mb_header_b = b\<lparr>hd_height := h\<rparr>\<rparr>"
    and "encodes (lc_client env) (cs\<lparr>cs_frozen_height := Some \<lparr>revision_number = 0, revision_height = revision_height h\<rparr>\<rparr>)"
  shows "\<exists>store'. lc_sudo env (UpdateStateOnMisbehaviour m) store = Ok (Resp_Empty, store') \<and>
    lc_query env Status store' = Ok (Resp_Status (ascii ''Frozen'')) \<and>
    (\<forall>height prf path v. verify_membership env height prf path v store' = verify_membership env height prf path v store)"
proof -
  let ?cs = "cs\<lparr>cs_frozen_height := Some \<lparr>revision_number = 0, revision_height = revision_height h\<rparr>\<rparr>"
  from assms(2) obtain chk where load: "load_client_state (lc_client env) store = Ok (cs, chk)" and chk: "length chk < 2 ^ 30"
    by (auto simp: holds_def)
  have "check_header env cs (a\<lparr>hd_height := h\<rparr>) = Ok da" "check_header env cs (b\<lparr>hd_height := h\<rparr>) = Ok db"
    using assms(3,4,6) by (auto simp: check_header_Ok)
  with assms(5) have check: "check_misbehaviour env cs \<lparr>mb_header_a = a\<lparr>hd_height := h\<rparr>, mb_header_b = b\<lparr>hd_height := h\<rparr>\<rparr> = Ok ()"
    by (simp add: check_misbehaviour_def)
  from save_succeeds(1) [OF assms(8)] obtain s where s: "save_client_state (lc_client env) ?cs chk store = Ok s" by blast
  have run: "update_state_on_misbehaviour env m store = Ok (Resp_Empty, s)"
    using load assms(7) check s by (simp add: update_state_on_misbehaviour_def)
  have c: "small_codec (lc_client env)" using assms(1) by (simp add: lc_env_ok_def)
  have h: "height_ok (cs_latest_height ?cs)" using assms(2) by (simp add: holds_def)
  note save_client_load [OF s c chk h]
  then show ?thesis using run by (intro exI [of _ s]) (simp add: verify_membership_def)
qed

section \<open>The paths the node computes\<close>

lemma next_level_lengths:
  "\<lbrakk>\<And>x. length (sha256 x) = 32; \<forall>l\<in>set ls. length l = 32\<rbrakk> \<Longrightarrow> \<forall>l\<in>set (next_level sha256 ls). length l = 32"
  by (induction sha256 ls rule: next_level.induct) auto

lemma merkle_path_lengths:
  "\<lbrakk>\<And>x. length (sha256 x) = 32; \<forall>l\<in>set ls. length l = 32\<rbrakk> \<Longrightarrow> proof_siblings (merkle_path sha256 ls i) = Ok (merkle_path sha256 ls i)"
proof (induction sha256 ls i rule: merkle_path.induct)
  case (1 sha256 level i)
  note sha = "1.prems"(1) and lens = "1.prems"(2)
  show ?case
  proof (cases "length level > 1")
    case True
    then have "proof_siblings (merkle_path sha256 (next_level sha256 level) (i div 2)) = Ok (merkle_path sha256 (next_level sha256 level) (i div 2))"
      using "1.IH" [OF True refl sha next_level_lengths [OF sha lens]] by simp
    with True lens show ?thesis
      by (subst (1 2) merkle_path.simps) (auto simp: proof_siblings_def Let_def split: if_splits)
  qed (simp add: merkle_path.simps proof_siblings_def)
qed

lemma leaves_of_lengths: "(\<And>x. length (sha256 x) = 32) \<Longrightarrow> \<forall>l\<in>set (leaves_of sha256 es). length l = 32"
  by (auto simp: leaves_of_def leaf_hash_def)

lemma merkle_root_length: "(\<And>x. length (sha256 x) = 32) \<Longrightarrow> length (merkle_root sha256 (leaves_of sha256 es)) = 32"
  using tree_nodes_length [OF merkle_loop_in_nodes, of "leaves_of sha256 es" sha256] leaves_of_lengths [of sha256 es]
  by (cases "leaves_of sha256 es = []") (auto simp: merkle_root_def)

section \<open>Witnesses\<close>

definition table_codec :: "(bytes \<times> 'a) list \<Rightarrow> 'a codec" where
  "table_codec t = \<lparr>enc = map_of (map (\<lambda>(b, x). (x, b)) t), dec = map_of t\<rparr>"

definition test_height :: "nat \<Rightarrow> lc_height" where
  "test_height n = \<lparr>revision_number = 0, revision_height = n\<rparr>"

definition test_client :: "nat \<Rightarrow> nat option \<Rightarrow> client_state" where
  "test_client n frozen = \<lparr>cs_chain_id = [99], cs_group_public_key_hex = replicate 96 0, cs_latest_height = test_height n,
     cs_frozen_height = map_option test_height frozen\<rparr>"

definition test_consensus :: "byte \<Rightarrow> nat \<Rightarrow> consensus_state" where
  "test_consensus x n = \<lparr>cn_payload_digest_hex = replicate 32 x, cn_timestamp = n, cn_epoch = n, cn_view = n, cn_parent = n\<rparr>"

definition test_header :: "byte \<Rightarrow> nat \<Rightarrow> lc_header" where
  "test_header x n = \<lparr>hd_height = test_height n, hd_timestamp = 1, hd_proposal_bytes = [1, 1, 1] @ replicate 32 x,
     hd_certificate_bytes = replicate 48 0\<rparr>"

definition test_lc_env :: lc_env where
  "test_lc_env = \<lparr>lc_g2 = \<lambda>_. True, lc_g1 = \<lambda>_. True, lc_pairing = \<lambda>_ _ _ _. True, lc_sha256 = take 32, lc_hex_encode = id,
     lc_hex_decode = Some,
     lc_client = table_codec [([1], test_client 1 None), ([2], test_client (2 ^ 64 - 1) None), ([3], test_client 1 (Some 5))],
     lc_consensus = table_codec [([1], test_consensus 7 0), ([2], test_consensus 8 1)],
     lc_parse_header = map_of [([1], test_header 8 (2 ^ 64 - 1)), ([2], test_header 8 2)],
     lc_parse_misbehaviour = map_of [([1], \<lparr>mb_header_a = test_header 8 5, mb_header_b = test_header 9 5\<rparr>)],
     lc_parse_proof = \<lambda>_. None\<rparr>"

lemma test_lc_env_ok: "lc_env_ok test_lc_env"
  by (auto simp: lc_env_ok_def small_codec_def test_lc_env_def table_codec_def test_header_def test_client_def test_height_def
      height_ok_def test_consensus_def split: if_splits)

definition test_lc_msg :: instantiate_msg where
  "test_lc_msg = \<lparr>im_client_state = [1], im_consensus_state = [1], im_checksum = [7]\<rparr>"

definition test_lc_store :: lc_store where
  "test_lc_store = (case lc_instantiate test_lc_env test_lc_msg (\<lambda>_. None) of Ok s \<Rightarrow> s | _ \<Rightarrow> (\<lambda>_. None))"

lemma test_lc_decodes:
  "dec (lc_client test_lc_env) (im_client_state test_lc_msg) = Some (test_client 1 None)"
  "dec (lc_consensus test_lc_env) (im_consensus_state test_lc_msg) = Some (test_consensus 7 0)"
  by (simp_all add: test_lc_env_def test_lc_msg_def table_codec_def)

lemma test_lc_encodes:
  "encodes (lc_client test_lc_env) (test_client 1 None)"
  "encodes (lc_client test_lc_env) (test_client (2 ^ 64 - 1) None)"
  "encodes (lc_client test_lc_env) (test_client 1 (Some 5))"
  "encodes (lc_consensus test_lc_env) (test_consensus 7 0)"
  "encodes (lc_consensus test_lc_env) (test_consensus 8 1)"
  by (simp_all add: encodes_def test_lc_env_def table_codec_def)

lemma test_lc_instantiate: "lc_instantiate test_lc_env test_lc_msg (\<lambda>_. None) = Ok test_lc_store"
proof -
  obtain s1 where s1: "save_consensus_state (lc_consensus test_lc_env) (cs_latest_height (test_client 1 None)) (test_consensus 7 0) (\<lambda>_. None) = Ok s1"
    using save_succeeds(2) [OF test_lc_encodes(4)] by blast
  obtain s2 where s2: "save_client_state (lc_client test_lc_env) (test_client 1 None) (im_checksum test_lc_msg) s1 = Ok s2"
    using save_succeeds(1) [OF test_lc_encodes(1)] by blast
  have "lc_hex_decode test_lc_env (cs_group_public_key_hex (test_client 1 None)) = Some (replicate 96 0)"
    by (simp add: test_lc_env_def test_client_def)
  with s1 s2 have "lc_instantiate test_lc_env test_lc_msg (\<lambda>_. None) = Ok s2" unfolding lc_instantiate_def test_lc_decodes by simp
  then show ?thesis by (simp add: test_lc_store_def)
qed

lemma test_lc_start:
  "holds test_lc_env test_lc_store (test_client 1 None)"
  "consensus_at test_lc_env test_lc_store h = Ok (if h = test_height 1 then Some (test_consensus 7 0) else None)"
proof -
  obtain cs cn where "dec (lc_client test_lc_env) (im_client_state test_lc_msg) = Some cs"
    "dec (lc_consensus test_lc_env) (im_consensus_state test_lc_msg) = Some cn" "holds test_lc_env test_lc_store cs"
    "\<forall>h. consensus_at test_lc_env test_lc_store h = Ok (if h = cs_latest_height cs then Some cn else None)"
    by (rule lc_instantiate_effect [OF test_lc_instantiate test_lc_env_ok]) (simp_all add: test_lc_msg_def)
  then show "holds test_lc_env test_lc_store (test_client 1 None)"
    "consensus_at test_lc_env test_lc_store h = Ok (if h = test_height 1 then Some (test_consensus 7 0) else None)"
    unfolding test_lc_decodes by (auto simp: test_client_def)
qed

lemma test_lc_check:
  "check_header test_lc_env (test_client 1 None) (test_header x n) = Ok \<lparr>dp_epoch = 1, dp_view = 1, dp_parent = 1, dp_payload = replicate 32 x\<rparr>"
  by (simp add: check_header_def test_client_def test_header_def test_height_def test_lc_env_def verify_certificate_def decode_proposal_def
      read_uvarint_def read_uvarint_loop.simps)

lemma test_lc_update:
  obtains store where "update_state test_lc_env [1] test_lc_store = Ok (Resp_Heights [test_height (2 ^ 64 - 1)], store)"
    "consensus_at test_lc_env store (test_height (2 ^ 64 - 1)) = Ok (Some (test_consensus 8 1))"
proof -
  have hdr: "lc_parse_header test_lc_env [1] = Some (test_header 8 (2 ^ 64 - 1))" by (simp add: test_lc_env_def)
  have h: "test_height (2 ^ 64 - 1) \<noteq> test_height 1" "hd_height (test_header 8 (2 ^ 64 - 1)) = test_height (2 ^ 64 - 1)"
    "\<not> revision_height (test_height (2 ^ 64 - 1)) \<le> revision_height (cs_latest_height (test_client 1 None))"
    by (simp_all add: test_height_def test_header_def test_client_def)
  have check: "check_update_header test_lc_env test_lc_store (test_client 1 None) (test_header 8 (2 ^ 64 - 1)) =
    Ok \<lparr>dp_epoch = 1, dp_view = 1, dp_parent = 1, dp_payload = replicate 32 8\<rparr>"
    unfolding check_update_header_def test_lc_check h(2) test_lc_start(2) Let_def using h(1,3) by (simp only: o_bind_def outcome.case if_False option.case)
  have cs: "encodes (lc_client test_lc_env) ((test_client 1 None)\<lparr>cs_latest_height := hd_height (test_header 8 (2 ^ 64 - 1))\<rparr>)"
    using test_lc_encodes(2) by (simp add: test_client_def test_header_def)
  let ?d = "\<lparr>dp_epoch = 1, dp_view = 1, dp_parent = 1, dp_payload = replicate 32 8\<rparr>"
  have eq: "\<lparr>cn_payload_digest_hex = lc_hex_encode test_lc_env (dp_payload ?d), cn_timestamp = hd_timestamp (test_header 8 (2 ^ 64 - 1)),
     cn_epoch = dp_epoch ?d, cn_view = dp_view ?d, cn_parent = dp_parent ?d\<rparr> = test_consensus 8 1"
    by (simp add: test_consensus_def test_header_def test_lc_env_def)
  note accepts = update_state_accepts [OF test_lc_env_ok test_lc_start(1) hdr check cs, unfolded eq h(2)]
  show thesis by (rule accepts [OF test_lc_encodes(5)]) (rule that)
qed

theorem lc_states_certified_witness:
  "\<exists>store. (lc_step test_lc_env)\<^sup>*\<^sup>* test_lc_store store \<and>
     consensus_at test_lc_env store (test_height (2 ^ 64 - 1)) = Ok (Some (test_consensus 8 1)) \<and>
     certified test_lc_env (test_client 1 None) (test_consensus 8 1)"
proof -
  obtain store where run: "update_state test_lc_env [1] test_lc_store = Ok (Resp_Heights [test_height (2 ^ 64 - 1)], store)"
    and cn: "consensus_at test_lc_env store (test_height (2 ^ 64 - 1)) = Ok (Some (test_consensus 8 1))" by (rule test_lc_update)
  from run have step: "(lc_step test_lc_env)\<^sup>*\<^sup>* test_lc_store store" by (intro r_into_rtranclp lc_step.intros [of _ "UpdateState [1]"]) simp
  have "length (im_checksum test_lc_msg) < 2 ^ 30" by (simp add: test_lc_msg_def)
  from lc_states_certified [OF test_lc_env_ok this test_lc_instantiate step test_lc_decodes cn]
  have "certified test_lc_env (test_client 1 None) (test_consensus 8 1)"
    by (simp add: test_client_def test_height_def)
  with step cn show ?thesis by blast
qed

theorem lc_step_monotone_witness:
  "\<exists>store cs. lc_step test_lc_env test_lc_store store \<and> holds test_lc_env store cs \<and>
     client_le test_lc_env test_lc_store (test_client 1 None) store cs"
proof -
  obtain store where "update_state test_lc_env [1] test_lc_store = Ok (Resp_Heights [test_height (2 ^ 64 - 1)], store)"
    by (rule test_lc_update)
  then have step: "lc_step test_lc_env test_lc_store store" by (intro lc_step.intros [of _ "UpdateState [1]"]) simp
  from lc_step_monotone [OF this test_lc_env_ok test_lc_start(1)] step show ?thesis by blast
qed

theorem relabelled_header_blocks_client_witness:
  "\<exists>store. lc_sudo test_lc_env (UpdateState [1]) test_lc_store = Ok (Resp_Heights [test_height (2 ^ 64 - 1)], store) \<and>
     (\<forall>r. lc_sudo test_lc_env (UpdateState [2]) store \<noteq> Ok r)"
proof -
  let ?h = "test_height (2 ^ 64 - 1)"
  have h: "?h = \<lparr>revision_number = revision_number (cs_latest_height (test_client 1 None)), revision_height = 2 ^ 64 - 1\<rparr>"
    "revision_height (cs_latest_height (test_client 1 None)) < 2 ^ 64 - 1" "consensus_at test_lc_env test_lc_store ?h = Ok None"
    unfolding test_lc_start(2) by (simp_all add: test_height_def test_client_def)
  have hdr: "lc_parse_header test_lc_env [1] = Some ((test_header 8 2)\<lparr>hd_height := ?h\<rparr>)"
    "lc_parse_header test_lc_env [2] = Some (test_header 8 2)" "revision_height (hd_height (test_header 8 2)) < 2 ^ 64 - 1"
    by (simp_all add: test_lc_env_def test_header_def test_height_def)
  have enc: "encodes (lc_client test_lc_env) ((test_client 1 None)\<lparr>cs_latest_height := ?h\<rparr>)"
    using test_lc_encodes(2) by (simp add: test_client_def)
  from relabelled_header_blocks_client [OF test_lc_env_ok test_lc_start(1) test_lc_check h hdr(1) enc]
  obtain store where "lc_sudo test_lc_env (UpdateState [1]) test_lc_store = Ok (Resp_Heights [?h], store)"
    "\<forall>s m' hdr' r. (lc_step test_lc_env)\<^sup>*\<^sup>* store s \<and> lc_parse_header test_lc_env m' = Some hdr' \<and>
       revision_height (hd_height hdr') < 2 ^ 64 - 1 \<longrightarrow> lc_sudo test_lc_env (UpdateState m') s \<noteq> Ok r"
    using test_lc_encodes(5) by (auto simp: test_consensus_def test_header_def test_lc_env_def)
  with hdr show ?thesis by blast
qed

theorem misbehaviour_forgeable_witness:
  "\<exists>store. lc_sudo test_lc_env (UpdateStateOnMisbehaviour [1]) test_lc_store = Ok (Resp_Empty, store) \<and>
     lc_query test_lc_env Status store = Ok (Resp_Status (ascii ''Frozen''))"
proof -
  have mb: "lc_parse_misbehaviour test_lc_env [1] =
    Some \<lparr>mb_header_a = (test_header 8 2)\<lparr>hd_height := test_height 5\<rparr>, mb_header_b = (test_header 9 3)\<lparr>hd_height := test_height 5\<rparr>\<rparr>"
    by (simp add: test_lc_env_def test_header_def)
  have enc: "encodes (lc_client test_lc_env)
    ((test_client 1 None)\<lparr>cs_frozen_height := Some \<lparr>revision_number = 0, revision_height = revision_height (test_height 5)\<rparr>\<rparr>)"
    using test_lc_encodes(3) by (simp add: test_client_def test_height_def)
  have rev: "revision_number (test_height 5) = revision_number (cs_latest_height (test_client 1 None))"
    by (simp add: test_client_def test_height_def)
  have "dp_payload \<lparr>dp_epoch = 1, dp_view = 1, dp_parent = 1, dp_payload = replicate 32 (8 :: byte)\<rparr> \<noteq>
    dp_payload \<lparr>dp_epoch = 1, dp_view = 1, dp_parent = 1, dp_payload = replicate 32 9\<rparr>" by (simp add: replicate_eq_replicate)
  from misbehaviour_forgeable [OF test_lc_env_ok test_lc_start(1) test_lc_check test_lc_check this rev mb enc] show ?thesis by blast
qed

end
