(* ===== verification/Spec2Isabelle.thy ===== *)
theory Spec2Isabelle
  imports App_State Light_Client
begin

text \<open>
  A model of the layer-sdk blockchain application in Isabelle/HOL.
\<close>

section \<open>State proofs from the node to the light client\<close>

text \<open>
  C6. What the node proves, the light client accepts: take a state whose root ends the payload of a
  certified block, and a light client whose consensus state is that of the block. The proof that
  the node serves for a key, sent with the payload, is accepted for the key and its committed value.
\<close>

theorem light_client_accepts_state_proof:
  assumes "state_proof ap key a = Ok (Some p)" and "app_inv ap a"
    and "lc_sha256 lc = ap_sha256 ap" and "\<And>x. length (ap_sha256 ap x) = 32"
    and "consensus_at lc store h = Ok (Some cn)"
    and "cn_payload_digest_hex cn = lc_hex_encode lc (lc_sha256 lc (payload @ app_root ap a))"
    and "lc_parse_proof lc prf = Some \<lparr>mp_payload_bytes = payload @ app_root ap a, mp_leaf_index = sp_leaf_index p, mp_siblings = sp_siblings p\<rparr>"
    and "concat path = key"
  shows "lc_sudo lc (VerifyMembership h dt db prf path (sp_value p)) store = Ok (Resp_Empty, store) \<and>
    bts_view (app_storage a) key = Some (sp_value p)"
proof -
  note served = state_proof_path [OF assms(1,2)]
  have len: "length (app_root ap a) = 32" unfolding app_root_def by (rule merkle_root_length [OF assms(4)])
  have sib: "proof_siblings (sp_siblings p) = Ok (sp_siblings p)"
    unfolding served(5) by (rule merkle_path_lengths [OF assms(4) leaves_of_lengths [OF assms(4)]])
  have "verify_membership lc h prf path (sp_value p) store = Ok Resp_Empty"
    unfolding verify_membership_def assms(5,7) using assms(3,6,8) len sib served(4) by (simp add: Let_def)
  with served(1) show ?thesis by simp
qed

text \<open>
  C5. What the light client accepts is committed: if the consensus state is that of a block whose
  payload ends with the root of a state, an accepted membership proof means that the state has an
  entry whose key and value together are the bytes of the claimed key and value, unless SHA-256
  collides on what was hashed.
\<close>

theorem light_client_membership_sound:
  assumes "lc_sudo lc (VerifyMembership h dt db prf path v) store = Ok (resp, store')"
    and "lc_sha256 lc = ap_sha256 ap" and "\<And>x. length (ap_sha256 ap x) = 32" and "inj (lc_hex_encode lc)"
    and "consensus_at lc store h = Ok (Some cn)"
    and "cn_payload_digest_hex cn = lc_hex_encode lc (lc_sha256 lc (payload @ app_root ap a))"
    and "lc_parse_proof lc prf = Some mp"
    and "inj_on (ap_sha256 ap) ({payload @ app_root ap a, mp_payload_bytes mp, [0x00] @ concat path @ v} \<union>
      set (tree_inputs (ap_sha256 ap) (consensus_data a)) \<union>
      set (path_inputs (ap_sha256 ap) (lc_leaf_hash (ap_sha256 ap) (concat path) v) (mp_leaf_index mp) (mp_siblings mp)))"
  shows "store' = store \<and> (\<exists>(k', v')\<in>set (consensus_data a). k' @ v' = concat path @ v)"
proof -
  let ?sha = "ap_sha256 ap" and ?pb = "mp_payload_bytes mp"
  from assms(1,5,7) have sib: "proof_siblings (mp_siblings mp) = Ok (mp_siblings mp)"
    and digest: "lc_hex_encode lc (?sha ?pb) = cn_payload_digest_hex cn"
    and root: "compute_root ?sha (leaf_hash ?sha (concat path) v) (mp_leaf_index mp) (mp_siblings mp) = drop (length ?pb - 32) ?pb"
    and store: "store' = store"
    by (auto simp: verify_membership_def assms(2) Let_def proof_siblings_def split: if_splits)
  from digest assms(2,4,6) have "?sha ?pb = ?sha (payload @ app_root ap a)" by (simp add: inj_eq)
  from inj_onD [OF assms(8) this] have pb: "?pb = payload @ app_root ap a" by simp
  have "length (app_root ap a) = 32" unfolding app_root_def by (rule merkle_root_length [OF assms(3)])
  with root pb have root': "compute_root ?sha (leaf_hash ?sha (concat path) v) (mp_leaf_index mp) (mp_siblings mp) =
    merkle_root ?sha (leaves_of ?sha (consensus_data a))" by (simp add: app_root_def)
  have "\<exists>(k', v')\<in>set (consensus_data a). k' @ v' = concat path @ v"
    by (rule compute_root_sound [OF root' assms(3)])
      (use sib assms(8) in \<open>auto simp: proof_siblings_def list_all_iff split: if_splits elim: inj_on_subset\<close>)
  with store show ?thesis by simp
qed

section \<open>A proof from end to end\<close>

text \<open>A hash function for concrete trees: the length, and the first bytes of the input.\<close>

definition pad_hash :: hash_fun where
  "pad_hash x = take 32 (of_nat (length x) # x @ replicate 32 0)"

definition proof_env :: app_env where
  "proof_env = test_app_env\<lparr>ap_chain := (ap_chain test_app_env)\<lparr>ch_crypto := padding_crypto\<lparr>c_sha256 := pad_hash\<rparr>\<rparr>\<rparr>"

definition two_records :: "kv list" where
  "two_records = [([1], [2]), ([3], [4])]"

definition two_app :: app where
  "two_app = app_new (btree_storage_new\<lparr>bts_data := two_records\<rparr>)"

definition two_payload :: bytes where
  "two_payload = [9] @ app_root proof_env two_app"

definition two_proof :: membership_proof where
  "two_proof = \<lparr>mp_payload_bytes = two_payload, mp_leaf_index = 1, mp_siblings = [Some (leaf_hash pad_hash [1] [2])]\<rparr>"

definition two_consensus :: consensus_state where
  "two_consensus = \<lparr>cn_payload_digest_hex = pad_hash two_payload, cn_timestamp = 0, cn_epoch = 0, cn_view = 0, cn_parent = 0\<rparr>"

definition proof_lc :: lc_env where
  "proof_lc = test_lc_env\<lparr>lc_sha256 := pad_hash, lc_consensus := table_codec [([1], two_consensus)], lc_parse_proof := \<lambda>_. Some two_proof\<rparr>"

definition proof_store :: lc_store where
  "proof_store = (case save_consensus_state (lc_consensus proof_lc) (test_height 7) two_consensus (\<lambda>_. None) of Ok s \<Rightarrow> s | _ \<Rightarrow> (\<lambda>_. None))"

lemma proof_hashes [simp]: "ap_sha256 proof_env = pad_hash" "lc_sha256 proof_lc = pad_hash" "length (pad_hash x) = 32"
  by (simp_all add: proof_env_def proof_lc_def pad_hash_def)

lemma proof_lc_fields [simp]: "lc_hex_encode proof_lc = id" "lc_parse_proof proof_lc b = Some two_proof"
  by (simp_all add: proof_lc_def test_lc_env_def)

lemma proof_consensus: "consensus_at proof_lc proof_store (test_height 7) = Ok (Some two_consensus)"
proof -
  have c: "encodes (lc_consensus proof_lc) two_consensus" "small_codec (lc_consensus proof_lc)"
    by (auto simp: proof_lc_def table_codec_def encodes_def small_codec_def split: if_splits)
  from save_succeeds(2) [OF c(1)] obtain s where s: "save_consensus_state (lc_consensus proof_lc) (test_height 7) two_consensus (\<lambda>_. None) = Ok s"
    by blast
  with save_consensus_load [OF s c(2)] show ?thesis by (simp add: proof_store_def)
qed

lemma two_data: "consensus_data two_app = two_records"
  by (simp add: consensus_data_def two_app_def app_new_def two_records_def ascii_def underscore_def)

lemma two_inv: "app_inv proof_env two_app"
  by (simp add: app_inv_def two_app_def app_new_def two_records_def)

lemma two_served:
  "\<exists>h. state_proof proof_env [3] two_app = Ok (Some \<lparr>sp_state_height = h, sp_key = [3], sp_value = [4], sp_leaf_index = 1,
     sp_siblings = [Some (leaf_hash pad_hash [1] [2])]\<rparr>)"
  by (simp add: state_proof_def committed_entries_def proof_env_def two_app_def two_records_def merkle_path.simps sync_exec app_exec
      test_exec plus_exec store_exec gas_exec prog_exec Let_def)

theorem light_client_accepts_state_proof_witness:
  "lc_sudo proof_lc (VerifyMembership (test_height 7) 0 0 [] [[3]] [4]) proof_store = Ok (Resp_Empty, proof_store)"
proof -
  obtain h where "state_proof proof_env [3] two_app = Ok (Some \<lparr>sp_state_height = h, sp_key = [3], sp_value = [4], sp_leaf_index = 1,
     sp_siblings = [Some (leaf_hash pad_hash [1] [2])]\<rparr>)" using two_served by blast
  from light_client_accepts_state_proof [OF this two_inv _ _ proof_consensus, of "[9]" "[]" "[[3]]" 0 0] show ?thesis
    by (simp add: two_proof_def two_payload_def two_consensus_def)
qed

lemma pad_hash_tag: "pad_hash x = of_nat (length x) # take 31 (x @ replicate 32 0)"
  by (simp add: pad_hash_def take_Cons')

theorem light_client_membership_sound_witness:
  "\<exists>(k', v')\<in>set (consensus_data two_app). k' @ v' = [3, 4]"
proof -
  let ?l = "leaf_hash pad_hash [1] [2]" and ?r = "leaf_hash pad_hash [3] [4]"
  have len: "length ?l = 32" "length ?r = 32" "length (app_root proof_env two_app) = 32"
    unfolding app_root_def by (simp_all add: leaf_hash_def merkle_root_length)
  have root: "merkle_root pad_hash (leaves_of pad_hash two_records) = pad_hash ([1] @ ?l @ ?r)"
    by (simp add: merkle_root_def merkle_loop.simps leaves_of_def two_records_def)
  have run: "lc_sudo proof_lc (VerifyMembership (test_height 7) 0 0 [] [[3]] [4]) proof_store = Ok (Resp_Empty, proof_store)"
    using len root by (simp add: verify_membership_def proof_consensus two_proof_def two_consensus_def two_payload_def proof_siblings_def
      app_root_def two_data Let_def)
  have tree: "tree_inputs pad_hash two_records = [[], [0, 1, 2], [0, 3, 4], [1] @ ?l @ ?r]"
    by (simp add: tree_inputs_def leaf_inputs_def leaves_of_def node_inputs.simps two_records_def)
  have "inj_on (ap_sha256 proof_env) ({[9] @ app_root proof_env two_app, mp_payload_bytes two_proof, [0x00] @ concat [[3]] @ [4]} \<union>
      set (tree_inputs (ap_sha256 proof_env) (consensus_data two_app)) \<union>
      set (path_inputs (ap_sha256 proof_env) (lc_leaf_hash (ap_sha256 proof_env) (concat [[3]]) [4]) (mp_leaf_index two_proof)
        (mp_siblings two_proof)))"
    using len by (auto simp: inj_on_def tree pad_hash_tag two_data two_proof_def two_payload_def)
  from light_client_membership_sound [OF run _ _ _ proof_consensus _ _ this] show ?thesis
    by (simp add: two_consensus_def two_payload_def)
qed

end
